theory Spec2Isabelle
  imports Main
begin

section \<open>The Go runtime as seen by the sidecar\<close>

text \<open>
  The sidecar is a reactive program: it sleeps, waits on a ticker and on the cancellation
  channel of a context, dials the game server and calls the Agones SDK. The model runs
  the code against a \<open>world\<close> that answers every such interaction, on a logical clock
  counted in nanoseconds (the unit of Go's \<open>time.Duration\<close>), and records everything the
  code does in a trace of time-stamped actions.
\<close>

type_synonym duration = int

definition Second :: duration where
  "Second = 1000000000"

datatype error =
    Canceled
  | NetError string
  | Unsupported string
  | Wrapped string error

datatype level = LevelDebug | LevelInfo | LevelWarn | LevelError

datatype action =
    Log level string
  | Sleep duration
  | RecvTick
  | RecvDone
  | DialTimeout string string duration "error option"
  | Write string "error option"
  | SetReadDeadline int
  | Read "error option"
  | Close
  | Attempt "error option"
  | NewSDK "error option"
  | Ready "error option"
  | Health "error option"

text \<open>
  \<open>cancel_at\<close> is the instant at which the context built by \<open>signal.NotifyContext\<close> is
  cancelled (\<open>None\<close>: no signal ever arrives). \<open>reply\<close> gives, for the k-th interaction
  with the outside, the time it takes and the error it returns (\<open>None\<close> is Go's \<open>nil\<close>).
  \<open>pick_tick\<close> is the choice of the Go runtime at a \<open>select\<close> whose two cases are both
  ready: Go chooses one of the ready cases by a uniform pseudo-random selection, so the
  choice belongs to the world, not to the program. \<open>unicode_ToLower\<close> is what
  \<open>strings.ToLower\<close> returns for a string that holds a byte outside ASCII: the Unicode
  case tables and the decoding of UTF-8 are not modelled, so that every statement about all
  worlds holds whatever they are.
\<close>

record world =
  cancel_at :: "int option"
  pick_tick :: "nat \<Rightarrow> bool"
  reply :: "nat \<Rightarrow> nat \<times> error option"
  unicode_ToLower :: "string \<Rightarrow> string"

record state =
  now :: int
  step :: nat
  trace :: "(int \<times> action) list"

datatype 'a outcome = Returned 'a | Panicked string

definition emit :: "action \<Rightarrow> state \<Rightarrow> state" where
  "emit a s = s\<lparr>trace := trace s @ [(now s, a)]\<rparr>"

definition slog :: "level \<Rightarrow> string \<Rightarrow> state \<Rightarrow> state" where
  "slog lvl msg s = emit (Log lvl msg) s"

text \<open>
  An interaction with the outside: the action is stamped with the instant at which it is
  issued and carries the error it returns; the clock advances by the time it took.
\<close>

definition extern :: "world \<Rightarrow> (error option \<Rightarrow> action) \<Rightarrow> state \<Rightarrow> error option \<times> state" where
  "extern w act s =
     (case reply w (step s) of
        (d, r) \<Rightarrow> (r, s\<lparr>now := now s + int d, step := Suc (step s),
                         trace := trace s @ [(now s, act r)]\<rparr>))"

text \<open>\<open>time.Sleep\<close> returns at once for a duration that is not positive; no signal interrupts it.\<close>

definition time_Sleep :: "duration \<Rightarrow> state \<Rightarrow> state" where
  "time_Sleep d s = (emit (Sleep d) s)\<lparr>now := now s + max 0 d\<rparr>"

text \<open>
  \<open>net.DialTimeout\<close> returns either a connection and a nil error, or a nil connection and
  an error: the connection is non-nil exactly when the error is \<open>None\<close>.
\<close>

definition net_DialTimeout :: "world \<Rightarrow> string \<Rightarrow> string \<Rightarrow> duration \<Rightarrow> state \<Rightarrow> error option \<times> state" where
  "net_DialTimeout w network address timeout s = extern w (DialTimeout network address timeout) s"

definition conn_Write :: "world \<Rightarrow> string \<Rightarrow> state \<Rightarrow> error option \<times> state" where
  "conn_Write w payload s = extern w (Write payload) s"

definition conn_Read :: "world \<Rightarrow> state \<Rightarrow> error option \<times> state" where
  "conn_Read w s = extern w Read s"

definition conn_Close :: "state \<Rightarrow> state" where
  "conn_Close s = emit Close s"

definition sdk_NewSDK :: "world \<Rightarrow> state \<Rightarrow> error option \<times> state" where
  "sdk_NewSDK w s = extern w NewSDK s"

definition sdk_Ready :: "world \<Rightarrow> state \<Rightarrow> error option \<times> state" where
  "sdk_Ready w s = extern w Ready s"

definition sdk_Health :: "world \<Rightarrow> state \<Rightarrow> error option \<times> state" where
  "sdk_Health w s = extern w Health s"

subsection \<open>Tickers and select\<close>

text \<open>
  \<open>time.NewTicker d\<close> panics when \<open>d\<close> is not positive; otherwise the first tick is
  delivered \<open>d\<close> after the creation of the ticker, and the following ones every \<open>d\<close>. The
  channel holds one tick: the ticks that fall due while one is waiting are dropped.
\<close>

record ticker =
  period :: duration
  next_tick :: int

definition NewTicker :: "duration \<Rightarrow> state \<Rightarrow> ticker option" where
  "NewTicker d s = (if d \<le> 0 then None else Some \<lparr>period = d, next_tick = now s + d\<rparr>)"

datatype branch = TickBranch | DoneBranch

text \<open>
  A \<open>select\<close> over \<open>ticker.C\<close> and \<open>ctx.Done()\<close>. It blocks until the first instant at which
  one of the two channels is ready (this very instant when one already is). A channel
  that is ready alone is taken; when both are ready the runtime picks.
\<close>

definition wake_time :: "world \<Rightarrow> ticker \<Rightarrow> state \<Rightarrow> int" where
  "wake_time w tk s =
     (case cancel_at w of
        None \<Rightarrow> max (now s) (next_tick tk)
      | Some c \<Rightarrow> max (now s) (min c (next_tick tk)))"

definition done_ready :: "world \<Rightarrow> int \<Rightarrow> bool" where
  "done_ready w t = (case cancel_at w of None \<Rightarrow> False | Some c \<Rightarrow> c \<le> t)"

definition select :: "world \<Rightarrow> ticker \<Rightarrow> state \<Rightarrow> branch \<times> ticker \<times> state" where
  "select w tk s =
     (let t = wake_time w tk s;
          tick_ready = (next_tick tk \<le> t);
          take_tick = (tick_ready \<and> (if done_ready w t then pick_tick w (step s) else True))
      in if take_tick
         then (TickBranch,
               tk\<lparr>next_tick := next_tick tk + period tk * ((t - next_tick tk) div period tk + 1)\<rparr>,
               s\<lparr>now := t, step := Suc (step s), trace := trace s @ [(t, RecvTick)]\<rparr>)
         else (DoneBranch, tk,
               s\<lparr>now := t, step := Suc (step s), trace := trace s @ [(t, RecvDone)]\<rparr>))"

subsection \<open>Strings\<close>

text \<open>
  \<open>strings.ToLower\<close>. A string whose bytes are all below \<open>utf8.RuneSelf\<close> (0x80) takes the
  ASCII path: the letters \<open>A\<close>..\<open>Z\<close> are lowered and every other byte is kept. Any other
  string is mapped rune by rune through \<open>unicode.ToLower\<close>; that result is read from the
  world.
\<close>

definition to_lower_char :: "char \<Rightarrow> char" where
  "to_lower_char c =
     (case map_of (zip ''ABCDEFGHIJKLMNOPQRSTUVWXYZ'' ''abcdefghijklmnopqrstuvwxyz'') c of
        Some l \<Rightarrow> l
      | None \<Rightarrow> c)"

definition is_ascii :: "string \<Rightarrow> bool" where
  "is_ascii s = list_all (\<lambda>c. \<not> digit7 c) s"

definition ToLower :: "world \<Rightarrow> string \<Rightarrow> string" where
  "ToLower w s = (if is_ascii s then map to_lower_char s else unicode_ToLower w s)"

text \<open>\<open>net.JoinHostPort\<close>: a host that holds a colon is put in brackets.\<close>

definition JoinHostPort :: "string \<Rightarrow> string \<Rightarrow> string" where
  "JoinHostPort host port =
     (if CHR '':'' \<in> set host
      then ''['' @ host @ '']:'' @ port
      else host @ '':'' @ port)"

section \<open>internal/agones/manager.go\<close>

record AgonesConfig =
  InitialDelay :: duration
  HealthInterval :: duration
  PingHost :: string
  PingPort :: string
  PingProtocol :: string
  PingTimeout :: duration

text \<open>
  The \<open>for { select { ... } }\<close> loop of \<open>probeGameServer\<close>. The first argument bounds the
  number of iterations; \<open>None\<close> says that the loop is still running after that many.
  \<open>ctx.Err()\<close> in the branch of \<open>ctx.Done()\<close> is \<open>context.Canceled\<close>. \<open>Attempt err\<close> marks
  the outcome of one probe attempt, the value that \<open>if err == nil\<close> tests.
\<close>

fun probeGameServer_loop ::
  "nat \<Rightarrow> world \<Rightarrow> AgonesConfig \<Rightarrow> string \<Rightarrow> string \<Rightarrow> ticker \<Rightarrow> state \<Rightarrow> error option outcome option \<times> state" where
  "probeGameServer_loop 0 w cfg protocol address tk s = (None, s)"
| "probeGameServer_loop (Suc n) w cfg protocol address tk s =
     (case select w tk s of
        (b, tk1, s1) \<Rightarrow>
          (case b of
             DoneBranch \<Rightarrow> (Some (Returned (Some Canceled)), s1)
           | TickBranch \<Rightarrow>
               (case net_DialTimeout w protocol address (PingTimeout cfg) s1 of
                  (err, s2) \<Rightarrow>
                    (case err of
                       None \<Rightarrow>
                         (Some (Returned None),
                          slog LevelInfo ''Readiness probe successful!''
                            (conn_Close (emit (Attempt None) s2)))
                     | Some e \<Rightarrow>
                         probeGameServer_loop n w cfg protocol address tk1
                           (slog LevelWarn ''Readiness probe attempt failed, retrying...''
                              (emit (Attempt (Some e)) s2))))))"

definition probeGameServer :: "world \<Rightarrow> AgonesConfig \<Rightarrow> nat \<Rightarrow> state \<Rightarrow> error option outcome option \<times> state" where
  "probeGameServer w cfg n s =
     (let protocol = ToLower w (PingProtocol cfg);
          address = JoinHostPort (PingHost cfg) (PingPort cfg)
      in case NewTicker (2 * Second) s of
           None \<Rightarrow> (Some (Panicked ''non-positive interval for NewTicker''), s)
         | Some tk \<Rightarrow> probeGameServer_loop n w cfg protocol address tk s)"

text \<open>The heartbeat loop of \<open>RunManager\<close>.\<close>

fun RunManager_loop :: "nat \<Rightarrow> world \<Rightarrow> ticker \<Rightarrow> state \<Rightarrow> unit outcome option \<times> state" where
  "RunManager_loop 0 w tk s = (None, s)"
| "RunManager_loop (Suc n) w tk s =
     (case select w tk s of
        (b, tk1, s1) \<Rightarrow>
          (case b of
             TickBranch \<Rightarrow>
               (case sdk_Health w s1 of
                  (err, s2) \<Rightarrow>
                    (case err of
                       Some e \<Rightarrow> RunManager_loop n w tk1 (slog LevelWarn ''Failed to send health ping'' s2)
                     | None \<Rightarrow> RunManager_loop n w tk1 (slog LevelDebug ''Health ping sent successfully'' s2)))
           | DoneBranch \<Rightarrow>
               (Some (Returned ()),
                slog LevelInfo ''Shutdown signal received. Stopping Agones manager.'' s1)))"

definition RunManager :: "world \<Rightarrow> AgonesConfig \<Rightarrow> nat \<Rightarrow> state \<Rightarrow> unit outcome option \<times> state" where
  "RunManager w cfg n s0 =
     (let s1 = slog LevelInfo ''Starting Agones manager...'' s0;
          s2 = slog LevelInfo ''Waiting for initial delay before probing'' s1;
          s3 = time_Sleep (InitialDelay cfg) s2;
          s4 = slog LevelInfo ''Starting readiness probe...'' s3
      in case probeGameServer w cfg n s4 of
           (None, s5) \<Rightarrow> (None, s5)
         | (Some (Panicked m), s5) \<Rightarrow> (Some (Panicked m), s5)
         | (Some (Returned (Some e)), s5) \<Rightarrow>
             (Some (Returned ()),
              slog LevelError ''Readiness probe failed, game server will not be marked as Ready'' s5)
         | (Some (Returned None), s5) \<Rightarrow>
             (case sdk_Ready w s5 of
                (Some e, s6) \<Rightarrow>
                  (Some (Returned ()), slog LevelError ''Failed to send Ready signal to Agones'' s6)
              | (None, s6) \<Rightarrow>
                  (let s7 = slog LevelInfo ''>>> Server is Ready! Starting health checks. <<<'' s6
                   in case NewTicker (HealthInterval cfg) s7 of
                        None \<Rightarrow> (Some (Panicked ''non-positive interval for NewTicker''), s7)
                      | Some tk \<Rightarrow> RunManager_loop n w tk s7)))"

section \<open>internal/probe/probe.go\<close>

record PingConfig =
  Host :: string
  Port :: string
  Protocol :: string
  Timeout :: duration

text \<open>
  One probe attempt of \<open>PingProbe.Probe\<close>: the body of the \<open>ticker.C\<close> case up to the
  test of \<open>err\<close>. Every protocol other than \<open>tcp\<close> takes the branch commented
  \<open>Handles "udp"\<close>.
\<close>

definition ping_attempt :: "world \<Rightarrow> PingConfig \<Rightarrow> string \<Rightarrow> string \<Rightarrow> state \<Rightarrow> error option \<times> state" where
  "ping_attempt w cfg protocol address s =
     (if protocol = ''tcp''
      then (case net_DialTimeout w protocol address (Timeout cfg) s of
              (err, s1) \<Rightarrow>
                (case err of
                   None \<Rightarrow> (None, conn_Close s1)
                 | Some e \<Rightarrow> (Some e, s1)))
      else (case net_DialTimeout w protocol address (Timeout cfg) s of
              (err, s1) \<Rightarrow>
                (case err of
                   None \<Rightarrow>
                     (case conn_Write w ''ping'' s1 of
                        (err2, s2) \<Rightarrow> (err2, conn_Close s2))
                 | Some e \<Rightarrow> (Some e, s1))))"

fun PingProbe_Probe_loop ::
  "nat \<Rightarrow> world \<Rightarrow> PingConfig \<Rightarrow> string \<Rightarrow> string \<Rightarrow> ticker \<Rightarrow> state \<Rightarrow> error option outcome option \<times> state" where
  "PingProbe_Probe_loop 0 w cfg protocol address tk s = (None, s)"
| "PingProbe_Probe_loop (Suc n) w cfg protocol address tk s =
     (case select w tk s of
        (b, tk1, s1) \<Rightarrow>
          (case b of
             DoneBranch \<Rightarrow> (Some (Returned (Some Canceled)), s1)
           | TickBranch \<Rightarrow>
               (case ping_attempt w cfg protocol address s1 of
                  (err, s2) \<Rightarrow>
                    (case err of
                       None \<Rightarrow>
                         (Some (Returned None),
                          slog LevelInfo ''Ping probe successful'' (emit (Attempt None) s2))
                     | Some e \<Rightarrow>
                         PingProbe_Probe_loop n w cfg protocol address tk1
                           (slog LevelWarn ''Ping attempt failed, retrying...''
                              (emit (Attempt (Some e)) s2))))))"

definition PingProbe_Probe :: "PingConfig \<Rightarrow> world \<Rightarrow> nat \<Rightarrow> state \<Rightarrow> error option outcome option \<times> state" where
  "PingProbe_Probe cfg w n s =
     (let protocol = ToLower w (Protocol cfg);
          address = JoinHostPort (Host cfg) (Port cfg);
          s1 = slog LevelInfo ''Starting ping probe'' s
      in case NewTicker (5 * Second) s1 of
           None \<Rightarrow> (Some (Panicked ''non-positive interval for NewTicker''), s1)
         | Some tk \<Rightarrow> PingProbe_Probe_loop n w cfg protocol address tk s1)"

section \<open>The later probe.go (unnamed/part\_000)\<close>

text \<open>\<open>err.Error()\<close> and \<open>strings.Contains\<close>, which the UDP branch uses on the read error.\<close>

fun Error_string :: "error \<Rightarrow> string" where
  "Error_string Canceled = ''context canceled''"
| "Error_string (NetError m) = m"
| "Error_string (Unsupported p) = ''unsupported protocol: '' @ p"
| "Error_string (Wrapped m e) = m @ Error_string e"

fun has_prefix :: "string \<Rightarrow> string \<Rightarrow> bool" where
  "has_prefix s [] = True"
| "has_prefix [] (c # cs) = False"
| "has_prefix (x # xs) (c # cs) = (x = c \<and> has_prefix xs cs)"

fun Contains :: "string \<Rightarrow> string \<Rightarrow> bool" where
  "Contains [] sub = (sub = [])"
| "Contains (x # xs) sub = (has_prefix (x # xs) sub \<or> Contains xs sub)"

text \<open>
  One probe attempt of the later \<open>PingProbe.Probe\<close>, which reads its settings from
  \<open>AgonesConfig\<close>, distinguishes \<open>udp\<close> from the other protocols and tries to read an
  answer after the write.
\<close>

definition ping_attempt_part_000 :: "world \<Rightarrow> AgonesConfig \<Rightarrow> string \<Rightarrow> string \<Rightarrow> state \<Rightarrow> error option \<times> state" where
  "ping_attempt_part_000 w cfg protocol address s =
     (if protocol = ''tcp''
      then (case net_DialTimeout w protocol address (PingTimeout cfg) s of
              (err, s1) \<Rightarrow>
                (case err of
                   None \<Rightarrow> (None, conn_Close s1)
                 | Some e \<Rightarrow> (Some e, s1)))
      else if protocol = ''udp''
      then (case net_DialTimeout w protocol address (PingTimeout cfg) s of
              (err, s1) \<Rightarrow>
                (case err of
                   Some e \<Rightarrow> (Some e, s1)
                 | None \<Rightarrow>
                     (case conn_Write w ''ping'' s1 of
                        (err2, s2) \<Rightarrow>
                          (case err2 of
                             Some e \<Rightarrow>
                               (Some e,
                                conn_Close (slog LevelWarn ''Failed to write to UDP connection'' s2))
                           | None \<Rightarrow>
                               (case conn_Read w (emit (SetReadDeadline (now s2 + PingTimeout cfg)) s2) of
                                  (readErr, s3) \<Rightarrow>
                                    (None,
                                     conn_Close
                                       (case readErr of
                                          Some r \<Rightarrow>
                                            (if \<not> Contains (Error_string r) ''timeout''
                                             then slog LevelDebug ''No response from UDP server (expected for many services)'' s3
                                             else s3)
                                        | None \<Rightarrow> slog LevelDebug ''Received response from UDP server'' s3)))))))
      else (Some (Unsupported protocol), s))"

fun PingProbe_Probe_part_000_loop ::
  "nat \<Rightarrow> world \<Rightarrow> AgonesConfig \<Rightarrow> string \<Rightarrow> string \<Rightarrow> ticker \<Rightarrow> state \<Rightarrow> error option outcome option \<times> state" where
  "PingProbe_Probe_part_000_loop 0 w cfg protocol address tk s = (None, s)"
| "PingProbe_Probe_part_000_loop (Suc n) w cfg protocol address tk s =
     (case select w tk s of
        (b, tk1, s1) \<Rightarrow>
          (case b of
             DoneBranch \<Rightarrow> (Some (Returned (Some Canceled)), s1)
           | TickBranch \<Rightarrow>
               (case ping_attempt_part_000 w cfg protocol address s1 of
                  (err, s2) \<Rightarrow>
                    (case err of
                       None \<Rightarrow>
                         (Some (Returned None),
                          slog LevelInfo ''Ping probe successful'' (emit (Attempt None) s2))
                     | Some e \<Rightarrow>
                         PingProbe_Probe_part_000_loop n w cfg protocol address tk1
                           (slog LevelWarn ''Ping attempt failed, retrying...''
                              (emit (Attempt (Some e)) s2))))))"

definition PingProbe_Probe_part_000 :: "AgonesConfig \<Rightarrow> world \<Rightarrow> nat \<Rightarrow> state \<Rightarrow> error option outcome option \<times> state" where
  "PingProbe_Probe_part_000 cfg w n s =
     (let protocol = ToLower w (PingProtocol cfg);
          address = JoinHostPort (PingHost cfg) (PingPort cfg);
          s1 = slog LevelInfo ''Starting ping probe'' s
      in case NewTicker (5 * Second) s1 of
           None \<Rightarrow> (Some (Panicked ''non-positive interval for NewTicker''), s1)
         | Some tk \<Rightarrow> PingProbe_Probe_part_000_loop n w cfg protocol address tk s1)"

section \<open>main.go\<close>

record Config =
  InitialDelay :: duration
  HealthInterval :: duration
  Ping :: PingConfig

text \<open>The heartbeat loop of \<open>runMonitor\<close>.\<close>

fun runMonitor_loop :: "nat \<Rightarrow> world \<Rightarrow> ticker \<Rightarrow> state \<Rightarrow> error option outcome option \<times> state" where
  "runMonitor_loop 0 w tk s = (None, s)"
| "runMonitor_loop (Suc n) w tk s =
     (case select w tk s of
        (b, tk1, s1) \<Rightarrow>
          (case b of
             TickBranch \<Rightarrow>
               (case sdk_Health w s1 of
                  (err, s2) \<Rightarrow>
                    (case err of
                       Some e \<Rightarrow> runMonitor_loop n w tk1 (slog LevelWarn ''Failed to send health ping'' s2)
                     | None \<Rightarrow> runMonitor_loop n w tk1 s2))
           | DoneBranch \<Rightarrow>
               (Some (Returned None), slog LevelInfo ''Shutdown signal received. Exiting.'' s1)))"

text \<open>
  \<open>runMonitor\<close> takes the probe as a value of the interface \<open>ReadinessProbe\<close>: here a
  function from the world, the bound on its iterations and the state.
\<close>

definition runMonitor ::
  "(world \<Rightarrow> nat \<Rightarrow> state \<Rightarrow> error option outcome option \<times> state) \<Rightarrow> Config \<Rightarrow> world \<Rightarrow> nat \<Rightarrow> state
     \<Rightarrow> error option outcome option \<times> state" where
  "runMonitor p cfg w n s0 =
     (case sdk_NewSDK w s0 of
        (Some e, s1) \<Rightarrow> (Some (Returned (Some (Wrapped ''could not connect to Agones SDK: '' e))), s1)
      | (None, s1) \<Rightarrow>
          (let s2 = slog LevelInfo ''Successfully connected to Agones SDK'' s1;
               s3 = slog LevelInfo ''Waiting for initial delay'' s2;
               s4 = time_Sleep (Config.InitialDelay cfg) s3;
               s5 = slog LevelInfo ''Starting readiness probe...'' s4
           in case p w n s5 of
                (None, s6) \<Rightarrow> (None, s6)
              | (Some (Panicked m), s6) \<Rightarrow> (Some (Panicked m), s6)
              | (Some (Returned (Some e)), s6) \<Rightarrow>
                  (Some (Returned (Some (Wrapped ''readiness probe failed: '' e))), s6)
              | (Some (Returned None), s6) \<Rightarrow>
                  (case sdk_Ready w s6 of
                     (Some e, s7) \<Rightarrow>
                       (Some (Returned (Some (Wrapped ''failed to send Ready signal: '' e))), s7)
                   | (None, s7) \<Rightarrow>
                       (let s8 = slog LevelInfo ''>>> Server is Ready! Starting health checks. <<<'' s7
                        in case NewTicker (Config.HealthInterval cfg) s8 of
                             None \<Rightarrow> (Some (Panicked ''non-positive interval for NewTicker''), s8)
                           | Some tk \<Rightarrow> runMonitor_loop n w tk s8))))"

text \<open>
  \<open>main\<close> of main.go, up to the exit status of the process: 0 when \<open>main\<close> returns, 1 from
  \<open>os.Exit(1)\<close>, 2 when the Go runtime ends the process on a panic; \<open>None\<close> while the
  process is still running.
\<close>

definition main_go :: "Config \<Rightarrow> world \<Rightarrow> nat \<Rightarrow> state \<Rightarrow> nat option \<times> state" where
  "main_go cfg w n s0 =
     (let s1 = slog LevelInfo ''Starting Agnostic Agones Sidecar'' s0
      in case runMonitor (PingProbe_Probe (Ping cfg)) cfg w n s1 of
           (None, s2) \<Rightarrow> (None, s2)
         | (Some (Panicked m), s2) \<Rightarrow> (Some 2, s2)
         | (Some (Returned (Some e)), s2) \<Rightarrow> (Some 1, slog LevelError ''Monitor failed'' s2)
         | (Some (Returned None), s2) \<Rightarrow> (Some 0, slog LevelInfo ''Monitor finished gracefully.'' s2))"

section \<open>The unified main (unnamed/part\_002)\<close>

text \<open>
  \<open>main\<close> connects to the SDK, starts \<open>RunManager\<close> and the file API as goroutines and
  waits for the cancellation of the context; then it returns, which ends the process with
  status 0 whatever the goroutines are doing. Nothing that \<open>RunManager\<close> returns reaches
  \<open>main\<close>: the function has no result. A panic of the manager goroutine ends the process
  with status 2 if it comes before the cancellation. The file API is outside this model.
  The result is the exit status (\<open>None\<close> while the process runs), the state of the main
  goroutine and the run of the manager goroutine; the exit of the process stops that
  goroutine, so of its trace only the part before the exit is performed.
\<close>

record process =
  exit_status :: "nat option"
  main_state :: state
  manager :: "(unit outcome option \<times> state) option"

definition main_part_002 :: "AgonesConfig \<Rightarrow> world \<Rightarrow> nat \<Rightarrow> state \<Rightarrow> process" where
  "main_part_002 agones_cfg w n s0 =
     (let s1 = slog LevelInfo ''Starting Unified Agones Sidecar'' s0
      in case sdk_NewSDK w s1 of
           (Some e, s2) \<Rightarrow>
             \<lparr>exit_status = Some 1,
              main_state = slog LevelError ''Could not connect to Agones SDK'' s2,
              manager = None\<rparr>
         | (None, s2) \<Rightarrow>
             (let s3 = slog LevelInfo ''Successfully connected to Agones SDK'' s2;
                  m = RunManager w agones_cfg n s3;
                  panicked = (case fst m of Some (Panicked msg) \<Rightarrow> True | _ \<Rightarrow> False)
              in case cancel_at w of
                   None \<Rightarrow>
                     \<lparr>exit_status = (if panicked then Some 2 else None),
                      main_state = s3, manager = Some m\<rparr>
                 | Some c \<Rightarrow>
                     (if panicked \<and> now (snd m) < c
                      then \<lparr>exit_status = Some 2, main_state = s3, manager = Some m\<rparr>
                      else \<lparr>exit_status = Some 0,
                            main_state = slog LevelInfo ''Shutdown signal received. Exiting.''
                                           (s3\<lparr>now := max (now s3) c\<rparr>),
                            manager = Some m\<rparr>)))"

section \<open>Traces and their properties\<close>

definition start :: state where
  "start = \<lparr>now = 0, step = 0, trace = []\<rparr>"

definition acts :: "state \<Rightarrow> action list" where
  "acts s = map snd (trace s)"

fun is_Ready :: "action \<Rightarrow> bool" where
  "is_Ready (Ready r) = True"
| "is_Ready a = False"

fun is_Health :: "action \<Rightarrow> bool" where
  "is_Health (Health r) = True"
| "is_Health a = False"

fun is_Dial :: "action \<Rightarrow> bool" where
  "is_Dial (DialTimeout nw ad t r) = True"
| "is_Dial a = False"

fun is_Attempt :: "action \<Rightarrow> bool" where
  "is_Attempt (Attempt r) = True"
| "is_Attempt a = False"

fun is_Write :: "action \<Rightarrow> bool" where
  "is_Write (Write p r) = True"
| "is_Write a = False"

text \<open>The network calls: dialling, writing and reading on a connection, and the SDK calls.\<close>

fun is_network :: "action \<Rightarrow> bool" where
  "is_network (DialTimeout nw ad t r) = True"
| "is_network (Write p r) = True"
| "is_network (Read r) = True"
| "is_network (NewSDK r) = True"
| "is_network (Ready r) = True"
| "is_network (Health r) = True"
| "is_network a = False"

text \<open>
  The ready signal is sent at most once, and only after a successful attempt: wherever the
  trace is cut at a \<open>Ready\<close> action, the part before the cut holds \<open>Attempt None\<close>.
\<close>

definition ready_once_after_success :: "action list \<Rightarrow> bool" where
  "ready_once_after_success tr \<longleftrightarrow>
     length (filter is_Ready tr) \<le> 1 \<and>
     (\<forall>pre a post. tr = pre @ a # post \<and> is_Ready a \<longrightarrow> Attempt None \<in> set pre)"

text \<open>
  A health signal is sent only after a ready signal that returned \<open>nil\<close>, and never in a
  trace whose ready signal returned an error.
\<close>

definition health_after_ready :: "action list \<Rightarrow> bool" where
  "health_after_ready tr \<longleftrightarrow>
     (\<forall>pre a post. tr = pre @ a # post \<and> is_Health a \<longrightarrow> Ready None \<in> set pre) \<and>
     ((\<exists>e. Ready (Some e) \<in> set tr) \<longrightarrow> (\<forall>a\<in>set tr. \<not> is_Health a))"

text \<open>
  After the cancellation branch of a \<open>select\<close> there is no network call.
\<close>

definition quiet_after_done :: "action list \<Rightarrow> bool" where
  "quiet_after_done tr \<longleftrightarrow>
     (\<forall>pre post. tr = pre @ RecvDone # post \<longrightarrow> (\<forall>a\<in>set post. \<not> is_network a))"

text \<open>
  The timed properties: no dial, no outcome of an attempt and no ready signal is stamped
  before \<open>T\<close>; every health signal is stamped at least \<open>HI\<close> after the ready signal.
\<close>

definition ready_not_before :: "int \<Rightarrow> (int \<times> action) list \<Rightarrow> bool" where
  "ready_not_before T tr \<longleftrightarrow>
     (\<forall>x\<in>set tr. is_Dial (snd x) \<or> is_Attempt (snd x) \<or> is_Ready (snd x) \<longrightarrow> T \<le> fst x)"

definition health_spaced :: "duration \<Rightarrow> (int \<times> action) list \<Rightarrow> bool" where
  "health_spaced HI tr \<longleftrightarrow>
     (\<forall>x\<in>set tr. \<forall>y\<in>set tr. is_Ready (snd x) \<and> is_Health (snd y) \<longrightarrow> fst x + HI \<le> fst y)"

text \<open>
  The two ways a readiness loop returns: \<open>nil\<close>, with a successful attempt in the trace,
  or \<open>context.Canceled\<close>, with the context cancelled and the cancellation branch as the
  last action. \<open>None\<close> is a loop that is still running.
\<close>

definition success_or_cancel :: "world \<Rightarrow> error option outcome option \<times> state \<Rightarrow> bool" where
  "success_or_cancel w run \<longleftrightarrow>
     (case fst run of
        None \<Rightarrow> True
      | Some r \<Rightarrow>
          r = Returned None \<and> Attempt None \<in> set (acts (snd run)) \<or>
          r = Returned (Some Canceled) \<and> (\<exists>c. cancel_at w = Some c \<and> c \<le> now (snd run))
            \<and> acts (snd run) \<noteq> [] \<and> last (acts (snd run)) = RecvDone)"

text \<open>A loop that is still running after \<open>n\<close> iterations, each with a failed attempt.\<close>

definition still_retrying :: "nat \<Rightarrow> error option outcome option \<times> state \<Rightarrow> bool" where
  "still_retrying n run \<longleftrightarrow>
     fst run = None \<and> length (filter is_Attempt (acts (snd run))) = n
     \<and> Attempt None \<notin> set (acts (snd run))"

text \<open>
  A heartbeat phase: the run either is still going on or has returned \<open>ret\<close> after the
  cancellation branch, in a world where the context is cancelled; without cancellation it
  is still going on after \<open>n\<close> iterations and has sent \<open>n\<close> health signals, whatever they
  returned.
\<close>

definition heartbeat_until_cancel :: "world \<Rightarrow> nat \<Rightarrow> 'a \<Rightarrow> 'a outcome option \<times> state \<Rightarrow> bool" where
  "heartbeat_until_cancel w n ret run \<longleftrightarrow>
     (fst run = None \<or>
      fst run = Some (Returned ret) \<and> RecvDone \<in> set (acts (snd run)) \<and> (\<exists>c. cancel_at w = Some c)) \<and>
     (cancel_at w = None \<longrightarrow>
        fst run = None \<and> length (filter is_Health (acts (snd run))) = n)"

section \<open>Example worlds\<close>

text \<open>
  The worlds and configurations on which the theorems are exercised. Every interaction
  takes 1000 nanoseconds.
\<close>

definition demo_world :: world where
  "demo_world =
     \<lparr>cancel_at = Some (20 * Second), pick_tick = (\<lambda>k. False),
      reply = (\<lambda>k. (1000, if k = 1 then Some (NetError ''connection refused'') else None)),
      unicode_ToLower = (\<lambda>s. s)\<rparr>"

definition demo_agones :: AgonesConfig where
  "demo_agones =
     \<lparr>AgonesConfig.InitialDelay = 3 * Second, AgonesConfig.HealthInterval = 5 * Second,
      PingHost = ''127.0.0.1'', PingPort = ''25565'', PingProtocol = ''tcp'',
      PingTimeout = 5 * Second\<rparr>"

definition demo_config :: Config where
  "demo_config =
     \<lparr>InitialDelay = 3 * Second, HealthInterval = 5 * Second,
      Ping = \<lparr>Host = ''127.0.0.1'', Port = ''7777'', Protocol = ''tcp'', Timeout = 5 * Second\<rparr>\<rparr>"

definition udp_agones :: AgonesConfig where
  "udp_agones = demo_agones\<lparr>PingProtocol := ''UDP''\<rparr>"

definition tcp4_ping :: PingConfig where
  "tcp4_ping = \<lparr>Host = ''127.0.0.1'', Port = ''7777'', Protocol = ''TCP4'', Timeout = 5 * Second\<rparr>"

definition open_world :: world where
  "open_world = \<lparr>cancel_at = None, pick_tick = (\<lambda>k. False), reply = (\<lambda>k. (1000, None)),
      unicode_ToLower = (\<lambda>s. s)\<rparr>"

definition refusing_world :: world where
  "refusing_world =
     \<lparr>cancel_at = None, pick_tick = (\<lambda>k. False),
      reply = (\<lambda>k. (1000, Some (NetError ''connection refused''))),
      unicode_ToLower = (\<lambda>s. s)\<rparr>"

definition failing_health_world :: world where
  "failing_health_world =
     \<lparr>cancel_at = None, pick_tick = (\<lambda>k. False),
      reply = (\<lambda>k. (1000, if 3 \<le> k then Some (NetError ''unavailable'') else None)),
      unicode_ToLower = (\<lambda>s. s)\<rparr>"

definition ready_refused_world :: world where
  "ready_refused_world =
     \<lparr>cancel_at = Some (20 * Second), pick_tick = (\<lambda>k. False),
      reply = (\<lambda>k. (1000, if k = 2 then Some (NetError ''rpc error'') else None)),
      unicode_ToLower = (\<lambda>s. s)\<rparr>"

definition ready_fails_world :: world where
  "ready_fails_world =
     \<lparr>cancel_at = Some (20 * Second), pick_tick = (\<lambda>k. False),
      reply = (\<lambda>k. (1000, if k = 3 then Some (NetError ''rpc error'') else None)),
      unicode_ToLower = (\<lambda>s. s)\<rparr>"

definition early_cancel_world :: world where
  "early_cancel_world =
     \<lparr>cancel_at = Some (1 * Second), pick_tick = (\<lambda>k. False), reply = (\<lambda>k. (1000, None)),
      unicode_ToLower = (\<lambda>s. s)\<rparr>"

definition cancel_during_dial_world :: world where
  "cancel_during_dial_world =
     \<lparr>cancel_at = Some 5000000500, pick_tick = (\<lambda>k. False), reply = (\<lambda>k. (1000, None)),
      unicode_ToLower = (\<lambda>s. s)\<rparr>"

definition racing_world :: world where
  "racing_world =
     \<lparr>cancel_at = Some 2000002500, pick_tick = (\<lambda>k. True), reply = (\<lambda>k. (1000, None)),
      unicode_ToLower = (\<lambda>s. s)\<rparr>"

definition racing_agones :: AgonesConfig where
  "racing_agones =
     \<lparr>AgonesConfig.InitialDelay = 0, AgonesConfig.HealthInterval = 5,
      PingHost = ''127.0.0.1'', PingPort = ''25565'', PingProtocol = ''tcp'',
      PingTimeout = 5 * Second\<rparr>"

section \<open>The common skeleton of the loops\<close>

text \<open>
  The three readiness loops differ in the probe attempt and in what they log; the two
  heartbeat loops differ in what they log and in the value they return. The skeletons
  below take these as parameters. Each loop of the source is shown equal to an instance
  of its skeleton, and the facts about the loops are proved once, on the skeleton.
\<close>

fun retry_loop ::
  "(world \<Rightarrow> state \<Rightarrow> error option \<times> state) \<Rightarrow> (state \<Rightarrow> state) \<Rightarrow> (state \<Rightarrow> state) \<Rightarrow>
   nat \<Rightarrow> world \<Rightarrow> ticker \<Rightarrow> state \<Rightarrow> error option outcome option \<times> state" where
  "retry_loop attempt on_ok on_fail 0 w tk s = (None, s)"
| "retry_loop attempt on_ok on_fail (Suc n) w tk s =
     (case select w tk s of
        (b, tk1, s1) \<Rightarrow>
          (case b of
             DoneBranch \<Rightarrow> (Some (Returned (Some Canceled)), s1)
           | TickBranch \<Rightarrow>
               (case attempt w s1 of
                  (err, s2) \<Rightarrow>
                    (case err of
                       None \<Rightarrow> (Some (Returned None), on_ok (emit (Attempt None) s2))
                     | Some e \<Rightarrow>
                         retry_loop attempt on_ok on_fail n w tk1
                           (on_fail (emit (Attempt (Some e)) s2))))))"

fun beat_loop ::
  "(error option \<Rightarrow> state \<Rightarrow> state) \<Rightarrow> (state \<Rightarrow> state) \<Rightarrow> 'a \<Rightarrow>
   nat \<Rightarrow> world \<Rightarrow> ticker \<Rightarrow> state \<Rightarrow> 'a outcome option \<times> state" where
  "beat_loop after fin ret 0 w tk s = (None, s)"
| "beat_loop after fin ret (Suc n) w tk s =
     (case select w tk s of
        (b, tk1, s1) \<Rightarrow>
          (case b of
             TickBranch \<Rightarrow>
               (case sdk_Health w s1 of
                  (err, s2) \<Rightarrow> beat_loop after fin ret n w tk1 (after err s2))
           | DoneBranch \<Rightarrow> (Some (Returned ret), fin s1)))"

text \<open>
  \<open>RunManager\<close> and \<open>runMonitor\<close> from the readiness probe on: they differ in the probe,
  in what they log and in what they return.
\<close>

definition run_skeleton ::
  "(world \<Rightarrow> nat \<Rightarrow> state \<Rightarrow> error option outcome option \<times> state) \<Rightarrow>
   (error \<Rightarrow> 'a) \<Rightarrow> (state \<Rightarrow> state) \<Rightarrow> (error \<Rightarrow> 'a) \<Rightarrow> (state \<Rightarrow> state) \<Rightarrow>
   (error option \<Rightarrow> state \<Rightarrow> state) \<Rightarrow> (state \<Rightarrow> state) \<Rightarrow> 'a \<Rightarrow> duration \<Rightarrow>
   world \<Rightarrow> nat \<Rightarrow> state \<Rightarrow> 'a outcome option \<times> state" where
  "run_skeleton probe ret_probe on_probe ret_ready on_ready after fin ret HI w n s =
     (case probe w n s of
        (None, s5) \<Rightarrow> (None, s5)
      | (Some (Panicked m), s5) \<Rightarrow> (Some (Panicked m), s5)
      | (Some (Returned (Some e)), s5) \<Rightarrow> (Some (Returned (ret_probe e)), on_probe s5)
      | (Some (Returned None), s5) \<Rightarrow>
          (case sdk_Ready w s5 of
             (Some e, s6) \<Rightarrow> (Some (Returned (ret_ready e)), on_ready s6)
           | (None, s6) \<Rightarrow>
               (let s7 = slog LevelInfo ''>>> Server is Ready! Starting health checks. <<<'' s6
                in case NewTicker HI s7 of
                     None \<Rightarrow> (Some (Panicked ''non-positive interval for NewTicker''), s7)
                   | Some tk \<Rightarrow> beat_loop after fin ret n w tk s7)))"

definition before_probe :: "AgonesConfig \<Rightarrow> state \<Rightarrow> state" where
  "before_probe cfg s0 =
     slog LevelInfo ''Starting readiness probe...''
       (time_Sleep (AgonesConfig.InitialDelay cfg)
          (slog LevelInfo ''Waiting for initial delay before probing''
             (slog LevelInfo ''Starting Agones manager...'' s0)))"

definition before_probe_monitor :: "Config \<Rightarrow> state \<Rightarrow> state" where
  "before_probe_monitor cfg s1 =
     slog LevelInfo ''Starting readiness probe...''
       (time_Sleep (Config.InitialDelay cfg)
          (slog LevelInfo ''Waiting for initial delay''
             (slog LevelInfo ''Successfully connected to Agones SDK'' s1)))"

section \<open>The shape of a trace\<close>

text \<open>
  The actions of the readiness phase, of the heartbeat phase, of one probe attempt and of
  the setup before the readiness phase.
\<close>

fun is_probe_act :: "action \<Rightarrow> bool" where
  "is_probe_act (Log l m) = True"
| "is_probe_act RecvTick = True"
| "is_probe_act (DialTimeout nw ad t r) = True"
| "is_probe_act (Write p r) = True"
| "is_probe_act (SetReadDeadline t) = True"
| "is_probe_act (Read r) = True"
| "is_probe_act Close = True"
| "is_probe_act (Attempt r) = True"
| "is_probe_act a = False"

fun is_beat_act :: "action \<Rightarrow> bool" where
  "is_beat_act (Log l m) = True"
| "is_beat_act RecvTick = True"
| "is_beat_act (Health r) = True"
| "is_beat_act a = False"

fun is_Log :: "action \<Rightarrow> bool" where
  "is_Log (Log l m) = True"
| "is_Log a = False"

fun is_io :: "action \<Rightarrow> bool" where
  "is_io (Log l m) = True"
| "is_io (DialTimeout nw ad t r) = True"
| "is_io (Write p r) = True"
| "is_io (SetReadDeadline t) = True"
| "is_io (Read r) = True"
| "is_io Close = True"
| "is_io a = False"

fun is_setup :: "action \<Rightarrow> bool" where
  "is_setup (Log l m) = True"
| "is_setup (Sleep d) = True"
| "is_setup (NewSDK r) = True"
| "is_setup a = False"

text \<open>
  \<open>appends Q t0 s s'\<close>: the state \<open>s'\<close> continues \<open>s\<close>; the clock has not gone back, and
  the actions added to the trace satisfy \<open>Q\<close> and are stamped \<open>t0\<close> or later, and
  not later than the clock of \<open>s'\<close>.
\<close>

definition appends :: "(action \<Rightarrow> bool) \<Rightarrow> int \<Rightarrow> state \<Rightarrow> state \<Rightarrow> bool" where
  "appends Q t0 s s' \<longleftrightarrow>
     now s \<le> now s' \<and>
     (\<exists>ev. trace s' = trace s @ ev \<and> (\<forall>x\<in>set ev. Q (snd x) \<and> t0 \<le> fst x \<and> fst x \<le> now s'))"

text \<open>
  What the skeletons need from their parameters: an attempt only adds actions of an
  attempt, the logging functions only add log entries.
\<close>

definition probe_ok :: "(world \<Rightarrow> state \<Rightarrow> error option \<times> state) \<Rightarrow> bool" where
  "probe_ok attempt \<longleftrightarrow> (\<forall>w s r s'. attempt w s = (r, s') \<longrightarrow> appends is_probe_act (now s) s s')"

definition logs_ok :: "(state \<Rightarrow> state) \<Rightarrow> bool" where
  "logs_ok f \<longleftrightarrow> (\<forall>s. appends is_probe_act (now s) s (f s))"

definition only_logs :: "(state \<Rightarrow> state) \<Rightarrow> bool" where
  "only_logs f \<longleftrightarrow> (\<forall>s. appends is_Log (now s) s (f s))"

definition io_ok :: "(world \<Rightarrow> state \<Rightarrow> error option \<times> state) \<Rightarrow> bool" where
  "io_ok attempt \<longleftrightarrow> (\<forall>w s r s'. attempt w s = (r, s') \<longrightarrow> appends is_io (now s) s s')"

text \<open>
  Segments of a trace: all actions satisfy \<open>Q\<close>; no stamp is before \<open>t\<close>; the end of a
  run that took the cancellation branch.
\<close>

definition all_acts :: "(action \<Rightarrow> bool) \<Rightarrow> (int \<times> action) list \<Rightarrow> bool" where
  "all_acts Q xs \<longleftrightarrow> (\<forall>x\<in>set xs. Q (snd x))"

definition not_before :: "int \<Rightarrow> (int \<times> action) list \<Rightarrow> bool" where
  "not_before t xs \<longleftrightarrow> (\<forall>x\<in>set xs. t \<le> fst x)"

definition done_tail :: "(int \<times> action) list \<Rightarrow> bool" where
  "done_tail D \<longleftrightarrow> D = [] \<or> (\<exists>t L. D = (t, RecvDone) # L \<and> all_acts is_Log L)"

text \<open>
  The shape of the trace of a lifecycle. Either no ready signal was sent: the trace is
  the setup, the readiness phase and possibly the cancellation. Or it was: then the
  readiness phase holds a successful attempt, and the signal is followed by the
  heartbeat phase, which is empty when the signal failed.
\<close>

definition lifecycle :: "int \<Rightarrow> duration \<Rightarrow> (int \<times> action) list \<Rightarrow> bool" where
  "lifecycle T1 HI tr \<longleftrightarrow>
     (\<exists>S F D. tr = S @ F @ D \<and> all_acts is_setup S \<and> all_acts is_probe_act F \<and> not_before T1 F
        \<and> done_tail D) \<or>
     (\<exists>S F t rr L H D. tr = S @ F @ (t, Ready rr) # L @ H @ D
        \<and> all_acts is_setup S \<and> all_acts is_probe_act F \<and> not_before T1 F
        \<and> Attempt None \<in> snd ` set F \<and> T1 \<le> t
        \<and> all_acts is_Log L \<and> all_acts is_beat_act H \<and> not_before (t + HI) H \<and> done_tail D
        \<and> (rr \<noteq> None \<longrightarrow> H = [] \<and> D = []))"

text \<open>
  What the lifecycle needs from a readiness probe with retry interval \<open>I\<close>: after some
  logging it either is still running, or has returned \<open>nil\<close> after a successful attempt,
  or has returned \<open>context.Canceled\<close> right after the cancellation branch; all its other
  actions are those of the readiness phase, stamped \<open>I\<close> after its start or later.
\<close>

definition probe_spec ::
  "duration \<Rightarrow> (world \<Rightarrow> nat \<Rightarrow> state \<Rightarrow> error option outcome option \<times> state) \<Rightarrow> bool" where
  "probe_spec I probe \<longleftrightarrow>
     (\<forall>w n s r s'. probe w n s = (r, s') \<longrightarrow>
        (\<exists>si. appends is_Log (now s) s si \<and> now si = now s \<and>
           (r = None \<or> r = Some (Returned None) \<or> r = Some (Returned (Some Canceled))) \<and>
           (r = Some (Returned None) \<longrightarrow> Attempt None \<in> snd ` set (trace s')) \<and>
           (r \<noteq> Some (Returned (Some Canceled)) \<longrightarrow> appends is_probe_act (now s + I) si s') \<and>
           (r = Some (Returned (Some Canceled)) \<longrightarrow>
              (\<exists>sm c. appends is_probe_act (now s + I) si sm \<and> now sm \<le> now s'
                 \<and> trace s' = trace sm @ [(now s', RecvDone)]
                 \<and> cancel_at w = Some c \<and> c \<le> now s'))))"

text \<open>
  The runs of a lifecycle, by the point they have reached: the result \<open>r\<close> and the trace
  \<open>tr\<close> of a run in the world \<open>w\<close>, where the readiness phase is stamped \<open>T1\<close> or later.
\<close>

definition run_cases ::
  "world \<Rightarrow> int \<Rightarrow> duration \<Rightarrow> nat \<Rightarrow> (error \<Rightarrow> 'a) \<Rightarrow> (error \<Rightarrow> 'a) \<Rightarrow> 'a \<Rightarrow>
   'a outcome option \<Rightarrow> (int \<times> action) list \<Rightarrow> bool" where
  "run_cases w T1 HI n ret_probe ret_ready ret r tr \<longleftrightarrow>
     (\<exists>S F. all_acts is_setup S \<and> all_acts is_probe_act F \<and> not_before T1 F \<and>
        (r = None \<and> tr = S @ F
         \<or> (\<exists>t L c. r = Some (Returned (ret_probe Canceled)) \<and> tr = S @ F @ (t, RecvDone) # L
              \<and> all_acts is_Log L \<and> cancel_at w = Some c \<and> c \<le> t)
         \<or> (\<exists>t e L. r = Some (Returned (ret_ready e)) \<and> tr = S @ F @ (t, Ready (Some e)) # L
              \<and> Attempt None \<in> snd ` set F \<and> T1 \<le> t \<and> all_acts is_Log L)
         \<or> (\<exists>t L H. Attempt None \<in> snd ` set F \<and> T1 \<le> t \<and> all_acts is_Log L
              \<and> all_acts is_beat_act H \<and> not_before (t + HI) H \<and>
              ((\<exists>m. r = Some (Panicked m)) \<and> HI \<le> 0 \<and> H = [] \<and> tr = S @ F @ (t, Ready None) # L
               \<or> r = None \<and> 0 < HI \<and> tr = S @ F @ (t, Ready None) # L @ H
                   \<and> (cancel_at w = None \<longrightarrow> length (filter is_Health (map snd H)) = n)
               \<or> (\<exists>td L' c. r = Some (Returned ret) \<and> 0 < HI
                    \<and> tr = S @ F @ (t, Ready None) # L @ H @ (td, RecvDone) # L'
                    \<and> all_acts is_Log L' \<and> cancel_at w = Some c \<and> c \<le> td)))))"

section \<open>Retries and interruption\<close>

text \<open>The instants at which a run has received from the channel of its ticker.\<close>

definition tick_times :: "(int \<times> action) list \<Rightarrow> int list" where
  "tick_times tr = map fst (filter (\<lambda>x. snd x = RecvTick) tr)"

text \<open>
  \<open>ticks_after I t ts\<close>: the first of the instants \<open>ts\<close> is \<open>I\<close> after \<open>t\<close> or later, the
  second \<open>2 * I\<close> after \<open>t\<close> or later, and so on.
\<close>

fun ticks_after :: "duration \<Rightarrow> int \<Rightarrow> int list \<Rightarrow> bool" where
  "ticks_after I t [] = True"
| "ticks_after I t (x # xs) = (t + I \<le> x \<and> ticks_after I (t + I) xs)"

text \<open>
  \<open>rounds msg n tr\<close>: the actions \<open>tr\<close> are exactly \<open>n\<close> failed iterations of a readiness loop,
  each of them the receipt of a tick, the dial and the other actions of the attempt, the
  failed outcome of the attempt and the warning \<open>msg\<close> in the log.
\<close>

fun failed_round :: "string \<Rightarrow> action list \<Rightarrow> action list option" where
  "failed_round msg (Attempt (Some e) # Log LevelWarn m # rest) = (if m = msg then Some rest else None)"
| "failed_round msg tr = None"

fun rounds :: "string \<Rightarrow> nat \<Rightarrow> action list \<Rightarrow> bool" where
  "rounds msg 0 tr = (tr = [])"
| "rounds msg (Suc n) [] = False"
| "rounds msg (Suc n) (a # tr) =
     (a = RecvTick \<and>
      (case failed_round msg (dropWhile is_io tr) of
         None \<Rightarrow> False
       | Some rest \<Rightarrow> rounds msg n rest))"

text \<open>
  A readiness loop with retry interval \<open>I\<close>, started at the instant 0, that is still running
  after \<open>n\<close> iterations which have all failed: after its opening log entries the trace is
  \<open>n\<close> failed rounds, and the k-th tick was received \<open>k * I\<close> after the start or later.
\<close>

definition retries_on_ticks ::
  "duration \<Rightarrow> string \<Rightarrow> nat \<Rightarrow> error option outcome option \<times> state \<Rightarrow> bool" where
  "retries_on_ticks I msg n run \<longleftrightarrow>
     fst run = None \<and>
     rounds msg n (dropWhile is_Log (acts (snd run))) \<and>
     ticks_after I 0 (tick_times (trace (snd run)))"

text \<open>No tick was received at the instant \<open>c\<close> or later.\<close>

definition ticks_before :: "int \<Rightarrow> (int \<times> action) list \<Rightarrow> bool" where
  "ticks_before c tr = list_all (\<lambda>t. t < c) (tick_times tr)"

section \<open>Facts about the runtime model\<close>

lemma appends_refl: "appends Q t0 s s"
  by (simp add: appends_def)

lemma appends_trans: "appends Q t0 s s1 \<Longrightarrow> appends Q t0 s1 s2 \<Longrightarrow> appends Q t0 s s2"
  by (fastforce simp: appends_def)

lemma appends_weaken:
  "appends Q t1 s s' \<Longrightarrow> t0 \<le> t1 \<Longrightarrow> (\<And>a. Q a \<Longrightarrow> Q' a) \<Longrightarrow> appends Q' t0 s s'"
  by (fastforce simp: appends_def)

lemma appends_emit: "Q a \<Longrightarrow> t0 \<le> now s \<Longrightarrow> appends Q t0 s (emit a s)"
  by (simp add: appends_def emit_def)

lemma appends_slog: "Q (Log l m) \<Longrightarrow> t0 \<le> now s \<Longrightarrow> appends Q t0 s (slog l m s)"
  by (simp add: slog_def appends_emit)

lemma appends_extern:
  "extern w act s = (r, s') \<Longrightarrow> Q (act r) \<Longrightarrow> t0 \<le> now s \<Longrightarrow> appends Q t0 s s'"
  by (auto simp: appends_def extern_def split: prod.splits)

lemma appends_Sleep: "Q (Sleep d) \<Longrightarrow> t0 \<le> now s \<Longrightarrow> appends Q t0 s (time_Sleep d s)"
  by (simp add: appends_def time_Sleep_def emit_def)

lemma appends_now: "appends Q t0 s s' \<Longrightarrow> now s \<le> now s'"
  by (simp add: appends_def)

lemma select_D:
  "select w tk s = (b, tk1, s1) \<Longrightarrow>
     trace s1 = trace s @ [(now s1, case b of TickBranch \<Rightarrow> RecvTick | DoneBranch \<Rightarrow> RecvDone)]
     \<and> now s \<le> now s1
     \<and> (b = TickBranch \<longrightarrow> next_tick tk \<le> now s1)
     \<and> (b = DoneBranch \<longrightarrow> (\<exists>c. cancel_at w = Some c \<and> c \<le> now s1))"
  by (auto simp: select_def Let_def wake_time_def done_ready_def split: if_splits option.splits)

lemma select_Tick_appends:
  "select w tk s = (TickBranch, tk1, s1) \<Longrightarrow> Q RecvTick \<Longrightarrow> t0 \<le> next_tick tk \<or> t0 \<le> now s
     \<Longrightarrow> appends Q t0 s s1"
  by (drule select_D) (auto simp: appends_def)

section \<open>Facts about the skeletons\<close>

lemma retry_loop_shape:
  assumes "probe_ok attempt" "logs_ok on_ok" "logs_ok on_fail"
  shows "retry_loop attempt on_ok on_fail n w tk s = (r, s') \<Longrightarrow>
     (r = None \<or> r = Some (Returned None) \<or> r = Some (Returned (Some Canceled))) \<and>
     (r = Some (Returned None) \<longrightarrow> Attempt None \<in> snd ` set (trace s')) \<and>
     (r \<noteq> Some (Returned (Some Canceled)) \<longrightarrow> appends is_probe_act (max (now s) (next_tick tk)) s s') \<and>
     (r = Some (Returned (Some Canceled)) \<longrightarrow>
        (\<exists>sm c. appends is_probe_act (max (now s) (next_tick tk)) s sm \<and> now sm \<le> now s'
           \<and> trace s' = trace sm @ [(now s', RecvDone)] \<and> cancel_at w = Some c \<and> c \<le> now s'))"
proof (induction n arbitrary: tk s)
  case 0
  then show ?case by (simp add: appends_refl)
next
  case (Suc n)
  obtain b tk1 s1 where sel: "select w tk s = (b, tk1, s1)"
    by (cases "select w tk s") auto
  note sd = select_D [OF sel]
  let ?T = "max (now s) (next_tick tk)"
  show ?case
  proof (cases b)
    case DoneBranch
    have r: "r = Some (Returned (Some Canceled))" and s': "s' = s1"
      using Suc.prems sel DoneBranch by simp_all
    have "appends is_probe_act ?T s s \<and> now s \<le> now s'
           \<and> trace s' = trace s @ [(now s', RecvDone)] \<and> (\<exists>c. cancel_at w = Some c \<and> c \<le> now s')"
      using sd DoneBranch s' by (simp add: appends_refl)
    then show ?thesis using r by blast
  next
    case TickBranch
    have T1: "?T \<le> now s1" using sd TickBranch by simp
    have a1: "appends is_probe_act ?T s s1"
      unfolding appends_def using sd TickBranch by simp
    obtain err s2 where att: "attempt w s1 = (err, s2)"
      by (cases "attempt w s1") auto
    have a12: "appends is_probe_act (now s1) s1 s2"
      using assms(1) att unfolding probe_ok_def by blast
    have T2: "?T \<le> now s2" using T1 appends_now [OF a12] by linarith
    have a2: "appends is_probe_act ?T s s2"
      by (rule appends_trans [OF a1 appends_weaken [OF a12 T1]])
    show ?thesis
    proof (cases err)
      case None
      let ?s3 = "emit (Attempt None) s2"
      have T3: "?T \<le> now ?s3" using T2 by (simp add: emit_def)
      have "appends is_probe_act ?T s2 ?s3"
        using T2 by (simp add: appends_emit)
      then have a3: "appends is_probe_act ?T s ?s3"
        by (rule appends_trans [OF a2])
      have a34: "appends is_probe_act (now ?s3) ?s3 (on_ok ?s3)"
        using assms(2) unfolding logs_ok_def by blast
      have a4: "appends is_probe_act ?T s (on_ok ?s3)"
        by (rule appends_trans [OF a3 appends_weaken [OF a34 T3]])
      have mem: "Attempt None \<in> snd ` set (trace (on_ok ?s3))"
        using a34 unfolding appends_def emit_def by force
      have r: "r = Some (Returned None)" and s': "s' = on_ok ?s3"
        using Suc.prems sel TickBranch att None by simp_all
      show ?thesis using r s' a4 mem by simp
    next
      case (Some e)
      let ?s3 = "emit (Attempt (Some e)) s2"
      let ?s4 = "on_fail ?s3"
      have T3: "?T \<le> now ?s3" using T2 by (simp add: emit_def)
      have "appends is_probe_act ?T s2 ?s3"
        using T2 by (simp add: appends_emit)
      then have a3: "appends is_probe_act ?T s ?s3"
        by (rule appends_trans [OF a2])
      have a34: "appends is_probe_act (now ?s3) ?s3 ?s4"
        using assms(3) unfolding logs_ok_def by blast
      have a4: "appends is_probe_act ?T s ?s4"
        by (rule appends_trans [OF a3 appends_weaken [OF a34 T3]])
      have T4: "?T \<le> max (now ?s4) (next_tick tk1)"
        using T3 appends_now [OF a34] by linarith
      have rec: "retry_loop attempt on_ok on_fail n w tk1 ?s4 = (r, s')"
        using Suc.prems sel TickBranch att Some by simp
      note ih = Suc.IH [OF rec]
      have w: "appends is_probe_act ?T s x"
        if "appends is_probe_act (max (now ?s4) (next_tick tk1)) ?s4 x" for x
        by (rule appends_trans [OF a4 appends_weaken [OF that T4]])
      show ?thesis
        using ih w by blast
    qed
  qed
qed

lemma is_io_probe_act: "is_io a \<Longrightarrow> is_probe_act a"
  by (cases a) simp_all

lemma is_Log_io: "is_Log a \<Longrightarrow> is_io a"
  by (cases a) simp_all

lemma is_Log_beat_act: "is_Log a \<Longrightarrow> is_beat_act a"
  by (cases a) simp_all

lemma appends_io_probe: "appends is_io t s s' \<Longrightarrow> appends is_probe_act t s s'"
  by (erule appends_weaken) (simp_all add: is_io_probe_act)

lemma appends_Log_probe: "appends is_Log t s s' \<Longrightarrow> appends is_probe_act t s s'"
  by (erule appends_weaken) (simp_all add: is_io_probe_act is_Log_io)

lemma appends_Log_beat: "appends is_Log t s s' \<Longrightarrow> appends is_beat_act t s s'"
  by (erule appends_weaken) (simp_all add: is_Log_beat_act)

lemma io_ok_probe_ok: "io_ok attempt \<Longrightarrow> probe_ok attempt"
  unfolding io_ok_def probe_ok_def by (blast intro: appends_io_probe)

lemma only_logs_logs_ok: "only_logs f \<Longrightarrow> logs_ok f"
  unfolding only_logs_def logs_ok_def by (blast intro: appends_Log_probe)

lemma only_logs_slog: "only_logs (slog l m)"
  by (simp add: only_logs_def appends_slog)

lemma only_logs_id: "only_logs (\<lambda>s. s)"
  by (simp add: only_logs_def appends_refl)

lemma io_ok_Dial: "io_ok (\<lambda>w s. net_DialTimeout w pr ad t s)"
  unfolding io_ok_def net_DialTimeout_def
  by (auto intro: appends_extern)

lemma now_emit [simp]: "now (emit a s) = now s"
  by (simp add: emit_def)

lemma now_slog [simp]: "now (slog l m s) = now s"
  by (simp add: slog_def)

lemma now_Close [simp]: "now (conn_Close s) = now s"
  by (simp add: conn_Close_def)

lemma appends_Close: "Q Close \<Longrightarrow> t0 \<le> now s \<Longrightarrow> appends Q t0 s (conn_Close s)"
  by (simp add: conn_Close_def appends_emit)

lemma appends_step:
  "appends Q t0 s s1 \<Longrightarrow> appends Q (now s1) s1 s2 \<Longrightarrow> t0 \<le> now s \<Longrightarrow> appends Q t0 s s2"
  by (fastforce simp: appends_def)

lemma ping_attempt_io: "io_ok (\<lambda>w. ping_attempt w cfg pr ad)"
  unfolding io_ok_def
proof (intro allI impI)
  fix w s r s'
  assume a: "ping_attempt w cfg pr ad s = (r, s')"
  obtain e1 s1 where d: "net_DialTimeout w pr ad (Timeout cfg) s = (e1, s1)"
    by (cases "net_DialTimeout w pr ad (Timeout cfg) s") auto
  have a1: "appends is_io (now s) s s1"
    using d unfolding net_DialTimeout_def by (auto intro: appends_extern)
  obtain e2 s2 where wr: "conn_Write w ''ping'' s1 = (e2, s2)"
    by (cases "conn_Write w ''ping'' s1") auto
  have a2: "appends is_io (now s1) s1 s2"
    using wr unfolding conn_Write_def by (auto intro: appends_extern)
  have c1: "appends is_io (now s1) s1 (conn_Close s1)" and c2: "appends is_io (now s2) s2 (conn_Close s2)"
    by (simp_all add: appends_Close)
  note a3 = appends_step [OF a1 c1 order_refl]
  note a4 = appends_step [OF a1 appends_step [OF a2 c2 order_refl] order_refl]
  show "appends is_io (now s) s s'"
    using a d wr a1 a3 a4
    by (auto simp: ping_attempt_def split: if_splits option.splits)
qed

lemma probeGameServer_loop_retry:
  "probeGameServer_loop n w cfg pr ad tk s =
     retry_loop (\<lambda>w s. net_DialTimeout w pr ad (PingTimeout cfg) s)
       (\<lambda>s. slog LevelInfo ''Readiness probe successful!'' (conn_Close s))
       (slog LevelWarn ''Readiness probe attempt failed, retrying...'') n w tk s"
  by (induction n arbitrary: tk s) (simp_all split: prod.splits branch.splits option.splits)

lemma PingProbe_Probe_loop_retry:
  "PingProbe_Probe_loop n w cfg pr ad tk s =
     retry_loop (\<lambda>w. ping_attempt w cfg pr ad)
       (slog LevelInfo ''Ping probe successful'')
       (slog LevelWarn ''Ping attempt failed, retrying...'') n w tk s"
  by (induction n arbitrary: tk s) (simp_all split: prod.splits branch.splits option.splits)

lemma PingProbe_Probe_part_000_loop_retry:
  "PingProbe_Probe_part_000_loop n w cfg pr ad tk s =
     retry_loop (\<lambda>w. ping_attempt_part_000 w cfg pr ad)
       (slog LevelInfo ''Ping probe successful'')
       (slog LevelWarn ''Ping attempt failed, retrying...'') n w tk s"
  by (induction n arbitrary: tk s) (simp_all split: prod.splits branch.splits option.splits)

lemma RunManager_loop_beat:
  "RunManager_loop n w tk s =
     beat_loop (\<lambda>err s. case err of
                           Some e \<Rightarrow> slog LevelWarn ''Failed to send health ping'' s
                         | None \<Rightarrow> slog LevelDebug ''Health ping sent successfully'' s)
       (slog LevelInfo ''Shutdown signal received. Stopping Agones manager.'') () n w tk s"
  by (induction n arbitrary: tk s) (simp_all split: prod.splits branch.splits option.splits)

lemma runMonitor_loop_beat:
  "runMonitor_loop n w tk s =
     beat_loop (\<lambda>err s. case err of
                           Some e \<Rightarrow> slog LevelWarn ''Failed to send health ping'' s
                         | None \<Rightarrow> s)
       (slog LevelInfo ''Shutdown signal received. Exiting.'') None n w tk s"
  by (induction n arbitrary: tk s) (simp_all split: prod.splits branch.splits option.splits)

lemma ping_attempt_part_000_io: "io_ok (\<lambda>w. ping_attempt_part_000 w cfg pr ad)"
  unfolding io_ok_def
proof (intro allI impI)
  fix w s r s'
  assume a: "ping_attempt_part_000 w cfg pr ad s = (r, s')"
  obtain e1 s1 where d: "net_DialTimeout w pr ad (PingTimeout cfg) s = (e1, s1)"
    by (cases "net_DialTimeout w pr ad (PingTimeout cfg) s") auto
  have a1: "appends is_io (now s) s s1"
    using d unfolding net_DialTimeout_def by (auto intro: appends_extern)
  obtain e2 s2 where wr: "conn_Write w ''ping'' s1 = (e2, s2)"
    by (cases "conn_Write w ''ping'' s1") auto
  have a2: "appends is_io (now s1) s1 s2"
    using wr unfolding conn_Write_def by (auto intro: appends_extern)
  let ?sd = "emit (SetReadDeadline (now s2 + PingTimeout cfg)) s2"
  obtain e3 s3 where rd: "conn_Read w ?sd = (e3, s3)"
    by (cases "conn_Read w ?sd") auto
  have a3: "appends is_io (now s2) s2 s3"
    using rd unfolding conn_Read_def
    by (auto intro!: appends_step [OF appends_emit appends_extern])
  have c1: "appends is_io (now s1) s1 (conn_Close s1)"
    by (simp add: appends_Close)
  have c2: "appends is_io (now s2) s2 (conn_Close (slog LevelWarn ''Failed to write to UDP connection'' s2))"
    by (auto intro!: appends_step [OF appends_slog appends_Close])
  have c3: "appends is_io (now s3) s3 (conn_Close s3)"
    by (simp add: appends_Close)
  have c4: "appends is_io (now s3) s3 (conn_Close (slog l m s3))" for l m
    by (auto intro!: appends_step [OF appends_slog appends_Close])
  note b1 = appends_step [OF a1 c1 order_refl]
  note b2 = appends_step [OF a1 appends_step [OF a2 c2 order_refl] order_refl]
  note b3 = appends_step [OF a1 appends_step [OF a2 appends_step [OF a3 c3 order_refl] order_refl] order_refl]
  note b4 = appends_step [OF a1 appends_step [OF a2 appends_step [OF a3 c4 order_refl] order_refl] order_refl]
  show "appends is_io (now s) s s'"
    using a d wr rd a1 b1 b2 b3 b4
    by (auto simp: ping_attempt_part_000_def appends_refl split: if_splits option.splits)
qed

lemma select_no_cancel: "cancel_at w = None \<Longrightarrow> fst (select w tk s) = TickBranch"
  by (simp add: select_def Let_def wake_time_def done_ready_def)

lemma beat_loop_shape:
  assumes "\<And>e. only_logs (after e)" "only_logs fin"
  shows "beat_loop after fin ret n w tk s = (r, s') \<Longrightarrow>
     (r = None \<or> r = Some (Returned ret)) \<and>
     (r = None \<longrightarrow> appends is_beat_act (max (now s) (next_tick tk)) s s') \<and>
     (r \<noteq> None \<longrightarrow>
        (\<exists>sm sd c. appends is_beat_act (max (now s) (next_tick tk)) s sm \<and> now sm \<le> now sd
           \<and> trace sd = trace sm @ [(now sd, RecvDone)] \<and> appends is_Log (now sd) sd s'
           \<and> cancel_at w = Some c \<and> c \<le> now sd))"
proof (induction n arbitrary: tk s)
  case 0
  then show ?case by (simp add: appends_refl)
next
  case (Suc n)
  obtain b tk1 s1 where sel: "select w tk s = (b, tk1, s1)"
    by (cases "select w tk s") auto
  note sd = select_D [OF sel]
  let ?T = "max (now s) (next_tick tk)"
  show ?case
  proof (cases b)
    case DoneBranch
    have r: "r = Some (Returned ret)" and s': "s' = fin s1"
      using Suc.prems sel DoneBranch by simp_all
    have "appends is_Log (now s1) s1 s'"
      using assms(2) s' unfolding only_logs_def by blast
    then have "appends is_beat_act ?T s s \<and> now s \<le> now s1
           \<and> trace s1 = trace s @ [(now s1, RecvDone)] \<and> appends is_Log (now s1) s1 s'
           \<and> (\<exists>c. cancel_at w = Some c \<and> c \<le> now s1)"
      using sd DoneBranch by (simp add: appends_refl)
    then show ?thesis using r by blast
  next
    case TickBranch
    have T1: "?T \<le> now s1" using sd TickBranch by simp
    have a1: "appends is_beat_act ?T s s1"
      unfolding appends_def using sd TickBranch by simp
    obtain err s2 where hl: "sdk_Health w s1 = (err, s2)"
      by (cases "sdk_Health w s1") auto
    have a12: "appends is_beat_act (now s1) s1 s2"
      using hl unfolding sdk_Health_def by (auto intro: appends_extern)
    have T2: "?T \<le> now s2" using T1 appends_now [OF a12] by linarith
    have a2: "appends is_beat_act ?T s s2"
      by (rule appends_trans [OF a1 appends_weaken [OF a12 T1]])
    let ?s3 = "after err s2"
    have a23: "appends is_beat_act (now s2) s2 ?s3"
      using assms(1) unfolding only_logs_def by (blast intro: appends_Log_beat)
    have a3: "appends is_beat_act ?T s ?s3"
      by (rule appends_trans [OF a2 appends_weaken [OF a23 T2]])
    have T3: "?T \<le> max (now ?s3) (next_tick tk1)"
      using T2 appends_now [OF a23] by linarith
    have rec: "beat_loop after fin ret n w tk1 ?s3 = (r, s')"
      using Suc.prems sel TickBranch hl by simp
    note ih = Suc.IH [OF rec]
    have w: "appends is_beat_act ?T s x"
      if "appends is_beat_act (max (now ?s3) (next_tick tk1)) ?s3 x" for x
      by (rule appends_trans [OF a3 appends_weaken [OF that T3]])
    show ?thesis
      using ih w by blast
  qed
qed

text \<open>Without cancellation the loops never return.\<close>

lemma retry_loop_running:
  assumes "cancel_at w = None" "\<And>s. fst (attempt w s) \<noteq> None"
  shows "fst (retry_loop attempt on_ok on_fail n w tk s) = None"
proof (induction n arbitrary: tk s)
  case 0
  show ?case by simp
next
  case (Suc n)
  obtain b tk1 s1 where sel: "select w tk s = (b, tk1, s1)"
    by (cases "select w tk s") auto
  have b: "b = TickBranch"
    using select_no_cancel [OF assms(1), of tk s] sel by simp
  obtain err s2 where att: "attempt w s1 = (err, s2)"
    by (cases "attempt w s1") auto
  obtain e where e: "err = Some e"
    using assms(2) [of s1] att by (cases err) auto
  show ?case
    using sel b att e Suc.IH by simp
qed

lemma beat_loop_running:
  assumes "cancel_at w = None"
  shows "fst (beat_loop after fin ret n w tk s) = None"
proof (induction n arbitrary: tk s)
  case 0
  show ?case by simp
next
  case (Suc n)
  obtain b tk1 s1 where sel: "select w tk s = (b, tk1, s1)"
    by (cases "select w tk s") auto
  have b: "b = TickBranch"
    using select_no_cancel [OF assms(1), of tk s] sel by simp
  show ?case
    using sel b Suc.IH by (simp split: prod.splits)
qed

lemma split_skip:
  "A @ B = pre @ a # post \<Longrightarrow> a \<notin> set A \<Longrightarrow> \<exists>v. pre = A @ v \<and> B = v @ a # post"
  by (induction A arbitrary: pre) (auto simp: Cons_eq_append_conv)

lemma split_skip_P:
  "A @ B = pre @ a # post \<Longrightarrow> P a \<Longrightarrow> \<forall>x\<in>set A. \<not> P x \<Longrightarrow> \<exists>v. pre = A @ v \<and> B = v @ a # post"
  by (rule split_skip) auto

lemma unique_mid:
  assumes "A @ x # B = pre @ a # post" "P a" "\<forall>z\<in>set A. \<not> P z" "\<forall>z\<in>set B. \<not> P z"
  shows "pre = A"
proof -
  from split_skip_P [OF assms(1,2,3)] obtain v where v: "pre = A @ v" "x # B = v @ a # post"
    by blast
  have "v = []"
  proof (cases v)
    case (Cons y ys)
    then have "a \<in> set B" using v(2) by auto
    then show ?thesis using assms(2,4) by blast
  qed simp
  then show ?thesis using v(1) by simp
qed

lemma all_acts_free:
  "all_acts Q xs \<Longrightarrow> (\<And>a. Q a \<Longrightarrow> \<not> P a) \<Longrightarrow> \<forall>a\<in>set (map snd xs). \<not> P a"
  by (auto simp: all_acts_def)

lemma all_acts_Nil [simp]: "all_acts Q []"
  by (simp add: all_acts_def)

lemma done_tail_free:
  assumes "done_tail D" "\<not> P RecvDone" "\<And>l m. \<not> P (Log l m)"
  shows "\<forall>a\<in>set (map snd D). \<not> P a"
proof -
  have "\<not> P a" if "is_Log a" for a using that assms(3) by (cases a) simp_all
  then show ?thesis
    using assms(1,2) unfolding done_tail_def all_acts_def by fastforce
qed

lemma absent_split: "\<forall>a\<in>set xs. \<not> P a \<Longrightarrow> xs = pre @ a # post \<Longrightarrow> P a \<Longrightarrow> False"
  by auto

lemma setup_free: "is_setup a \<Longrightarrow> \<not> is_Ready a \<and> \<not> is_Health a \<and> a \<noteq> RecvDone \<and> \<not> is_Dial a"
  by (cases a) simp_all

lemma probe_free: "is_probe_act a \<Longrightarrow> \<not> is_Ready a \<and> \<not> is_Health a \<and> a \<noteq> RecvDone"
  by (cases a) simp_all

lemma beat_free: "is_beat_act a \<Longrightarrow> \<not> is_Ready a \<and> a \<noteq> RecvDone \<and> \<not> is_Dial a"
  by (cases a) simp_all

lemma Log_free:
  "is_Log a \<Longrightarrow> \<not> is_Ready a \<and> \<not> is_Health a \<and> a \<noteq> RecvDone \<and> \<not> is_Dial a \<and> \<not> is_network a"
  by (cases a) simp_all

lemma filter_none: "\<forall>a\<in>set xs. \<not> P a \<Longrightarrow> filter P xs = []"
  by (simp add: filter_empty_conv)

lemma lifecycle_ready:
  assumes "lifecycle T1 HI tr"
  shows "ready_once_after_success (map snd tr)"
  using assms unfolding lifecycle_def
proof (elim disjE exE conjE)
  fix S F D
  assume tr: "tr = S @ F @ D" and S: "all_acts is_setup S" and F: "all_acts is_probe_act F"
    and D: "done_tail D"
  have no: "\<forall>a\<in>set (map snd tr). \<not> is_Ready a"
    using all_acts_free [OF S, of is_Ready] all_acts_free [OF F, of is_Ready]
      done_tail_free [OF D, of is_Ready]
    unfolding tr by (auto simp: setup_free probe_free)
  have "length (filter is_Ready (map snd tr)) \<le> 1"
    by (simp only: filter_none [OF no]) simp
  then show ?thesis
    unfolding ready_once_after_success_def using absent_split [OF no] by blast
next
  fix S F t rr L H D
  assume tr: "tr = S @ F @ (t, Ready rr) # L @ H @ D"
    and S: "all_acts is_setup S" and F: "all_acts is_probe_act F"
    and ok: "Attempt None \<in> snd ` set F"
    and L: "all_acts is_Log L" and H: "all_acts is_beat_act H" and D: "done_tail D"
  let ?A = "map snd (S @ F)" and ?B = "map snd (L @ H @ D)"
  have A: "\<forall>a\<in>set ?A. \<not> is_Ready a"
    using all_acts_free [OF S, of is_Ready] all_acts_free [OF F, of is_Ready]
    by (auto simp: setup_free probe_free)
  have B: "\<forall>a\<in>set ?B. \<not> is_Ready a"
    using all_acts_free [OF L, of is_Ready] all_acts_free [OF H, of is_Ready]
      done_tail_free [OF D, of is_Ready]
    by (auto simp: Log_free beat_free)
  have split: "map snd tr = ?A @ Ready rr # ?B" by (simp add: tr)
  have cnt: "length (filter is_Ready (map snd tr)) \<le> 1"
    unfolding split using filter_none [OF A] filter_none [OF B] by simp
  have pre: "Attempt None \<in> set pre" if eq: "map snd tr = pre @ a # post" and a: "is_Ready a" for pre a post
  proof -
    have "?A @ Ready rr # ?B = pre @ a # post"
      unfolding split [symmetric] by (rule eq)
    then have "pre = ?A"
      using a A B by (rule unique_mid)
    then show ?thesis using ok by auto
  qed
  show ?thesis unfolding ready_once_after_success_def using cnt pre by blast
qed

lemma lifecycle_health:
  assumes "lifecycle T1 HI tr"
  shows "health_after_ready (map snd tr)"
  using assms unfolding lifecycle_def
proof (elim disjE exE conjE)
  fix S F D
  assume tr: "tr = S @ F @ D" and S: "all_acts is_setup S" and F: "all_acts is_probe_act F"
    and D: "done_tail D"
  have nr: "\<forall>a\<in>set (map snd tr). \<not> is_Ready a"
    using all_acts_free [OF S, of is_Ready] all_acts_free [OF F, of is_Ready]
      done_tail_free [OF D, of is_Ready]
    unfolding tr by (auto simp: setup_free probe_free)
  have nh: "\<forall>a\<in>set (map snd tr). \<not> is_Health a"
    using all_acts_free [OF S, of is_Health] all_acts_free [OF F, of is_Health]
      done_tail_free [OF D, of is_Health]
    unfolding tr by (auto simp: setup_free probe_free)
  show ?thesis
    unfolding health_after_ready_def using absent_split [OF nh] nh by blast
next
  fix S F t rr L H D
  assume tr: "tr = S @ F @ (t, Ready rr) # L @ H @ D"
    and S: "all_acts is_setup S" and F: "all_acts is_probe_act F"
    and L: "all_acts is_Log L" and H: "all_acts is_beat_act H" and D: "done_tail D"
    and rr: "rr \<noteq> None \<longrightarrow> H = [] \<and> D = []"
  let ?A = "map snd (S @ F @ (t, Ready rr) # L)" and ?B = "map snd (H @ D)"
  have A: "\<forall>a\<in>set ?A. \<not> is_Health a"
    using all_acts_free [OF S, of is_Health] all_acts_free [OF F, of is_Health]
      all_acts_free [OF L, of is_Health]
    by (auto simp: setup_free probe_free Log_free)
  have Dh: "\<forall>a\<in>set (map snd D). \<not> is_Health a"
    using done_tail_free [OF D, of is_Health] by simp
  have nr: "\<forall>a\<in>set (map snd (S @ F @ L @ H @ D)). \<not> is_Ready a"
    using all_acts_free [OF S, of is_Ready] all_acts_free [OF F, of is_Ready]
      all_acts_free [OF L, of is_Ready] all_acts_free [OF H, of is_Ready]
      done_tail_free [OF D, of is_Ready]
    by (auto simp: setup_free probe_free Log_free beat_free)
  have split: "map snd tr = ?A @ ?B" by (simp add: tr)
  have pre: "Ready None \<in> set pre" if eq: "map snd tr = pre @ a # post" and a: "is_Health a" for pre a post
  proof -
    from split_skip_P [of ?A ?B pre a post is_Health] eq a A split
    obtain v where v: "pre = ?A @ v" "?B = v @ a # post" by auto
    have "a \<in> set ?B" using v(2) by simp
    then have "H \<noteq> []" using Dh a by auto
    then have "rr = None" using rr by blast
    then show ?thesis using v(1) by simp
  qed
  have none: "\<not> is_Health a" if e: "Ready (Some e) \<in> set (map snd tr)" and a: "a \<in> set (map snd tr)" for e a
  proof -
    have "Ready (Some e) \<notin> set (map snd (S @ F @ L @ H @ D))"
    proof
      assume "Ready (Some e) \<in> set (map snd (S @ F @ L @ H @ D))"
      with nr have "\<not> is_Ready (Ready (Some e))" by blast
      then show False by simp
    qed
    then have "rr = Some e" using e unfolding tr by auto
    then have "H = []" using rr by simp
    then show ?thesis using a A Dh unfolding tr by auto
  qed
  show ?thesis unfolding health_after_ready_def using pre none by blast
qed

lemma lifecycle_quiet:
  assumes "lifecycle T1 HI tr"
  shows "quiet_after_done (map snd tr)"
proof -
  have main: "quiet_after_done (map snd (A @ D))"
    if A: "\<forall>a\<in>set (map snd A). a \<noteq> RecvDone" and D: "done_tail D" for A D
    unfolding quiet_after_done_def
  proof (intro allI impI ballI)
    fix pre post a
    assume eq: "map snd (A @ D) = pre @ RecvDone # post" and a: "a \<in> set post"
    from split_skip_P [of "map snd A" "map snd D" pre RecvDone post "\<lambda>a. a = RecvDone"] eq A
    obtain v where v: "pre = map snd A @ v" "map snd D = v @ RecvDone # post" by auto
    from D v(2) obtain t L where L: "D = (t, RecvDone) # L" "all_acts is_Log L"
      unfolding done_tail_def by auto
    have "set post \<subseteq> set (map snd L)"
      using v(2) L(1) by (cases v) auto
    then show "\<not> is_network a" using a L(2) by (auto simp: all_acts_def dest: Log_free)
  qed
  from assms show ?thesis unfolding lifecycle_def
  proof (elim disjE exE conjE)
    fix S F D
    assume tr: "tr = S @ F @ D" and S: "all_acts is_setup S" and F: "all_acts is_probe_act F"
      and D: "done_tail D"
    have "\<forall>a\<in>set (map snd (S @ F)). a \<noteq> RecvDone"
      using all_acts_free [OF S, of "\<lambda>a. a = RecvDone"] all_acts_free [OF F, of "\<lambda>a. a = RecvDone"]
      by (auto simp: setup_free probe_free)
    from main [OF this D] show ?thesis by (simp add: tr)
  next
    fix S F t rr L H D
    assume tr: "tr = S @ F @ (t, Ready rr) # L @ H @ D"
      and S: "all_acts is_setup S" and F: "all_acts is_probe_act F"
      and L: "all_acts is_Log L" and H: "all_acts is_beat_act H" and D: "done_tail D"
    have "\<forall>a\<in>set (map snd (S @ F @ (t, Ready rr) # L @ H)). a \<noteq> RecvDone"
      using all_acts_free [OF S, of "\<lambda>a. a = RecvDone"] all_acts_free [OF F, of "\<lambda>a. a = RecvDone"]
        all_acts_free [OF L, of "\<lambda>a. a = RecvDone"] all_acts_free [OF H, of "\<lambda>a. a = RecvDone"]
      by (auto simp: setup_free probe_free Log_free beat_free)
    from main [OF this D] show ?thesis by (simp add: tr)
  qed
qed

lemma logs_ok_slog: "logs_ok (slog l m)"
  by (simp add: only_logs_logs_ok only_logs_slog)

lemma logs_ok_slog_Close: "logs_ok (\<lambda>s. slog l m (conn_Close s))"
  unfolding logs_ok_def
  by (auto intro!: appends_step [OF appends_Close appends_slog])

lemma Second_pos: "0 < Second"
  by (simp add: Second_def)

lemma probeGameServer_spec: "probe_spec (2 * Second) (\<lambda>w. probeGameServer w cfg)"
  unfolding probe_spec_def
proof (intro allI impI)
  fix w n s r s'
  assume run: "probeGameServer w cfg n s = (r, s')"
  let ?tk = "\<lparr>period = 2 * Second, next_tick = now s + 2 * Second\<rparr>"
  have T: "max (now s) (next_tick ?tk) = now s + 2 * Second"
    using Second_pos by simp
  have loop: "retry_loop (\<lambda>w' s. net_DialTimeout w' (ToLower w (PingProtocol cfg))
                  (JoinHostPort (PingHost cfg) (PingPort cfg)) (PingTimeout cfg) s)
       (\<lambda>s. slog LevelInfo ''Readiness probe successful!'' (conn_Close s))
       (slog LevelWarn ''Readiness probe attempt failed, retrying...'') n w ?tk s = (r, s')"
    using run Second_pos
    by (simp add: probeGameServer_def NewTicker_def Let_def probeGameServer_loop_retry)
  note sh = retry_loop_shape [OF io_ok_probe_ok [OF io_ok_Dial] logs_ok_slog_Close logs_ok_slog loop,
      unfolded T]
  show "\<exists>si. appends is_Log (now s) s si \<and> now si = now s \<and>
           (r = None \<or> r = Some (Returned None) \<or> r = Some (Returned (Some Canceled))) \<and>
           (r = Some (Returned None) \<longrightarrow> Attempt None \<in> snd ` set (trace s')) \<and>
           (r \<noteq> Some (Returned (Some Canceled)) \<longrightarrow> appends is_probe_act (now s + 2 * Second) si s') \<and>
           (r = Some (Returned (Some Canceled)) \<longrightarrow>
              (\<exists>sm c. appends is_probe_act (now s + 2 * Second) si sm \<and> now sm \<le> now s'
                 \<and> trace s' = trace sm @ [(now s', RecvDone)]
                 \<and> cancel_at w = Some c \<and> c \<le> now s'))"
    by (rule exI [of _ s]) (use sh in \<open>simp add: appends_refl\<close>)
qed

lemma retry_after_log_spec:
  assumes "\<And>w. io_ok (attempt w)"
    and "\<And>w n s. probe w n s =
      retry_loop (attempt w) (slog l1 m1) (slog l2 m2) n w
        \<lparr>period = 5 * Second, next_tick = now s + 5 * Second\<rparr> (slog l0 m0 s)"
  shows "probe_spec (5 * Second) probe"
  unfolding probe_spec_def
proof (intro allI impI)
  fix w n s r s'
  assume run: "probe w n s = (r, s')"
  let ?si = "slog l0 m0 s"
  let ?tk = "\<lparr>period = 5 * Second, next_tick = now s + 5 * Second\<rparr>"
  have T: "max (now ?si) (next_tick ?tk) = now s + 5 * Second"
    using Second_pos by simp
  have loop: "retry_loop (attempt w) (slog l1 m1) (slog l2 m2) n w ?tk ?si = (r, s')"
    using run assms(2) by simp
  note sh = retry_loop_shape [OF io_ok_probe_ok [OF assms(1)] logs_ok_slog logs_ok_slog loop,
      unfolded T]
  show "\<exists>si. appends is_Log (now s) s si \<and> now si = now s \<and>
           (r = None \<or> r = Some (Returned None) \<or> r = Some (Returned (Some Canceled))) \<and>
           (r = Some (Returned None) \<longrightarrow> Attempt None \<in> snd ` set (trace s')) \<and>
           (r \<noteq> Some (Returned (Some Canceled)) \<longrightarrow> appends is_probe_act (now s + 5 * Second) si s') \<and>
           (r = Some (Returned (Some Canceled)) \<longrightarrow>
              (\<exists>sm c. appends is_probe_act (now s + 5 * Second) si sm \<and> now sm \<le> now s'
                 \<and> trace s' = trace sm @ [(now s', RecvDone)]
                 \<and> cancel_at w = Some c \<and> c \<le> now s'))"
    by (rule exI [of _ ?si]) (use sh in \<open>simp add: appends_slog\<close>)
qed

lemma PingProbe_Probe_spec: "probe_spec (5 * Second) (PingProbe_Probe cfg)"
  by (rule retry_after_log_spec [where attempt = "\<lambda>w w'. ping_attempt w' cfg (ToLower w (Protocol cfg))
        (JoinHostPort (Host cfg) (Port cfg))", OF ping_attempt_io])
    (use Second_pos in \<open>simp add: PingProbe_Probe_def NewTicker_def Let_def PingProbe_Probe_loop_retry\<close>)

lemma PingProbe_Probe_part_000_spec: "probe_spec (5 * Second) (PingProbe_Probe_part_000 cfg)"
  by (rule retry_after_log_spec [where attempt = "\<lambda>w w'. ping_attempt_part_000 w' cfg
        (ToLower w (PingProtocol cfg)) (JoinHostPort (PingHost cfg) (PingPort cfg))",
        OF ping_attempt_part_000_io])
    (use Second_pos in \<open>simp add: PingProbe_Probe_part_000_def NewTicker_def Let_def
        PingProbe_Probe_part_000_loop_retry\<close>)

lemma appends_free:
  "appends Q t s s' \<Longrightarrow> (\<And>a. Q a \<Longrightarrow> \<not> P a) \<Longrightarrow> filter P (acts s') = filter P (acts s)"
  by (auto simp: appends_def acts_def filter_empty_conv)

lemma extern_acts: "extern w act s = (r, s') \<Longrightarrow> acts s' = acts s @ [act r]"
  by (auto simp: extern_def acts_def split: prod.splits)

lemma select_acts:
  "select w tk s = (b, tk1, s1) \<Longrightarrow>
     acts s1 = acts s @ [case b of TickBranch \<Rightarrow> RecvTick | DoneBranch \<Rightarrow> RecvDone]"
  by (drule select_D) (simp add: acts_def)

lemma beat_loop_count:
  assumes "cancel_at w = None" "\<And>e. only_logs (after e)"
  shows "length (filter is_Health (acts (snd (beat_loop after fin ret n w tk s))))
           = length (filter is_Health (acts s)) + n"
proof (induction n arbitrary: tk s)
  case 0
  show ?case by simp
next
  case (Suc n)
  obtain b tk1 s1 where sel: "select w tk s = (b, tk1, s1)"
    by (cases "select w tk s") auto
  have b: "b = TickBranch"
    using select_no_cancel [OF assms(1), of tk s] sel by simp
  obtain err s2 where hl: "sdk_Health w s1 = (err, s2)"
    by (cases "sdk_Health w s1") auto
  have "appends is_Log (now s2) s2 (after err s2)"
    using assms(2) unfolding only_logs_def by blast
  then have "filter is_Health (acts (after err s2)) = filter is_Health (acts s2)"
    by (rule appends_free) (simp add: Log_free)
  also have "\<dots> = filter is_Health (acts s) @ [Health err]"
    using select_acts [OF sel] extern_acts [OF hl [unfolded sdk_Health_def]] b by simp
  finally have "length (filter is_Health (acts (after err s2))) = length (filter is_Health (acts s)) + 1"
    by simp
  then show ?case
    using sel b hl Suc.IH [of tk1 "after err s2"] by simp
qed

lemma retry_loop_count:
  assumes "cancel_at w = None" "\<And>s. fst (attempt w s) \<noteq> None" "io_ok attempt" "only_logs on_fail"
  shows "length (filter is_Attempt (acts (snd (retry_loop attempt on_ok on_fail n w tk s))))
           = length (filter is_Attempt (acts s)) + n \<and>
         (Attempt None \<in> set (acts (snd (retry_loop attempt on_ok on_fail n w tk s)))
            \<longrightarrow> Attempt None \<in> set (acts s))"
proof (induction n arbitrary: tk s)
  case 0
  show ?case by simp
next
  case (Suc n)
  obtain b tk1 s1 where sel: "select w tk s = (b, tk1, s1)"
    by (cases "select w tk s") auto
  have b: "b = TickBranch"
    using select_no_cancel [OF assms(1), of tk s] sel by simp
  obtain err s2 where att: "attempt w s1 = (err, s2)"
    by (cases "attempt w s1") auto
  obtain e where e: "err = Some e"
    using assms(2) [of s1] att by (cases err) auto
  let ?s3 = "emit (Attempt (Some e)) s2"
  have io: "appends is_io (now s1) s1 s2"
    using assms(3) att unfolding io_ok_def by blast
  have lg: "appends is_Log (now ?s3) ?s3 (on_fail ?s3)"
    using assms(4) unfolding only_logs_def by blast
  have f1: "filter P (acts (on_fail ?s3)) = filter P (acts s) @ filter P [Attempt (Some e)]"
    if "\<And>a. is_io a \<Longrightarrow> \<not> P a" "\<not> P RecvTick" for P
  proof -
    have L: "\<not> P a" if "is_Log a" for a using that \<open>\<And>a. is_io a \<Longrightarrow> \<not> P a\<close> is_Log_io by blast
    have "filter P (acts (on_fail ?s3)) = filter P (acts ?s3)"
      by (rule appends_free [OF lg]) (rule L)
    also have "\<dots> = filter P (acts s2) @ filter P [Attempt (Some e)]"
      by (simp add: acts_def emit_def)
    also have "filter P (acts s2) = filter P (acts s1)"
      by (rule appends_free [OF io]) (rule that(1))
    also have "\<dots> = filter P (acts s)"
      using select_acts [OF sel] b that(2) by simp
    finally show ?thesis .
  qed
  have io_A: "\<not> is_Attempt a" if "is_io a" for a using that by (cases a) simp_all
  have c1: "length (filter is_Attempt (acts (on_fail ?s3))) = length (filter is_Attempt (acts s)) + 1"
    using f1 [of is_Attempt] io_A by simp
  have io_N: "\<not> (a = Attempt None)" if "is_io a" for a using that by (cases a) simp_all
  have "filter (\<lambda>a. a = Attempt None) (acts (on_fail ?s3)) = filter (\<lambda>a. a = Attempt None) (acts s)"
    using f1 [of "\<lambda>a. a = Attempt None"] io_N by simp
  moreover have "(Attempt None \<in> set xs) = (filter (\<lambda>a. a = Attempt None) xs \<noteq> [])" for xs
    by (auto simp: filter_empty_conv)
  ultimately have c2: "Attempt None \<in> set (acts (on_fail ?s3)) \<longleftrightarrow> Attempt None \<in> set (acts s)"
    by simp
  show ?case
    using sel b att e Suc.IH [of tk1 "on_fail ?s3"] c1 c2 by simp
qed

lemma appendsE:
  assumes "appends Q t s s'"
  obtains ev where "trace s' = trace s @ ev" "all_acts Q ev" "not_before t ev"
    "now s \<le> now s'" "\<forall>x\<in>set ev. fst x \<le> now s'"
  using assms unfolding appends_def all_acts_def not_before_def by blast

lemma all_acts_append [simp]: "all_acts Q (xs @ ys) \<longleftrightarrow> all_acts Q xs \<and> all_acts Q ys"
  by (auto simp: all_acts_def)

lemma all_acts_mono: "all_acts Q xs \<Longrightarrow> (\<And>a. Q a \<Longrightarrow> Q' a) \<Longrightarrow> all_acts Q' xs"
  by (auto simp: all_acts_def)

lemma not_before_mono: "not_before t xs \<Longrightarrow> t' \<le> t \<Longrightarrow> not_before t' xs"
  by (auto simp: not_before_def)

lemma is_Log_setup: "is_Log a \<Longrightarrow> is_setup a"
  by (cases a) simp_all

lemma run_cases_probing:
  "\<lbrakk>all_acts is_setup S; all_acts is_probe_act F; not_before T1 F; r = None; tr = S @ F\<rbrakk>
   \<Longrightarrow> run_cases w T1 HI n ret_probe ret_ready ret r tr"
  unfolding run_cases_def
  by (rule exI [of _ S], rule exI [of _ F]) simp

lemma run_cases_probe_cancelled:
  "\<lbrakk>all_acts is_setup S; all_acts is_probe_act F; not_before T1 F;
    r = Some (Returned (ret_probe Canceled)); tr = S @ F @ (t, RecvDone) # L; all_acts is_Log L;
    cancel_at w = Some c; c \<le> t\<rbrakk>
   \<Longrightarrow> run_cases w T1 HI n ret_probe ret_ready ret r tr"
  unfolding run_cases_def
  by (rule exI [of _ S], rule exI [of _ F]) simp

lemma run_cases_ready_failed:
  "\<lbrakk>all_acts is_setup S; all_acts is_probe_act F; not_before T1 F;
    r = Some (Returned (ret_ready e)); tr = S @ F @ (t, Ready (Some e)) # L;
    Attempt None \<in> snd ` set F; T1 \<le> t; all_acts is_Log L\<rbrakk>
   \<Longrightarrow> run_cases w T1 HI n ret_probe ret_ready ret r tr"
  unfolding run_cases_def
  apply (rule exI [of _ S], rule exI [of _ F])
  apply (intro conjI, assumption, assumption, assumption)
  apply (rule disjI2, rule disjI2, rule disjI1)
  apply (rule exI [of _ t], rule exI [of _ e], rule exI [of _ L])
  apply simp
  done

lemma run_cases_panicked:
  "\<lbrakk>all_acts is_setup S; all_acts is_probe_act F; not_before T1 F;
    Attempt None \<in> snd ` set F; T1 \<le> t; all_acts is_Log L;
    r = Some (Panicked m); HI \<le> 0; tr = S @ F @ (t, Ready None) # L\<rbrakk>
   \<Longrightarrow> run_cases w T1 HI n ret_probe ret_ready ret r tr"
  unfolding run_cases_def
  apply (rule exI [of _ S], rule exI [of _ F])
  apply (intro conjI, assumption, assumption, assumption)
  apply (rule disjI2, rule disjI2, rule disjI2)
  apply (rule exI [of _ t], rule exI [of _ L], rule exI [of _ "[]"])
  apply (simp add: all_acts_def not_before_def)
  done

lemma run_cases_beating:
  "\<lbrakk>all_acts is_setup S; all_acts is_probe_act F; not_before T1 F;
    Attempt None \<in> snd ` set F; T1 \<le> t; all_acts is_Log L;
    all_acts is_beat_act H; not_before (t + HI) H;
    r = None; 0 < HI; tr = S @ F @ (t, Ready None) # L @ H;
    cancel_at w = None \<longrightarrow> length (filter is_Health (map snd H)) = n\<rbrakk>
   \<Longrightarrow> run_cases w T1 HI n ret_probe ret_ready ret r tr"
  unfolding run_cases_def
  apply (rule exI [of _ S], rule exI [of _ F])
  apply (intro conjI, assumption, assumption, assumption)
  apply (rule disjI2, rule disjI2, rule disjI2)
  apply (rule exI [of _ t], rule exI [of _ L], rule exI [of _ H])
  apply simp
  done

lemma run_cases_beat_cancelled:
  "\<lbrakk>all_acts is_setup S; all_acts is_probe_act F; not_before T1 F;
    Attempt None \<in> snd ` set F; T1 \<le> t; all_acts is_Log L;
    all_acts is_beat_act H; not_before (t + HI) H;
    r = Some (Returned ret); 0 < HI; tr = S @ F @ (t, Ready None) # L @ H @ (td, RecvDone) # L';
    all_acts is_Log L'; cancel_at w = Some c; c \<le> td\<rbrakk>
   \<Longrightarrow> run_cases w T1 HI n ret_probe ret_ready ret r tr"
  unfolding run_cases_def
  apply (rule exI [of _ S], rule exI [of _ F])
  apply (intro conjI, assumption, assumption, assumption)
  apply (rule disjI2, rule disjI2, rule disjI2)
  apply (rule exI [of _ t], rule exI [of _ L], rule exI [of _ H])
  apply (intro conjI, assumption, assumption, assumption, assumption, assumption)
  apply (rule disjI2, rule disjI2)
  apply (rule exI [of _ td], rule exI [of _ L'], rule exI [of _ c])
  apply simp
  done

lemma run_skeleton_cases:
  assumes ps: "probe_spec I probe"
    and lo: "only_logs on_probe" "only_logs on_ready" "\<And>e. only_logs (after e)" "only_logs fin"
    and st: "all_acts is_setup (trace s)"
    and run: "run_skeleton probe ret_probe on_probe ret_ready on_ready after fin ret HI w n s = (r, s')"
  shows "run_cases w (now s + I) HI n ret_probe ret_ready ret r (trace s')"
proof -
  let ?T1 = "now s + I"
  obtain p s5 where pr: "probe w n s = (p, s5)"
    by (cases "probe w n s") auto
  from ps pr obtain si where
    si: "appends is_Log (now s) s si" "now si = now s"
    and p: "p = None \<or> p = Some (Returned None) \<or> p = Some (Returned (Some Canceled))"
    and ok: "p = Some (Returned None) \<Longrightarrow> Attempt None \<in> snd ` set (trace s5)"
    and go: "p \<noteq> Some (Returned (Some Canceled)) \<Longrightarrow> appends is_probe_act ?T1 si s5"
    and ca: "p = Some (Returned (Some Canceled)) \<Longrightarrow>
              \<exists>sm c. appends is_probe_act ?T1 si sm \<and> now sm \<le> now s5
                 \<and> trace s5 = trace sm @ [(now s5, RecvDone)] \<and> cancel_at w = Some c \<and> c \<le> now s5"
    unfolding probe_spec_def by blast
  from si(1) obtain Lg where Lg: "trace si = trace s @ Lg" "all_acts is_Log Lg"
    by (rule appendsE)
  let ?S = "trace s @ Lg"
  have S: "all_acts is_setup ?S"
    using st all_acts_mono [OF Lg(2) is_Log_setup] by simp
  from p show ?thesis
  proof (elim disjE)
    assume pn: "p = None"
    then have r: "r = None" "s' = s5" using run pr by (simp_all add: run_skeleton_def)
    from go pn obtain F where F: "trace s5 = trace si @ F" "all_acts is_probe_act F" "not_before ?T1 F"
      by (auto elim: appendsE)
    have "trace s' = ?S @ F" using r F(1) Lg(1) by simp
    with S F(2,3) r(1) show ?thesis by (rule run_cases_probing)
  next
    assume pc: "p = Some (Returned (Some Canceled))"
    then have r: "r = Some (Returned (ret_probe Canceled))" "s' = on_probe s5"
      using run pr by (simp_all add: run_skeleton_def)
    from ca [OF pc] obtain sm c where
      sm: "appends is_probe_act ?T1 si sm" "trace s5 = trace sm @ [(now s5, RecvDone)]"
        "cancel_at w = Some c" "c \<le> now s5"
      by blast
    from sm(1) obtain F where F: "trace sm = trace si @ F" "all_acts is_probe_act F" "not_before ?T1 F"
      by (rule appendsE)
    have "appends is_Log (now s5) s5 s'" using lo(1) r(2) unfolding only_logs_def by blast
    then obtain L where L: "trace s' = trace s5 @ L" "all_acts is_Log L"
      by (rule appendsE)
    have "trace s' = ?S @ F @ (now s5, RecvDone) # L"
      using L(1) sm(2) F(1) Lg(1) by simp
    with S F(2,3) r(1) show ?thesis using L(2) sm(3,4) by (rule run_cases_probe_cancelled)
  next
    assume po: "p = Some (Returned None)"
    from go po obtain F where F: "trace s5 = trace si @ F" "all_acts is_probe_act F" "not_before ?T1 F"
      "\<forall>x\<in>set F. fst x \<le> now s5"
      by (auto elim: appendsE)
    have "Attempt None \<notin> snd ` set ?S"
      using S unfolding all_acts_def by force
    then have mem: "Attempt None \<in> snd ` set F"
      using ok [OF po] F(1) Lg(1) by auto
    then have T5: "?T1 \<le> now s5"
      using F(3,4) unfolding not_before_def by force
    obtain rr s6 where rd: "sdk_Ready w s5 = (rr, s6)"
      by (cases "sdk_Ready w s5") auto
    have s6: "trace s6 = trace s5 @ [(now s5, Ready rr)]" "now s5 \<le> now s6"
      using rd by (auto simp: sdk_Ready_def extern_def split: prod.splits)
    show ?thesis
    proof (cases rr)
      case (Some e)
      then have r: "r = Some (Returned (ret_ready e))" "s' = on_ready s6"
        using run pr po rd by (simp_all add: run_skeleton_def)
      have "appends is_Log (now s6) s6 s'" using lo(2) r(2) unfolding only_logs_def by blast
      then obtain L where L: "trace s' = trace s6 @ L" "all_acts is_Log L"
        by (rule appendsE)
      have "trace s' = ?S @ F @ (now s5, Ready (Some e)) # L"
        using L(1) s6(1) F(1) Lg(1) Some by simp
      with S F(2,3) r(1) show ?thesis using mem T5 L(2) by (rule run_cases_ready_failed)
    next
      case None
      let ?s7 = "slog LevelInfo ''>>> Server is Ready! Starting health checks. <<<'' s6"
      let ?L = "[(now s6, Log LevelInfo ''>>> Server is Ready! Starting health checks. <<<'')]"
      have s7: "trace ?s7 = ?S @ F @ (now s5, Ready None) # ?L" "now ?s7 = now s6"
        using s6(1) F(1) Lg(1) None by (simp_all add: slog_def emit_def)
      have L: "all_acts is_Log ?L" by (simp add: all_acts_def)
      show ?thesis
      proof (cases "HI \<le> 0")
        case True
        then have r: "r = Some (Panicked ''non-positive interval for NewTicker'')" "s' = ?s7"
          using run pr po rd None by (simp_all add: run_skeleton_def NewTicker_def)
        have "trace s' = ?S @ F @ (now s5, Ready None) # ?L"
          using r s7(1) by simp
        with S F(2,3) mem T5 L r(1) True show ?thesis by (rule run_cases_panicked)
      next
        case False
        let ?tk = "\<lparr>period = HI, next_tick = now ?s7 + HI\<rparr>"
        have bl: "beat_loop after fin ret n w ?tk ?s7 = (r, s')"
          using run pr po rd None False by (simp add: run_skeleton_def NewTicker_def)
        have T: "max (now ?s7) (next_tick ?tk) = now s6 + HI"
          using False by simp
        note sh = beat_loop_shape [OF lo(3,4) bl, unfolded T]
        from sh have rcases: "r = None \<or> r = Some (Returned ret)" by blast
        then show ?thesis
        proof
          assume rn: "r = None"
          with sh have "appends is_beat_act (now s6 + HI) ?s7 s'" by blast
          then obtain H where H: "trace s' = trace ?s7 @ H" "all_acts is_beat_act H"
            "not_before (now s6 + HI) H"
            by (rule appendsE)
          have nb: "not_before (now s5 + HI) H"
            using not_before_mono [OF H(3)] s6(2) by simp
          have cnt: "length (filter is_Health (map snd H)) = n" if "cancel_at w = None"
          proof -
            have "length (filter is_Health (acts s')) = length (filter is_Health (acts ?s7)) + n"
              using beat_loop_count [where after = after and fin = fin and ret = ret and n = n and tk = ?tk and s = ?s7, OF that lo(3)] bl by simp
            moreover have "filter is_Health (acts ?s7) = []"
              using all_acts_free [OF S, of is_Health] all_acts_free [OF F(2), of is_Health]
              unfolding acts_def s7(1) by (simp add: filter_empty_conv setup_free probe_free)
            ultimately show ?thesis unfolding acts_def H(1) by simp
          qed
          have pos: "0 < HI" using False by simp
          have "trace s' = ?S @ F @ (now s5, Ready None) # ?L @ H"
            using H(1) s7(1) by simp
          moreover have "cancel_at w = None \<longrightarrow> length (filter is_Health (map snd H)) = n"
            using cnt by blast
          ultimately show ?thesis
            using S F(2,3) mem T5 L H(2) nb rn pos by (intro run_cases_beating)
        next
          assume rr: "r = Some (Returned ret)"
          with sh obtain sm sd c where
            sm: "appends is_beat_act (now s6 + HI) ?s7 sm" "trace sd = trace sm @ [(now sd, RecvDone)]"
              "appends is_Log (now sd) sd s'" "cancel_at w = Some c" "c \<le> now sd"
            by blast
          from sm(1) obtain H where H: "trace sm = trace ?s7 @ H" "all_acts is_beat_act H"
            "not_before (now s6 + HI) H"
            by (rule appendsE)
          from sm(3) obtain L' where L': "trace s' = trace sd @ L'" "all_acts is_Log L'"
            by (rule appendsE)
          have nb: "not_before (now s5 + HI) H"
            using not_before_mono [OF H(3)] s6(2) by simp
          have "trace s' = ?S @ F @ (now s5, Ready None) # ?L @ H @ (now sd, RecvDone) # L'"
            using L'(1) sm(2) H(1) s7(1) by simp
          moreover have pos: "0 < HI" using False by simp
          ultimately show ?thesis
            using S F(2,3) mem T5 L H(2) nb rr L'(2) sm(4,5) by (intro run_cases_beat_cancelled)
        qed
      qed
    qed
  qed
qed

lemma not_before_Nil [simp]: "not_before t []"
  by (simp add: not_before_def)

lemma done_tail_Nil [simp]: "done_tail []"
  by (simp add: done_tail_def)

lemma done_tail_Cons: "all_acts is_Log L \<Longrightarrow> done_tail ((t, RecvDone) # L)"
  by (simp add: done_tail_def)

lemma lifecycle_no_ready:
  "\<lbrakk>all_acts is_setup S; all_acts is_probe_act F; not_before T1 F; done_tail D\<rbrakk>
   \<Longrightarrow> lifecycle T1 HI (S @ F @ D)"
  unfolding lifecycle_def
  apply (rule disjI1)
  apply (rule exI [of _ S], rule exI [of _ F], rule exI [of _ D])
  apply simp
  done

lemma lifecycle_with_ready:
  "\<lbrakk>all_acts is_setup S; all_acts is_probe_act F; not_before T1 F;
    Attempt None \<in> snd ` set F; T1 \<le> t; all_acts is_Log L; all_acts is_beat_act H;
    not_before (t + HI) H; done_tail D; rr \<noteq> None \<longrightarrow> H = [] \<and> D = []\<rbrakk>
   \<Longrightarrow> lifecycle T1 HI (S @ F @ (t, Ready rr) # L @ H @ D)"
  unfolding lifecycle_def
  apply (rule disjI2)
  apply (rule exI [of _ S], rule exI [of _ F], rule exI [of _ t], rule exI [of _ rr])
  apply (rule exI [of _ L], rule exI [of _ H], rule exI [of _ D])
  apply simp
  done

lemma run_cases_lifecycle:
  assumes "run_cases w T1 HI n ret_probe ret_ready ret r tr"
  shows "lifecycle T1 HI tr"
  using assms unfolding run_cases_def
proof (elim exE conjE disjE)
  fix S F
  assume "all_acts is_setup S" "all_acts is_probe_act F" "not_before T1 F" "tr = S @ F"
  then show ?thesis using lifecycle_no_ready [of S F T1 "[]" HI] by simp
next
  fix S F t L c
  assume "all_acts is_setup S" "all_acts is_probe_act F" "not_before T1 F"
    "tr = S @ F @ (t, RecvDone) # L" "all_acts is_Log L"
  then show ?thesis using lifecycle_no_ready [of S F T1 "(t, RecvDone) # L" HI]
    by (simp add: done_tail_Cons)
next
  fix S F t e L
  assume "all_acts is_setup S" "all_acts is_probe_act F" "not_before T1 F"
    "tr = S @ F @ (t, Ready (Some e)) # L" "Attempt None \<in> snd ` set F" "T1 \<le> t"
    "all_acts is_Log L"
  then show ?thesis using lifecycle_with_ready [of S F T1 t L "[]" HI "[]" "Some e"] by simp
next
  fix S F t L m and H :: "(int \<times> action) list"
  assume "all_acts is_setup S" "all_acts is_probe_act F" "not_before T1 F"
    "Attempt None \<in> snd ` set F" "T1 \<le> t" "all_acts is_Log L" "H = []"
    "tr = S @ F @ (t, Ready None) # L"
  then show ?thesis using lifecycle_with_ready [of S F T1 t L "[]" HI "[]" None] by simp
next
  fix S F t L H
  assume "all_acts is_setup S" "all_acts is_probe_act F" "not_before T1 F"
    "Attempt None \<in> snd ` set F" "T1 \<le> t" "all_acts is_Log L"
    "all_acts is_beat_act H" "not_before (t + HI) H" "tr = S @ F @ (t, Ready None) # L @ H"
  then show ?thesis using lifecycle_with_ready [of S F T1 t L H HI "[]" None] by simp
next
  fix S F t L H td L' c
  assume "all_acts is_setup S" "all_acts is_probe_act F" "not_before T1 F"
    "Attempt None \<in> snd ` set F" "T1 \<le> t" "all_acts is_Log L"
    "all_acts is_beat_act H" "not_before (t + HI) H"
    "tr = S @ F @ (t, Ready None) # L @ H @ (td, RecvDone) # L'" "all_acts is_Log L'"
  then show ?thesis using lifecycle_with_ready [of S F T1 t L H HI "(td, RecvDone) # L'" None]
    by (simp add: done_tail_Cons)
qed

lemma lifecycle_mono:
  "lifecycle T1 HI tr \<Longrightarrow> T1' \<le> T1 \<Longrightarrow> lifecycle T1' HI tr"
  unfolding lifecycle_def
  apply (elim disjE exE conjE)
  subgoal for S F D
    apply (rule disjI1)
    apply (rule exI [of _ S], rule exI [of _ F], rule exI [of _ D])
    apply (simp add: not_before_mono)
    done
  apply (rule disjI2)
  subgoal for S F t rr L H D
    apply (rule exI [of _ S], rule exI [of _ F], rule exI [of _ t], rule exI [of _ rr])
    apply (rule exI [of _ L], rule exI [of _ H], rule exI [of _ D])
    apply (simp add: not_before_mono)
    done
  done

lemma RunManager_skeleton:
  "RunManager w cfg n s0 =
     run_skeleton (\<lambda>w. probeGameServer w cfg)
       (\<lambda>e. ()) (slog LevelError ''Readiness probe failed, game server will not be marked as Ready'')
       (\<lambda>e. ()) (slog LevelError ''Failed to send Ready signal to Agones'')
       (\<lambda>err s. case err of
                   Some e \<Rightarrow> slog LevelWarn ''Failed to send health ping'' s
                 | None \<Rightarrow> slog LevelDebug ''Health ping sent successfully'' s)
       (slog LevelInfo ''Shutdown signal received. Stopping Agones manager.'') ()
       (AgonesConfig.HealthInterval cfg) w n (before_probe cfg s0)"
  by (simp add: RunManager_def run_skeleton_def before_probe_def Let_def RunManager_loop_beat
      split: prod.splits option.splits outcome.splits)

lemma before_probe_facts:
  "now (before_probe cfg s0) = now s0 + max 0 (AgonesConfig.InitialDelay cfg)"
  "all_acts is_setup (trace s0) \<Longrightarrow> all_acts is_setup (trace (before_probe cfg s0))"
  by (simp_all add: before_probe_def slog_def emit_def time_Sleep_def all_acts_def)

lemma only_logs_health_RM:
  "only_logs (\<lambda>s. case err of
                Some e \<Rightarrow> slog LevelWarn ''Failed to send health ping'' s
              | None \<Rightarrow> slog LevelDebug ''Health ping sent successfully'' s)"
  by (cases err) (simp_all add: only_logs_slog)

lemma RunManager_cases:
  assumes "all_acts is_setup (trace s0)" "RunManager w cfg n s0 = (r, s')"
  shows "run_cases w (now s0 + max 0 (AgonesConfig.InitialDelay cfg) + 2 * Second)
           (AgonesConfig.HealthInterval cfg) n (\<lambda>e. ()) (\<lambda>e. ()) () r (trace s')"
proof -
  have "run_cases w (now (before_probe cfg s0) + 2 * Second)
           (AgonesConfig.HealthInterval cfg) n (\<lambda>e. ()) (\<lambda>e. ()) () r (trace s')"
    by (rule run_skeleton_cases [OF probeGameServer_spec only_logs_slog only_logs_slog _ only_logs_slog
          before_probe_facts(2) [OF assms(1)] assms(2) [unfolded RunManager_skeleton]])
      (rule only_logs_health_RM)
  then show ?thesis by (simp add: before_probe_facts(1))
qed

lemma runMonitor_skeleton:
  "runMonitor p cfg w n s0 =
     (case sdk_NewSDK w s0 of
        (Some e, s1) \<Rightarrow> (Some (Returned (Some (Wrapped ''could not connect to Agones SDK: '' e))), s1)
      | (None, s1) \<Rightarrow>
          run_skeleton p
            (\<lambda>e. Some (Wrapped ''readiness probe failed: '' e)) (\<lambda>s. s)
            (\<lambda>e. Some (Wrapped ''failed to send Ready signal: '' e)) (\<lambda>s. s)
            (\<lambda>err s. case err of
                        Some e \<Rightarrow> slog LevelWarn ''Failed to send health ping'' s
                      | None \<Rightarrow> s)
            (slog LevelInfo ''Shutdown signal received. Exiting.'') None
            (Config.HealthInterval cfg) w n (before_probe_monitor cfg s1))"
  by (simp add: runMonitor_def run_skeleton_def before_probe_monitor_def Let_def runMonitor_loop_beat
      split: prod.splits option.splits outcome.splits)

lemma before_probe_monitor_facts:
  "now (before_probe_monitor cfg s1) = now s1 + max 0 (Config.InitialDelay cfg)"
  "all_acts is_setup (trace s1) \<Longrightarrow> all_acts is_setup (trace (before_probe_monitor cfg s1))"
  by (simp_all add: before_probe_monitor_def slog_def emit_def time_Sleep_def all_acts_def)

lemma only_logs_health_monitor:
  "only_logs (\<lambda>s. case err of
                Some e \<Rightarrow> slog LevelWarn ''Failed to send health ping'' s
              | None \<Rightarrow> s)"
  by (cases err) (simp_all add: only_logs_slog only_logs_id)

lemma NewSDK_facts:
  assumes "sdk_NewSDK w s0 = (e, s1)"
  shows "trace s1 = trace s0 @ [(now s0, NewSDK e)]" "now s0 \<le> now s1"
    "all_acts is_setup (trace s0) \<Longrightarrow> all_acts is_setup (trace s1)"
  using assms by (auto simp: sdk_NewSDK_def extern_def all_acts_def split: prod.splits)

lemma runMonitor_cases:
  assumes "probe_spec I p" "all_acts is_setup (trace s0)" "sdk_NewSDK w s0 = (None, s1)"
    "runMonitor p cfg w n s0 = (r, s')"
  shows "run_cases w (now s1 + max 0 (Config.InitialDelay cfg) + I) (Config.HealthInterval cfg) n
           (\<lambda>e. Some (Wrapped ''readiness probe failed: '' e))
           (\<lambda>e. Some (Wrapped ''failed to send Ready signal: '' e)) None r (trace s')"
proof -
  have run: "run_skeleton p
            (\<lambda>e. Some (Wrapped ''readiness probe failed: '' e)) (\<lambda>s. s)
            (\<lambda>e. Some (Wrapped ''failed to send Ready signal: '' e)) (\<lambda>s. s)
            (\<lambda>err s. case err of
                        Some e \<Rightarrow> slog LevelWarn ''Failed to send health ping'' s
                      | None \<Rightarrow> s)
            (slog LevelInfo ''Shutdown signal received. Exiting.'') None
            (Config.HealthInterval cfg) w n (before_probe_monitor cfg s1) = (r, s')"
    using assms(3,4) by (simp add: runMonitor_skeleton)
  have "run_cases w (now (before_probe_monitor cfg s1) + I) (Config.HealthInterval cfg) n
           (\<lambda>e. Some (Wrapped ''readiness probe failed: '' e))
           (\<lambda>e. Some (Wrapped ''failed to send Ready signal: '' e)) None r (trace s')"
    by (rule run_skeleton_cases [OF assms(1) only_logs_id only_logs_id _ only_logs_slog
          before_probe_monitor_facts(2) [OF NewSDK_facts(3) [OF assms(3,2)]] run])
      (rule only_logs_health_monitor)
  then show ?thesis by (simp add: before_probe_monitor_facts(1))
qed

lemma RunManager_lifecycle:
  assumes "all_acts is_setup (trace s0)"
  shows "lifecycle (now s0 + max 0 (AgonesConfig.InitialDelay cfg) + 2 * Second)
           (AgonesConfig.HealthInterval cfg) (trace (snd (RunManager w cfg n s0)))"
proof -
  obtain r s' where run: "RunManager w cfg n s0 = (r, s')"
    by (cases "RunManager w cfg n s0") auto
  show ?thesis
    using run_cases_lifecycle [OF RunManager_cases [OF assms run]] run by simp
qed

lemma runMonitor_lifecycle:
  assumes "probe_spec I p" "all_acts is_setup (trace s0)"
  shows "lifecycle (now s0 + max 0 (Config.InitialDelay cfg) + I)
           (Config.HealthInterval cfg) (trace (snd (runMonitor p cfg w n s0)))"
proof -
  obtain e s1 where sdk: "sdk_NewSDK w s0 = (e, s1)"
    by (cases "sdk_NewSDK w s0") auto
  note f = NewSDK_facts [OF sdk]
  show ?thesis
  proof (cases e)
    case (Some err)
    then have "trace (snd (runMonitor p cfg w n s0)) = trace s1 @ [] @ []"
      using sdk by (simp add: runMonitor_skeleton)
    moreover have "lifecycle (now s0 + max 0 (Config.InitialDelay cfg) + I)
           (Config.HealthInterval cfg) (trace s1 @ [] @ [])"
      by (rule lifecycle_no_ready) (simp_all add: f(3) [OF assms(2)])
    ultimately show ?thesis by simp
  next
    case None
    obtain r s' where run: "runMonitor p cfg w n s0 = (r, s')"
      by (cases "runMonitor p cfg w n s0") auto
    have "lifecycle (now s1 + max 0 (Config.InitialDelay cfg) + I)
           (Config.HealthInterval cfg) (trace s')"
      by (rule run_cases_lifecycle [OF runMonitor_cases [OF assms sdk [unfolded None] run]])
    then have "lifecycle (now s0 + max 0 (Config.InitialDelay cfg) + I)
           (Config.HealthInterval cfg) (trace s')"
      by (rule lifecycle_mono) (use f(2) in simp)
    then show ?thesis
      using run by simp
  qed
qed

lemma start_setup: "all_acts is_setup (trace start)"
  by (simp add: start_def all_acts_def)

text \<open>
  C1. In every run of \<open>RunManager\<close>, and of \<open>runMonitor\<close> with the ping probe, the ready
  signal is sent at most once, and whenever it is sent, a probe attempt has succeeded
  before: however the trace is cut at a \<open>Ready\<close> action, the part before the cut holds
  a successful attempt. Nothing is assumed about the world, in particular about the
  number of failed attempts.
\<close>

theorem C1_ready_once_after_success:
  "ready_once_after_success (acts (snd (RunManager w cfg n start))) \<and>
   ready_once_after_success (acts (snd (runMonitor (PingProbe_Probe pc) c w n start)))"
  using lifecycle_ready [OF RunManager_lifecycle [OF start_setup]]
    lifecycle_ready [OF runMonitor_lifecycle [OF PingProbe_Probe_spec start_setup]]
  by (simp add: acts_def)

theorem C1_witness:
  "(\<exists>a\<in>set (acts (snd (RunManager demo_world demo_agones 5 start))). is_Ready a) \<and>
   Attempt None \<in> set (takeWhile (\<lambda>a. \<not> is_Ready a) (acts (snd (RunManager demo_world demo_agones 5 start))))"
proof -
  let ?tr = "acts (snd (RunManager demo_world demo_agones 5 start))"
  let ?P = "\<lambda>a. \<not> is_Ready a"
  have ex: "\<exists>a\<in>set ?tr. is_Ready a"
    by code_simp
  then have ne: "dropWhile ?P ?tr \<noteq> []"
    by simp
  have "?tr = takeWhile ?P ?tr @ hd (dropWhile ?P ?tr) # tl (dropWhile ?P ?tr)"
    using ne by simp
  moreover have "is_Ready (hd (dropWhile ?P ?tr))"
    using hd_dropWhile [OF ne] by simp
  ultimately have "Attempt None \<in> set (takeWhile ?P ?tr)"
    using C1_ready_once_after_success [of demo_world demo_agones 5]
    unfolding ready_once_after_success_def by blast
  with ex show ?thesis by blast
qed

text \<open>
  C2. In every run, a health signal is sent only after a ready signal that returned
  without error: however the trace is cut at a \<open>Health\<close> action, the part before the cut
  holds \<open>Ready None\<close>. If the ready signal returned an error, the trace holds no health
  signal at all.
\<close>

theorem C2_health_only_after_ready:
  "health_after_ready (acts (snd (RunManager w cfg n start))) \<and>
   health_after_ready (acts (snd (runMonitor (PingProbe_Probe pc) c w n start)))"
  using lifecycle_health [OF RunManager_lifecycle [OF start_setup]]
    lifecycle_health [OF runMonitor_lifecycle [OF PingProbe_Probe_spec start_setup]]
  by (simp add: acts_def)

theorem C2_witness:
  "(\<exists>a\<in>set (acts (snd (RunManager demo_world demo_agones 5 start))). is_Health a) \<and>
   Ready None \<in> set (takeWhile (\<lambda>a. \<not> is_Health a) (acts (snd (RunManager demo_world demo_agones 5 start))))"
proof -
  let ?tr = "acts (snd (RunManager demo_world demo_agones 5 start))"
  let ?P = "\<lambda>a. \<not> is_Health a"
  have ex: "\<exists>a\<in>set ?tr. is_Health a"
    by code_simp
  then have ne: "dropWhile ?P ?tr \<noteq> []"
    by simp
  have "?tr = takeWhile ?P ?tr @ hd (dropWhile ?P ?tr) # tl (dropWhile ?P ?tr)"
    using ne by simp
  moreover have "is_Health (hd (dropWhile ?P ?tr))"
    using hd_dropWhile [OF ne] by simp
  ultimately have "Ready None \<in> set (takeWhile ?P ?tr)"
    using C2_health_only_after_ready [of demo_world demo_agones 5]
    unfolding health_after_ready_def by blast
  with ex show ?thesis by blast
qed

lemma setup_free2: "is_setup a \<Longrightarrow> \<not> is_Attempt a"
  by (cases a) simp_all

lemma beat_free2: "is_beat_act a \<Longrightarrow> \<not> is_Attempt a"
  by (cases a) simp_all

lemma Log_free2: "is_Log a \<Longrightarrow> \<not> is_Attempt a"
  by (cases a) simp_all

lemma all_acts_D: "all_acts Q xs \<Longrightarrow> x \<in> set xs \<Longrightarrow> Q (snd x)"
  by (simp add: all_acts_def)

lemma not_before_D: "not_before t xs \<Longrightarrow> x \<in> set xs \<Longrightarrow> t \<le> fst x"
  by (simp add: not_before_def)

lemma done_tail_D: "done_tail D \<Longrightarrow> x \<in> set D \<Longrightarrow> snd x = RecvDone \<or> is_Log (snd x)"
  by (auto simp: done_tail_def all_acts_def)

lemma lifecycle_times:
  assumes "lifecycle T1 HI tr"
  shows "ready_not_before T1 tr \<and> health_spaced HI tr"
  using assms unfolding lifecycle_def
proof (elim disjE exE conjE)
  fix S F D
  assume tr: "tr = S @ F @ D" and S: "all_acts is_setup S" and F: "all_acts is_probe_act F"
    "not_before T1 F" and D: "done_tail D"
  have 1: "T1 \<le> fst x" if "x \<in> set tr" "is_Dial (snd x) \<or> is_Attempt (snd x) \<or> is_Ready (snd x)" for x
  proof -
    have "x \<notin> set S" using all_acts_D [OF S, of x] that(2) setup_free setup_free2 by blast
    moreover have "x \<notin> set D" using done_tail_D [OF D, of x] that(2) Log_free Log_free2 by fastforce
    ultimately have "x \<in> set F" using that(1) tr by simp
    then show ?thesis by (rule not_before_D [OF F(2)])
  qed
  have 2: "\<not> is_Ready (snd x)" if xin: "x \<in> set tr" for x
  proof -
    consider "x \<in> set S" | "x \<in> set F" | "x \<in> set D" using xin tr by auto
    then show ?thesis
      using all_acts_D [OF S, of x] all_acts_D [OF F(1), of x] done_tail_D [OF D, of x]
        setup_free probe_free Log_free by cases fastforce+
  qed
  show ?thesis unfolding ready_not_before_def health_spaced_def using 1 2 by blast
next
  fix S F t rr L H D
  assume tr: "tr = S @ F @ (t, Ready rr) # L @ H @ D"
    and S: "all_acts is_setup S" and F: "all_acts is_probe_act F" "not_before T1 F"
    and t: "T1 \<le> t"
    and L: "all_acts is_Log L" and H: "all_acts is_beat_act H" "not_before (t + HI) H"
    and D: "done_tail D"
  have mem: "x \<in> set S \<or> x \<in> set F \<or> x = (t, Ready rr) \<or> x \<in> set L \<or> x \<in> set H \<or> x \<in> set D"
    if "x \<in> set tr" for x using that tr by auto
  have 1: "T1 \<le> fst x" if x: "x \<in> set tr" "is_Dial (snd x) \<or> is_Attempt (snd x) \<or> is_Ready (snd x)" for x
  proof -
    have "x \<notin> set S" using all_acts_D [OF S, of x] x(2) setup_free setup_free2 by blast
    moreover have "x \<notin> set D" using done_tail_D [OF D, of x] x(2) Log_free Log_free2 by fastforce
    moreover have "x \<notin> set L" using all_acts_D [OF L, of x] x(2) Log_free Log_free2 by blast
    moreover have "x \<notin> set H" using all_acts_D [OF H(1), of x] x(2) beat_free beat_free2 by blast
    ultimately have "x \<in> set F \<or> x = (t, Ready rr)" using mem [OF x(1)] by blast
    then show ?thesis using not_before_D [OF F(2), of x] t by auto
  qed
  have r: "x = (t, Ready rr)" if x: "x \<in> set tr" "is_Ready (snd x)" for x
  proof -
    have "x \<notin> set S" using all_acts_D [OF S, of x] x(2) setup_free by blast
    moreover have "x \<notin> set F" using all_acts_D [OF F(1), of x] x(2) probe_free by blast
    moreover have "x \<notin> set D" using done_tail_D [OF D, of x] x(2) Log_free by fastforce
    moreover have "x \<notin> set L" using all_acts_D [OF L, of x] x(2) Log_free by blast
    moreover have "x \<notin> set H" using all_acts_D [OF H(1), of x] x(2) beat_free by blast
    ultimately show ?thesis using mem [OF x(1)] by blast
  qed
  have h: "y \<in> set H" if y: "y \<in> set tr" "is_Health (snd y)" for y
  proof -
    have "y \<notin> set S" using all_acts_D [OF S, of y] y(2) setup_free by blast
    moreover have "y \<notin> set F" using all_acts_D [OF F(1), of y] y(2) probe_free by blast
    moreover have "y \<notin> set D" using done_tail_D [OF D, of y] y(2) Log_free by fastforce
    moreover have "y \<notin> set L" using all_acts_D [OF L, of y] y(2) Log_free by blast
    moreover have "y \<noteq> (t, Ready rr)" using y(2) by auto
    ultimately show ?thesis using mem [OF y(1)] by blast
  qed
  have 2: "fst x + HI \<le> fst y" if "x \<in> set tr" "y \<in> set tr" "is_Ready (snd x)" "is_Health (snd y)" for x y
    using r [OF that(1,3)] not_before_D [OF H(2) h [OF that(2,4)]] by simp
  show ?thesis unfolding ready_not_before_def health_spaced_def using 1 2 by blast
qed

lemma ready_not_before_mono: "ready_not_before T tr \<Longrightarrow> T' \<le> T \<Longrightarrow> ready_not_before T' tr"
  unfolding ready_not_before_def by fastforce

text \<open>
  C10. The tickers do not fire at once. In a run of \<open>RunManager\<close> started at instant 0,
  no dial, no outcome of an attempt and no ready signal is stamped before the initial
  delay plus the retry interval of 2 seconds (5 seconds for \<open>runMonitor\<close> with the ping
  probe), and every health signal is stamped at least one health interval after the
  ready signal.
\<close>

theorem C10_tickers_wait_one_interval:
  "ready_not_before (AgonesConfig.InitialDelay cfg + 2 * Second) (trace (snd (RunManager w cfg n start))) \<and>
   health_spaced (AgonesConfig.HealthInterval cfg) (trace (snd (RunManager w cfg n start))) \<and>
   ready_not_before (Config.InitialDelay c + 5 * Second)
     (trace (snd (runMonitor (PingProbe_Probe pc) c w n start))) \<and>
   health_spaced (Config.HealthInterval c) (trace (snd (runMonitor (PingProbe_Probe pc) c w n start)))"
proof -
  have s: "now start = 0" by (simp add: start_def)
  note a = lifecycle_times [OF RunManager_lifecycle [OF start_setup, where cfg = cfg and w = w and n = n], unfolded s]
  note b = lifecycle_times [OF runMonitor_lifecycle [OF PingProbe_Probe_spec start_setup, where cfg = c and w = w and n = n and cfg1 = pc],
      unfolded s]
  have "ready_not_before (AgonesConfig.InitialDelay cfg + 2 * Second) (trace (snd (RunManager w cfg n start)))"
    by (rule ready_not_before_mono [OF conjunct1 [OF a]]) simp
  moreover have "ready_not_before (Config.InitialDelay c + 5 * Second)
     (trace (snd (runMonitor (PingProbe_Probe pc) c w n start)))"
    by (rule ready_not_before_mono [OF conjunct1 [OF b]]) simp
  ultimately show ?thesis using a b by blast
qed

theorem C10_witness:
  "(3000000000 + 2 * Second \<le> 5000001000) \<and> (5000001000 + 5 * Second \<le> (10000002000::int)) \<and>
   (5000001000, Ready None) \<in> set (trace (snd (RunManager open_world demo_agones 2 start))) \<and>
   (10000002000, Health None) \<in> set (trace (snd (RunManager open_world demo_agones 2 start)))"
proof -
  let ?tr = "trace (snd (RunManager open_world demo_agones 2 start))"
  have r: "(5000001000, Ready None) \<in> set ?tr" by code_simp
  have h: "(10000002000, Health None) \<in> set ?tr" by code_simp
  have d: "AgonesConfig.InitialDelay demo_agones = 3000000000"
    "AgonesConfig.HealthInterval demo_agones = 5 * Second"
    by (simp_all add: demo_agones_def Second_def)
  note t = C10_tickers_wait_one_interval [where cfg = demo_agones and w = open_world and n = 2, unfolded d]
  have "3000000000 + 2 * Second \<le> fst (5000001000::int, Ready None)"
    using t r unfolding ready_not_before_def by fastforce
  moreover have "fst (5000001000::int, Ready None) + 5 * Second \<le> fst (10000002000::int, Health None)"
    using t r h unfolding health_spaced_def by fastforce
  ultimately show ?thesis using r h by simp
qed

text \<open>
  C6. With the protocol \<open>udp\<close>, \<open>probeGameServer\<close> dials and nothing else: here the dial
  succeeds and the loop returns \<open>nil\<close> without any write of the payload.
\<close>

theorem C6_probeGameServer_udp_writes_nothing:
  "fst (probeGameServer open_world udp_agones 1 start) = Some (Returned None) \<and>
   acts (snd (probeGameServer open_world udp_agones 1 start)) =
     [RecvTick, DialTimeout ''udp'' ''127.0.0.1:25565'' 5000000000 None, Attempt None, Close,
      Log LevelInfo ''Readiness probe successful!'']"
  by code_simp

text \<open>
  C7. With the protocol \<open>TCP4\<close>, which is neither \<open>tcp\<close> nor \<open>udp\<close>, the probe of probe.go
  dials and writes as it does for UDP, and returns \<open>nil\<close> when both succeed.
\<close>

theorem C7_PingProbe_other_protocol_dials:
  "fst (PingProbe_Probe tcp4_ping open_world 1 start) = Some (Returned None) \<and>
   acts (snd (PingProbe_Probe tcp4_ping open_world 1 start)) =
     [Log LevelInfo ''Starting ping probe'', RecvTick,
      DialTimeout ''tcp4'' ''127.0.0.1:7777'' 5000000000 None, Write ''ping'' None, Close,
      Attempt None, Log LevelInfo ''Ping probe successful'']"
  by code_simp

lemma probe_spec_success_or_cancel:
  assumes "probe_spec I probe"
  shows "success_or_cancel w (probe w n s)"
proof -
  obtain r s' where run: "probe w n s = (r, s')"
    by (cases "probe w n s") auto
  from assms run obtain si where
    p: "r = None \<or> r = Some (Returned None) \<or> r = Some (Returned (Some Canceled))"
    and ok: "r = Some (Returned None) \<Longrightarrow> Attempt None \<in> snd ` set (trace s')"
    and ca: "r = Some (Returned (Some Canceled)) \<Longrightarrow>
              \<exists>sm c. appends is_probe_act (now s + I) si sm \<and> now sm \<le> now s'
                 \<and> trace s' = trace sm @ [(now s', RecvDone)] \<and> cancel_at w = Some c \<and> c \<le> now s'"
    unfolding probe_spec_def by blast
  from p show ?thesis
  proof (elim disjE)
    assume "r = None"
    then show ?thesis by (simp add: success_or_cancel_def run)
  next
    assume r: "r = Some (Returned None)"
    then show ?thesis using ok [OF r] by (simp add: success_or_cancel_def run acts_def)
  next
    assume r: "r = Some (Returned (Some Canceled))"
    from ca [OF r] obtain sm :: state and c where
      "trace s' = trace sm @ [(now s', RecvDone)]" "cancel_at w = Some c" "c \<le> now s'"
      by blast
    then show ?thesis using r by (simp add: success_or_cancel_def run acts_def)
  qed
qed

lemma retry_loop_still_retrying:
  assumes "cancel_at w = None" "\<And>s. fst (attempt w s) \<noteq> None" "io_ok attempt" "only_logs on_fail"
    and "filter is_Attempt (acts s) = []"
  shows "still_retrying n (retry_loop attempt on_ok on_fail n w tk s)"
proof -
  have "Attempt None \<notin> set (acts s)"
    using assms(5) by (auto simp: filter_empty_conv)
  then show ?thesis
    unfolding still_retrying_def
    using retry_loop_running [where attempt = attempt and w = w and on_ok = on_ok
        and on_fail = on_fail and n = n and tk = tk and s = s, OF assms(1,2)]
      retry_loop_count [where attempt = attempt and w = w and on_ok = on_ok
        and on_fail = on_fail and n = n and tk = tk and s = s, OF assms(1-4)] assms(5)
    by simp
qed

lemma Dial_refused:
  assumes "\<forall>k. snd (reply w k) \<noteq> None"
  shows "fst (net_DialTimeout w pr ad t s) \<noteq> None"
proof -
  obtain d r where rp: "reply w (step s) = (d, r)"
    by (cases "reply w (step s)") auto
  have "snd (reply w (step s)) \<noteq> None" using assms by blast
  then have "r \<noteq> None" by (simp add: rp)
  then show ?thesis by (simp add: net_DialTimeout_def extern_def rp)
qed

lemma ping_attempt_refused:
  "\<forall>k. snd (reply w k) \<noteq> None \<Longrightarrow> fst (ping_attempt w cfg pr ad s) \<noteq> None"
  using Dial_refused [of w pr ad "Timeout cfg" s]
  by (auto simp: ping_attempt_def split: prod.splits option.splits)

lemma ping_attempt_part_000_refused:
  "\<forall>k. snd (reply w k) \<noteq> None \<Longrightarrow> fst (ping_attempt_part_000 w cfg pr ad s) \<noteq> None"
  using Dial_refused [of w pr ad "PingTimeout cfg" s]
  by (auto simp: ping_attempt_part_000_def split: prod.splits option.splits)

lemma probeGameServer_still_retrying:
  assumes "cancel_at w = None" "\<forall>k. snd (reply w k) \<noteq> None"
  shows "still_retrying n (probeGameServer w cfg n start)"
proof -
  have "filter is_Attempt (acts start) = []" by (simp add: start_def acts_def)
  from retry_loop_still_retrying [where attempt = "\<lambda>w' s. net_DialTimeout w' (ToLower w (PingProtocol cfg))
        (JoinHostPort (PingHost cfg) (PingPort cfg)) (PingTimeout cfg) s" and w = w,
      OF assms(1) Dial_refused [OF assms(2)] io_ok_Dial only_logs_slog this]
  show ?thesis
    using Second_pos by (simp add: probeGameServer_def NewTicker_def Let_def probeGameServer_loop_retry)
qed

lemma PingProbe_Probe_still_retrying:
  assumes "cancel_at w = None" "\<forall>k. snd (reply w k) \<noteq> None"
  shows "still_retrying n (PingProbe_Probe pc w n start)"
proof -
  have "filter is_Attempt (acts (slog LevelInfo ''Starting ping probe'' start)) = []"
    by (simp add: start_def acts_def slog_def emit_def)
  from retry_loop_still_retrying [where attempt = "\<lambda>w'. ping_attempt w' pc (ToLower w (Protocol pc))
        (JoinHostPort (Host pc) (Port pc))" and w = w,
      OF assms(1) ping_attempt_refused [OF assms(2)] ping_attempt_io only_logs_slog this]
  show ?thesis
    using Second_pos by (simp add: PingProbe_Probe_def NewTicker_def Let_def PingProbe_Probe_loop_retry)
qed

lemma PingProbe_Probe_part_000_still_retrying:
  assumes "cancel_at w = None" "\<forall>k. snd (reply w k) \<noteq> None"
  shows "still_retrying n (PingProbe_Probe_part_000 cfg w n start)"
proof -
  have "filter is_Attempt (acts (slog LevelInfo ''Starting ping probe'' start)) = []"
    by (simp add: start_def acts_def slog_def emit_def)
  from retry_loop_still_retrying [where attempt = "\<lambda>w'. ping_attempt_part_000 w' cfg
        (ToLower w (PingProtocol cfg)) (JoinHostPort (PingHost cfg) (PingPort cfg))" and w = w,
      OF assms(1) ping_attempt_part_000_refused [OF assms(2)] ping_attempt_part_000_io
      only_logs_slog this]
  show ?thesis
    using Second_pos
    by (simp add: PingProbe_Probe_part_000_def NewTicker_def Let_def PingProbe_Probe_part_000_loop_retry)
qed

lemma ticks_after_mono: "ticks_after I a ts \<Longrightarrow> b \<le> a \<Longrightarrow> ticks_after I b ts"
  by (induction ts arbitrary: a b) auto

lemma tick_times_append [simp]: "tick_times (xs @ ys) = tick_times xs @ tick_times ys"
  by (simp add: tick_times_def)

lemma tick_times_free: "\<forall>x\<in>set xs. snd x \<noteq> RecvTick \<Longrightarrow> tick_times xs = []"
  by (simp add: tick_times_def filter_empty_conv)

lemma is_io_not_tick: "is_io a \<Longrightarrow> a \<noteq> RecvTick"
  by (cases a) auto

lemma select_no_cancel_eq:
  "cancel_at w = None \<Longrightarrow>
   select w tk s =
     (TickBranch,
      tk\<lparr>next_tick := next_tick tk
           + period tk * ((max (now s) (next_tick tk) - next_tick tk) div period tk + 1)\<rparr>,
      s\<lparr>now := max (now s) (next_tick tk), step := Suc (step s),
        trace := trace s @ [(max (now s) (next_tick tk), RecvTick)]\<rparr>)"
  by (simp add: select_def Let_def wake_time_def done_ready_def)

lemma rounds_no_log: "rounds msg n tr \<Longrightarrow> dropWhile is_Log tr = tr"
  by (cases n; cases tr) auto

lemma retry_loop_rounds:
  assumes "cancel_at w = None" "\<And>s. fst (attempt w s) \<noteq> None" "io_ok attempt"
  shows "0 < period tk \<Longrightarrow>
     \<exists>ev. trace (snd (retry_loop attempt on_ok (slog LevelWarn msg) n w tk s)) = trace s @ ev
        \<and> rounds msg n (map snd ev)
        \<and> ticks_after (period tk) (next_tick tk - period tk) (tick_times ev)"
proof (induction n arbitrary: tk s)
  case 0
  show ?case by (simp add: tick_times_def)
next
  case (Suc n)
  let ?t = "max (now s) (next_tick tk)"
  let ?tk1 = "tk\<lparr>next_tick := next_tick tk + period tk * ((?t - next_tick tk) div period tk + 1)\<rparr>"
  let ?s1 = "s\<lparr>now := ?t, step := Suc (step s), trace := trace s @ [(?t, RecvTick)]\<rparr>"
  have sel: "select w tk s = (TickBranch, ?tk1, ?s1)"
    by (rule select_no_cancel_eq [OF assms(1)])
  obtain err s2 where att: "attempt w ?s1 = (err, s2)"
    by (cases "attempt w ?s1") auto
  obtain e where e: "err = Some e"
    using assms(2) [of ?s1] att by (cases err) auto
  have "appends is_io (now ?s1) ?s1 s2"
    using assms(3) att unfolding io_ok_def by blast
  then obtain io where io: "trace s2 = trace ?s1 @ io" "\<forall>x\<in>set io. is_io (snd x)"
    unfolding appends_def by blast
  let ?s3 = "slog LevelWarn msg (emit (Attempt (Some e)) s2)"
  have rec: "retry_loop attempt on_ok (slog LevelWarn msg) (Suc n) w tk s
               = retry_loop attempt on_ok (slog LevelWarn msg) n w ?tk1 ?s3"
    using sel att e by simp
  have p1: "0 < period ?tk1" using Suc.prems by simp
  from Suc.IH [OF p1, of ?s3] obtain ev where
    ev: "trace (snd (retry_loop attempt on_ok (slog LevelWarn msg) n w ?tk1 ?s3)) = trace ?s3 @ ev"
    and ro: "rounds msg n (map snd ev)"
    and ti: "ticks_after (period ?tk1) (next_tick ?tk1 - period ?tk1) (tick_times ev)"
    by blast
  let ?ev = "(?t, RecvTick) # io @ [(now s2, Attempt (Some e)), (now s2, Log LevelWarn msg)] @ ev"
  have tr: "trace (snd (retry_loop attempt on_ok (slog LevelWarn msg) (Suc n) w tk s)) = trace s @ ?ev"
    unfolding rec ev using io(1) by (simp add: slog_def emit_def)
  have dw: "dropWhile is_io (map snd io @ Attempt (Some e) # Log LevelWarn msg # map snd ev)
              = Attempt (Some e) # Log LevelWarn msg # map snd ev"
    using io(2) by (subst dropWhile_append2) auto
  have r: "rounds msg (Suc n) (map snd ?ev)"
    using ro by (simp add: dw)
  have "0 \<le> (?t - next_tick tk) div period tk"
    using Suc.prems by (simp add: pos_imp_zdiv_nonneg_iff)
  then have "0 \<le> period tk * ((?t - next_tick tk) div period tk)"
    using Suc.prems by simp
  then have le: "next_tick tk \<le> next_tick ?tk1 - period ?tk1"
    by (simp add: algebra_simps)
  have ti': "ticks_after (period tk) (next_tick tk) (tick_times ev)"
    using ticks_after_mono [OF ti le] by simp
  have "tick_times io = []"
    using io(2) is_io_not_tick by (intro tick_times_free) blast
  then have "tick_times ?ev = ?t # tick_times ev"
    by (simp add: tick_times_def)
  then have t: "ticks_after (period tk) (next_tick tk - period tk) (tick_times ?ev)"
    using ti' by simp
  show ?case using tr r t by blast
qed

lemma retry_loop_retries_on_ticks:
  assumes "cancel_at w = None" "\<And>s. fst (attempt w s) \<noteq> None" "io_ok attempt" "0 < I"
    and "tick_times (trace s) = []" "dropWhile is_Log (acts s) = []"
  shows "retries_on_ticks I msg n
           (retry_loop attempt on_ok (slog LevelWarn msg) n w \<lparr>period = I, next_tick = I\<rparr> s)"
proof -
  let ?run = "retry_loop attempt on_ok (slog LevelWarn msg) n w \<lparr>period = I, next_tick = I\<rparr> s"
  from retry_loop_rounds [OF assms(1-3), where tk = "\<lparr>period = I, next_tick = I\<rparr>" and s = s
      and on_ok = on_ok and msg = msg and n = n] assms(4)
  obtain ev where ev: "trace (snd ?run) = trace s @ ev"
    and ro: "rounds msg n (map snd ev)"
    and ti: "ticks_after I 0 (tick_times ev)"
    by auto
  have "\<forall>a\<in>set (acts s). is_Log a"
    using assms(6) by simp
  then have "dropWhile is_Log (map snd (trace s) @ map snd ev) = dropWhile is_Log (map snd ev)"
    by (intro dropWhile_append2) (auto simp: acts_def)
  then have "dropWhile is_Log (acts (snd ?run)) = dropWhile is_Log (map snd ev)"
    unfolding acts_def ev by simp
  then have "rounds msg n (dropWhile is_Log (acts (snd ?run)))"
    using ro rounds_no_log [OF ro] by simp
  moreover have "ticks_after I 0 (tick_times (trace (snd ?run)))"
    using ti assms(5) by (simp add: ev)
  moreover have "fst ?run = None"
    by (rule retry_loop_running [where attempt = attempt and w = w, OF assms(1,2)])
  ultimately show ?thesis by (simp add: retries_on_ticks_def)
qed

lemma probeGameServer_unfold:
  "probeGameServer w cfg n s =
     probeGameServer_loop n w cfg (ToLower w (PingProtocol cfg))
       (JoinHostPort (PingHost cfg) (PingPort cfg))
       \<lparr>period = 2 * Second, next_tick = now s + 2 * Second\<rparr> s"
  using Second_pos by (simp add: probeGameServer_def NewTicker_def Let_def)

lemma PingProbe_Probe_unfold:
  "PingProbe_Probe pc w n s =
     PingProbe_Probe_loop n w pc (ToLower w (Protocol pc)) (JoinHostPort (Host pc) (Port pc))
       \<lparr>period = 5 * Second, next_tick = now s + 5 * Second\<rparr>
       (slog LevelInfo ''Starting ping probe'' s)"
  using Second_pos by (simp add: PingProbe_Probe_def NewTicker_def Let_def)

lemma PingProbe_Probe_part_000_unfold:
  "PingProbe_Probe_part_000 cfg w n s =
     PingProbe_Probe_part_000_loop n w cfg (ToLower w (PingProtocol cfg))
       (JoinHostPort (PingHost cfg) (PingPort cfg))
       \<lparr>period = 5 * Second, next_tick = now s + 5 * Second\<rparr>
       (slog LevelInfo ''Starting ping probe'' s)"
  using Second_pos by (simp add: PingProbe_Probe_part_000_def NewTicker_def Let_def)

lemma probeGameServer_retries_on_ticks:
  assumes "cancel_at w = None" "\<forall>k. snd (reply w k) \<noteq> None"
  shows "retries_on_ticks (2 * Second) ''Readiness probe attempt failed, retrying...'' n
           (probeGameServer w cfg n start)"
proof -
  have s: "tick_times (trace start) = []" "dropWhile is_Log (acts start) = []" "now start = 0"
    by (simp_all add: start_def acts_def tick_times_def)
  have I: "0 < 2 * Second" using Second_pos by simp
  from retry_loop_retries_on_ticks [where attempt = "\<lambda>w' s. net_DialTimeout w' (ToLower w (PingProtocol cfg))
        (JoinHostPort (PingHost cfg) (PingPort cfg)) (PingTimeout cfg) s" and w = w,
      OF assms(1) Dial_refused [OF assms(2)] io_ok_Dial I s(1,2)]
  show ?thesis
    by (simp add: probeGameServer_unfold probeGameServer_loop_retry s(3))
qed

lemma PingProbe_Probe_retries_on_ticks:
  assumes "cancel_at w = None" "\<forall>k. snd (reply w k) \<noteq> None"
  shows "retries_on_ticks (5 * Second) ''Ping attempt failed, retrying...'' n
           (PingProbe_Probe pc w n start)"
proof -
  let ?s = "slog LevelInfo ''Starting ping probe'' start"
  have s: "tick_times (trace ?s) = []" "dropWhile is_Log (acts ?s) = []" "now start = 0"
    by (simp_all add: start_def acts_def tick_times_def slog_def emit_def)
  have I: "0 < 5 * Second" using Second_pos by simp
  from retry_loop_retries_on_ticks [where attempt = "\<lambda>w'. ping_attempt w' pc (ToLower w (Protocol pc))
        (JoinHostPort (Host pc) (Port pc))" and w = w,
      OF assms(1) ping_attempt_refused [OF assms(2)] ping_attempt_io I s(1,2)]
  show ?thesis
    by (simp add: PingProbe_Probe_unfold PingProbe_Probe_loop_retry s(3))
qed

lemma PingProbe_Probe_part_000_retries_on_ticks:
  assumes "cancel_at w = None" "\<forall>k. snd (reply w k) \<noteq> None"
  shows "retries_on_ticks (5 * Second) ''Ping attempt failed, retrying...'' n
           (PingProbe_Probe_part_000 cfg w n start)"
proof -
  let ?s = "slog LevelInfo ''Starting ping probe'' start"
  have s: "tick_times (trace ?s) = []" "dropWhile is_Log (acts ?s) = []" "now start = 0"
    by (simp_all add: start_def acts_def tick_times_def slog_def emit_def)
  have I: "0 < 5 * Second" using Second_pos by simp
  from retry_loop_retries_on_ticks [where attempt = "\<lambda>w'. ping_attempt_part_000 w' cfg
        (ToLower w (PingProtocol cfg)) (JoinHostPort (PingHost cfg) (PingPort cfg))" and w = w,
      OF assms(1) ping_attempt_part_000_refused [OF assms(2)] ping_attempt_part_000_io I s(1,2)]
  show ?thesis
    by (simp add: PingProbe_Probe_part_000_unfold PingProbe_Probe_part_000_loop_retry s(3))
qed


lemma tick_advances: "0 < p \<Longrightarrow> (t::int) < n + p * ((t - n) div p + 1)"
proof -
  assume p: "0 < p"
  have "t - n = p * ((t - n) div p) + (t - n) mod p" by simp
  moreover have "(t - n) mod p < p" using p by simp
  ultimately have "t - n < p * ((t - n) div p) + p" by linarith
  then show ?thesis by (simp add: algebra_simps)
qed

lemma select_Tick_waits:
  assumes "select w tk s = (TickBranch, tk1, s1)" "0 < period tk"
  shows "next_tick tk \<le> now s1 \<and> now s1 < next_tick tk1 \<and> period tk1 = period tk
     \<and> trace s1 = trace s @ [(now s1, RecvTick)]"
  using assms tick_advances [of "period tk" "wake_time w tk s" "next_tick tk"]
  by (auto simp: select_def Let_def split: if_splits)

text \<open>
  C8. Each of the three readiness loops returns only \<open>nil\<close>, after a successful attempt,
  or the cancellation error of the context, right after the cancellation branch: the error
  of a failed attempt is never returned. In a world without cancellation where every dial
  fails, the loop is still running after any number \<open>n\<close> of iterations, and its trace is
  \<open>n\<close> failed rounds: a tick received from the ticker, the attempt, its failed outcome and
  the warning in the log; the k-th of these ticks is received \<open>k\<close> retry intervals after
  the start or later. The three functions are their loops run with a ticker of 2 seconds
  (\<open>probeGameServer\<close>) or of 5 seconds (\<open>PingProbe.Probe\<close>). The tick branch of the \<open>select\<close>
  is taken when the tick is due and not before, and leaves the next tick in the future. An
  iteration whose attempt fails with \<open>e\<close> records the failure, logs the warning and goes
  on with the next \<open>select\<close> on the same ticker.
\<close>

theorem C8_loop_returns_success_or_cancel:
  "success_or_cancel w (probeGameServer w cfg n start) \<and>
   success_or_cancel w (PingProbe_Probe pc w n start) \<and>
   success_or_cancel w (PingProbe_Probe_part_000 cfg w n start) \<and>
   (cancel_at w = None \<and> (\<forall>k. snd (reply w k) \<noteq> None) \<longrightarrow>
      still_retrying n (probeGameServer w cfg n start) \<and>
      still_retrying n (PingProbe_Probe pc w n start) \<and>
      still_retrying n (PingProbe_Probe_part_000 cfg w n start) \<and>
      retries_on_ticks (2 * Second) ''Readiness probe attempt failed, retrying...'' n
        (probeGameServer w cfg n start) \<and>
      retries_on_ticks (5 * Second) ''Ping attempt failed, retrying...'' n
        (PingProbe_Probe pc w n start) \<and>
      retries_on_ticks (5 * Second) ''Ping attempt failed, retrying...'' n
        (PingProbe_Probe_part_000 cfg w n start)) \<and>
   probeGameServer w cfg n s =
     probeGameServer_loop n w cfg (ToLower w (PingProtocol cfg))
       (JoinHostPort (PingHost cfg) (PingPort cfg))
       \<lparr>period = 2 * Second, next_tick = now s + 2 * Second\<rparr> s \<and>
   PingProbe_Probe pc w n s =
     PingProbe_Probe_loop n w pc (ToLower w (Protocol pc)) (JoinHostPort (Host pc) (Port pc))
       \<lparr>period = 5 * Second, next_tick = now s + 5 * Second\<rparr>
       (slog LevelInfo ''Starting ping probe'' s) \<and>
   PingProbe_Probe_part_000 cfg w n s =
     PingProbe_Probe_part_000_loop n w cfg (ToLower w (PingProtocol cfg))
       (JoinHostPort (PingHost cfg) (PingPort cfg))
       \<lparr>period = 5 * Second, next_tick = now s + 5 * Second\<rparr>
       (slog LevelInfo ''Starting ping probe'' s) \<and>
   (select w tk s = (TickBranch, tk1, s1) \<and> 0 < period tk \<longrightarrow>
      next_tick tk \<le> now s1 \<and> now s1 < next_tick tk1 \<and> period tk1 = period tk
      \<and> trace s1 = trace s @ [(now s1, RecvTick)]) \<and>
   (select w tk s = (TickBranch, tk1, s1)
      \<and> net_DialTimeout w pr ad (PingTimeout cfg) s1 = (Some e, s2) \<longrightarrow>
      probeGameServer_loop (Suc k) w cfg pr ad tk s =
        probeGameServer_loop k w cfg pr ad tk1
          (slog LevelWarn ''Readiness probe attempt failed, retrying...''
             (emit (Attempt (Some e)) s2))) \<and>
   (select w tk s = (TickBranch, tk1, s1) \<and> ping_attempt w pc pr ad s1 = (Some e, s2) \<longrightarrow>
      PingProbe_Probe_loop (Suc k) w pc pr ad tk s =
        PingProbe_Probe_loop k w pc pr ad tk1
          (slog LevelWarn ''Ping attempt failed, retrying...'' (emit (Attempt (Some e)) s2))) \<and>
   (select w tk s = (TickBranch, tk1, s1) \<and> ping_attempt_part_000 w cfg pr ad s1 = (Some e, s2) \<longrightarrow>
      PingProbe_Probe_part_000_loop (Suc k) w cfg pr ad tk s =
        PingProbe_Probe_part_000_loop k w cfg pr ad tk1
          (slog LevelWarn ''Ping attempt failed, retrying...'' (emit (Attempt (Some e)) s2)))"
proof -
  have a: "success_or_cancel w (probeGameServer w cfg n start)"
    "success_or_cancel w (PingProbe_Probe pc w n start)"
    "success_or_cancel w (PingProbe_Probe_part_000 cfg w n start)"
    using probe_spec_success_or_cancel [OF probeGameServer_spec, where w = w and n = n and s = start]
      probe_spec_success_or_cancel [OF PingProbe_Probe_spec, where w = w and n = n and s = start]
      probe_spec_success_or_cancel [OF PingProbe_Probe_part_000_spec,
        where w = w and n = n and s = start]
    by blast+
  have b: "still_retrying n (probeGameServer w cfg n start)"
    "still_retrying n (PingProbe_Probe pc w n start)"
    "still_retrying n (PingProbe_Probe_part_000 cfg w n start)"
    "retries_on_ticks (2 * Second) ''Readiness probe attempt failed, retrying...'' n
        (probeGameServer w cfg n start)"
    "retries_on_ticks (5 * Second) ''Ping attempt failed, retrying...'' n
        (PingProbe_Probe pc w n start)"
    "retries_on_ticks (5 * Second) ''Ping attempt failed, retrying...'' n
        (PingProbe_Probe_part_000 cfg w n start)"
    if "cancel_at w = None" "\<forall>k. snd (reply w k) \<noteq> None"
    using that probeGameServer_still_retrying [where w = w and n = n and cfg = cfg]
      PingProbe_Probe_still_retrying [where w = w and n = n and pc = pc]
      PingProbe_Probe_part_000_still_retrying [where w = w and n = n and cfg = cfg]
      probeGameServer_retries_on_ticks [where w = w and n = n and cfg = cfg]
      PingProbe_Probe_retries_on_ticks [where w = w and n = n and pc = pc]
      PingProbe_Probe_part_000_retries_on_ticks [where w = w and n = n and cfg = cfg]
    by blast+
  have c: "select w tk s = (TickBranch, tk1, s1) \<and> 0 < period tk \<longrightarrow>
      next_tick tk \<le> now s1 \<and> now s1 < next_tick tk1 \<and> period tk1 = period tk
      \<and> trace s1 = trace s @ [(now s1, RecvTick)]"
    using select_Tick_waits [of w tk s tk1 s1] by blast
  show ?thesis
    apply (intro conjI)
    subgoal by (rule a(1))
    subgoal by (rule a(2))
    subgoal by (rule a(3))
    subgoal using b by blast
    subgoal by (rule probeGameServer_unfold)
    subgoal by (rule PingProbe_Probe_unfold)
    subgoal by (rule PingProbe_Probe_part_000_unfold)
    subgoal by (rule c)
    subgoal by simp
    subgoal by simp
    subgoal by simp
    done
qed

theorem C8_witness:
  "fst (probeGameServer demo_world demo_agones 3 start) = Some (Returned None) \<and>
   Attempt None \<in> set (acts (snd (probeGameServer demo_world demo_agones 3 start))) \<and>
   cancel_at refusing_world = None \<and> (\<forall>k. snd (reply refusing_world k) \<noteq> None) \<and>
   still_retrying 7 (probeGameServer refusing_world demo_agones 7 start) \<and>
   retries_on_ticks (2 * Second) ''Readiness probe attempt failed, retrying...'' 7
     (probeGameServer refusing_world demo_agones 7 start) \<and>
   trace (snd (probeGameServer refusing_world demo_agones 2 start)) =
     [(2000000000, RecvTick),
      (2000000000, DialTimeout ''tcp'' ''127.0.0.1:25565'' 5000000000 (Some (NetError ''connection refused''))),
      (2000001000, Attempt (Some (NetError ''connection refused''))),
      (2000001000, Log LevelWarn ''Readiness probe attempt failed, retrying...''),
      (4000000000, RecvTick),
      (4000000000, DialTimeout ''tcp'' ''127.0.0.1:25565'' 5000000000 (Some (NetError ''connection refused''))),
      (4000001000, Attempt (Some (NetError ''connection refused''))),
      (4000001000, Log LevelWarn ''Readiness probe attempt failed, retrying...'')] \<and>
   select refusing_world \<lparr>period = 2000000000, next_tick = 2000000000\<rparr> start =
     (TickBranch, \<lparr>period = 2000000000, next_tick = 4000000000\<rparr>,
      \<lparr>now = 2000000000, step = 1, trace = [(2000000000, RecvTick)]\<rparr>) \<and>
   net_DialTimeout refusing_world ''tcp'' ''127.0.0.1:25565'' (PingTimeout demo_agones)
       \<lparr>now = 2000000000, step = 1, trace = [(2000000000, RecvTick)]\<rparr> =
     (Some (NetError ''connection refused''),
      \<lparr>now = 2000001000, step = 2,
       trace = [(2000000000, RecvTick),
                (2000000000, DialTimeout ''tcp'' ''127.0.0.1:25565'' 5000000000
                               (Some (NetError ''connection refused'')))]\<rparr>) \<and>
   probeGameServer_loop (Suc 0) refusing_world demo_agones ''tcp'' ''127.0.0.1:25565''
       \<lparr>period = 2000000000, next_tick = 2000000000\<rparr> start =
     (None,
      \<lparr>now = 2000001000, step = 2,
       trace = [(2000000000, RecvTick),
                (2000000000, DialTimeout ''tcp'' ''127.0.0.1:25565'' 5000000000
                               (Some (NetError ''connection refused''))),
                (2000001000, Attempt (Some (NetError ''connection refused''))),
                (2000001000, Log LevelWarn ''Readiness probe attempt failed, retrying...'')]\<rparr>)"
proof -
  let ?tk = "\<lparr>period = 2000000000, next_tick = 2000000000\<rparr>"
  let ?tk1 = "\<lparr>period = 2000000000, next_tick = 4000000000\<rparr>"
  let ?s1 = "\<lparr>now = 2000000000, step = 1, trace = [(2000000000, RecvTick)]\<rparr>"
  let ?s2 = "\<lparr>now = 2000001000, step = 2,
       trace = [(2000000000, RecvTick),
                (2000000000, DialTimeout ''tcp'' ''127.0.0.1:25565'' 5000000000
                               (Some (NetError ''connection refused'')))]\<rparr>"
  have r: "fst (probeGameServer demo_world demo_agones 3 start) = Some (Returned None)"
    by code_simp
  have h: "cancel_at refusing_world = None \<and> (\<forall>k. snd (reply refusing_world k) \<noteq> None)"
    by (simp add: refusing_world_def)
  have t: "trace (snd (probeGameServer refusing_world demo_agones 2 start)) =
     [(2000000000, RecvTick),
      (2000000000, DialTimeout ''tcp'' ''127.0.0.1:25565'' 5000000000 (Some (NetError ''connection refused''))),
      (2000001000, Attempt (Some (NetError ''connection refused''))),
      (2000001000, Log LevelWarn ''Readiness probe attempt failed, retrying...''),
      (4000000000, RecvTick),
      (4000000000, DialTimeout ''tcp'' ''127.0.0.1:25565'' 5000000000 (Some (NetError ''connection refused''))),
      (4000001000, Attempt (Some (NetError ''connection refused''))),
      (4000001000, Log LevelWarn ''Readiness probe attempt failed, retrying...'')]"
    by code_simp
  have sel: "select refusing_world ?tk start = (TickBranch, ?tk1, ?s1)"
    by code_simp
  have dial: "net_DialTimeout refusing_world ''tcp'' ''127.0.0.1:25565'' (PingTimeout demo_agones) ?s1 =
     (Some (NetError ''connection refused''), ?s2)"
    by code_simp
  have m: "Attempt None \<in> set (acts (snd (probeGameServer demo_world demo_agones 3 start)))"
    using C8_loop_returns_success_or_cancel [where w = demo_world and cfg = demo_agones and n = 3, THEN conjunct1] r
    by (simp add: success_or_cancel_def)
  have st: "still_retrying 7 (probeGameServer refusing_world demo_agones 7 start)"
    "retries_on_ticks (2 * Second) ''Readiness probe attempt failed, retrying...'' 7
       (probeGameServer refusing_world demo_agones 7 start)"
    using C8_loop_returns_success_or_cancel [where w = refusing_world and cfg = demo_agones and n = 7] h by blast+
  have "probeGameServer_loop (Suc 0) refusing_world demo_agones ''tcp'' ''127.0.0.1:25565'' ?tk start =
     probeGameServer_loop 0 refusing_world demo_agones ''tcp'' ''127.0.0.1:25565'' ?tk1
       (slog LevelWarn ''Readiness probe attempt failed, retrying...''
          (emit (Attempt (Some (NetError ''connection refused''))) ?s2))"
    using C8_loop_returns_success_or_cancel [where w = refusing_world and cfg = demo_agones and tk = ?tk and s = start
        and ?tk1.0 = ?tk1 and ?s1.0 = ?s1 and pr = "''tcp''" and ad = "''127.0.0.1:25565''"
        and e = "NetError ''connection refused''" and ?s2.0 = ?s2 and k = 0] sel dial
    by blast
  then have l: "probeGameServer_loop (Suc 0) refusing_world demo_agones ''tcp'' ''127.0.0.1:25565'' ?tk start =
     (None,
      \<lparr>now = 2000001000, step = 2,
       trace = [(2000000000, RecvTick),
                (2000000000, DialTimeout ''tcp'' ''127.0.0.1:25565'' 5000000000
                               (Some (NetError ''connection refused''))),
                (2000001000, Attempt (Some (NetError ''connection refused''))),
                (2000001000, Log LevelWarn ''Readiness probe attempt failed, retrying...'')]\<rparr>)"
    by (simp add: slog_def emit_def)
  show ?thesis
    using r h t sel dial m st l by blast
qed

lemma no_Ready_segment:
  assumes "all_acts Q xs" "\<And>a. Q a \<Longrightarrow> \<not> is_Ready a"
  shows "(u, Ready x) \<notin> set xs"
proof
  assume "(u, Ready x) \<in> set xs"
  then show False using all_acts_D [OF assms(1), of "(u, Ready x)"] assms(2) by force
qed

lemma no_Health_segment:
  assumes "all_acts Q xs" "\<And>a. Q a \<Longrightarrow> \<not> is_Health a"
  shows "filter is_Health (map snd xs) = []"
  using all_acts_free [OF assms(1), of is_Health] assms(2) by (simp add: filter_empty_conv)

lemma run_cases_Ready_failed:
  assumes "run_cases w T1 HI n ret_probe ret_ready ret r tr" "Ready (Some e) \<in> snd ` set tr"
  shows "r = Some (Returned (ret_ready e))"
  using assms(1) unfolding run_cases_def
proof (elim exE conjE disjE)
  fix S F
  assume "all_acts is_setup S" "all_acts is_probe_act F" "tr = S @ F"
  then show ?thesis
    using assms(2) no_Ready_segment [of is_setup S] no_Ready_segment [of is_probe_act F]
    by (auto simp: setup_free probe_free)
next
  fix S F t L c
  assume "all_acts is_setup S" "all_acts is_probe_act F" "tr = S @ F @ (t, RecvDone) # L"
    "all_acts is_Log L"
  then show ?thesis
    using assms(2) no_Ready_segment [of is_setup S] no_Ready_segment [of is_probe_act F]
      no_Ready_segment [of is_Log L]
    by (auto simp: setup_free probe_free Log_free)
next
  fix S F t e' L
  assume "all_acts is_setup S" "all_acts is_probe_act F" "tr = S @ F @ (t, Ready (Some e')) # L"
    "all_acts is_Log L" "r = Some (Returned (ret_ready e'))"
  then show ?thesis
    using assms(2) no_Ready_segment [of is_setup S] no_Ready_segment [of is_probe_act F]
      no_Ready_segment [of is_Log L]
    by (auto simp: setup_free probe_free Log_free)
next
  fix S F t L m and H :: "(int \<times> action) list"
  assume "all_acts is_setup S" "all_acts is_probe_act F" "tr = S @ F @ (t, Ready None) # L"
    "all_acts is_Log L"
  then show ?thesis
    using assms(2) no_Ready_segment [of is_setup S] no_Ready_segment [of is_probe_act F]
      no_Ready_segment [of is_Log L]
    by (auto simp: setup_free probe_free Log_free)
next
  fix S F t L H
  assume "all_acts is_setup S" "all_acts is_probe_act F" "tr = S @ F @ (t, Ready None) # L @ H"
    "all_acts is_Log L" "all_acts is_beat_act H"
  then show ?thesis
    using assms(2) no_Ready_segment [of is_setup S] no_Ready_segment [of is_probe_act F]
      no_Ready_segment [of is_Log L] no_Ready_segment [of is_beat_act H]
    by (auto simp: setup_free probe_free Log_free beat_free)
next
  fix S F t L H td L' c
  assume "all_acts is_setup S" "all_acts is_probe_act F"
    "tr = S @ F @ (t, Ready None) # L @ H @ (td, RecvDone) # L'"
    "all_acts is_Log L" "all_acts is_beat_act H" "all_acts is_Log L'"
  then show ?thesis
    using assms(2) no_Ready_segment [of is_setup S] no_Ready_segment [of is_probe_act F]
      no_Ready_segment [of is_Log L] no_Ready_segment [of is_beat_act H]
      no_Ready_segment [of is_Log L']
    by (auto simp: setup_free probe_free Log_free beat_free)
qed

lemma run_cases_Ready_ok:
  assumes "run_cases w T1 HI n ret_probe ret_ready ret r tr" "Ready None \<in> snd ` set tr" "0 < HI"
  shows "(r = None \<or> r = Some (Returned ret) \<and> RecvDone \<in> snd ` set tr \<and> (\<exists>c. cancel_at w = Some c)) \<and>
         (cancel_at w = None \<longrightarrow> r = None \<and> length (filter is_Health (map snd tr)) = n)"
  using assms(1) unfolding run_cases_def
proof (elim exE conjE disjE)
  fix S F
  assume "all_acts is_setup S" "all_acts is_probe_act F" "tr = S @ F"
  then show ?thesis
    using assms(2) no_Ready_segment [of is_setup S] no_Ready_segment [of is_probe_act F]
    by (auto simp: setup_free probe_free)
next
  fix S F t L c
  assume "all_acts is_setup S" "all_acts is_probe_act F" "tr = S @ F @ (t, RecvDone) # L"
    "all_acts is_Log L"
  then show ?thesis
    using assms(2) no_Ready_segment [of is_setup S] no_Ready_segment [of is_probe_act F]
      no_Ready_segment [of is_Log L]
    by (auto simp: setup_free probe_free Log_free)
next
  fix S F t e' L
  assume "all_acts is_setup S" "all_acts is_probe_act F" "tr = S @ F @ (t, Ready (Some e')) # L"
    "all_acts is_Log L"
  then show ?thesis
    using assms(2) no_Ready_segment [of is_setup S] no_Ready_segment [of is_probe_act F]
      no_Ready_segment [of is_Log L]
    by (auto simp: setup_free probe_free Log_free)
next
  fix S F t L m and H :: "(int \<times> action) list"
  assume "HI \<le> 0"
  then show ?thesis using assms(3) by simp
next
  fix S F t L H
  assume S: "all_acts is_setup S" and F: "all_acts is_probe_act F"
    and tr: "tr = S @ F @ (t, Ready None) # L @ H"
    and L: "all_acts is_Log L" and H: "all_acts is_beat_act H" and r: "r = None"
    and cnt: "cancel_at w = None \<longrightarrow> length (filter is_Health (map snd H)) = n"
  have "filter is_Health (map snd tr) = filter is_Health (map snd H)"
    unfolding tr
    using no_Health_segment [OF S] no_Health_segment [OF F] no_Health_segment [OF L]
    by (simp add: setup_free probe_free Log_free)
  then show ?thesis using r cnt by simp
next
  fix S F t L H td L' c
  assume "tr = S @ F @ (t, Ready None) # L @ H @ (td, RecvDone) # L'"
    "r = Some (Returned ret)" "cancel_at w = Some c"
  then show ?thesis by force
qed

lemma RunManager_heartbeat:
  assumes "Ready None \<in> set (acts (snd (RunManager w cfg n start)))" "0 < AgonesConfig.HealthInterval cfg"
  shows "heartbeat_until_cancel w n () (RunManager w cfg n start)"
proof -
  obtain r s' where run: "RunManager w cfg n start = (r, s')"
    by (cases "RunManager w cfg n start") auto
  have "Ready None \<in> snd ` set (trace s')"
    using assms(1) run by (simp add: acts_def)
  from run_cases_Ready_ok [OF RunManager_cases [OF start_setup run] this assms(2)]
  show ?thesis
    by (simp add: heartbeat_until_cancel_def run acts_def)
qed

lemma NewSDK_failed_trace:
  assumes "sdk_NewSDK w s0 = (Some e, s1)"
  shows "runMonitor p cfg w n s0 = (Some (Returned (Some (Wrapped ''could not connect to Agones SDK: '' e))), s1)"
  using assms by (simp add: runMonitor_skeleton)

lemma runMonitor_heartbeat:
  assumes "probe_spec I p" "Ready None \<in> set (acts (snd (runMonitor p cfg w n start)))"
    "0 < Config.HealthInterval cfg"
  shows "heartbeat_until_cancel w n None (runMonitor p cfg w n start)"
proof -
  obtain r s' where run: "runMonitor p cfg w n start = (r, s')"
    by (cases "runMonitor p cfg w n start") auto
  obtain e s1 where sdk: "sdk_NewSDK w start = (e, s1)"
    by (cases "sdk_NewSDK w start") auto
  have mem: "Ready None \<in> snd ` set (trace s')"
    using assms(2) run by (simp add: acts_def)
  show ?thesis
  proof (cases e)
    case (Some err)
    then have "s' = s1" using NewSDK_failed_trace [of w start err s1 p cfg n] sdk run by simp
    then have "trace s' = [(0, NewSDK (Some err))]"
      using NewSDK_facts(1) [OF sdk] Some by (simp add: start_def)
    then show ?thesis using mem by simp
  next
    case None
    from run_cases_Ready_ok [OF runMonitor_cases [OF assms(1) start_setup sdk [unfolded None] run]
        mem assms(3)]
    show ?thesis
      by (simp add: heartbeat_until_cancel_def run acts_def)
  qed
qed

text \<open>
  C9. Once the ready signal has succeeded and the heartbeat ticker exists (the health
  interval is positive), a run returns only through the cancellation branch, in a world
  where the context is cancelled; in a world without cancellation it is still running after
  any number \<open>n\<close> of iterations and has sent \<open>n\<close> health signals, whatever the health calls
  returned. An iteration whose health call fails logs a warning and goes on with the next
  iteration.
\<close>

theorem C9_health_failure_not_fatal:
  "(Ready None \<in> set (acts (snd (RunManager w cfg n start))) \<and> 0 < AgonesConfig.HealthInterval cfg
      \<longrightarrow> heartbeat_until_cancel w n () (RunManager w cfg n start)) \<and>
   (Ready None \<in> set (acts (snd (runMonitor (PingProbe_Probe pc) c w n start)))
      \<and> 0 < Config.HealthInterval c
      \<longrightarrow> heartbeat_until_cancel w n None (runMonitor (PingProbe_Probe pc) c w n start)) \<and>
   (select w tk s = (TickBranch, tk1, s1) \<and> sdk_Health w s1 = (Some e, s2)
      \<longrightarrow> RunManager_loop (Suc k) w tk s
            = RunManager_loop k w tk1 (slog LevelWarn ''Failed to send health ping'' s2)
        \<and> runMonitor_loop (Suc k) w tk s
            = runMonitor_loop k w tk1 (slog LevelWarn ''Failed to send health ping'' s2))"
  using RunManager_heartbeat [where w = w and cfg = cfg and n = n]
    runMonitor_heartbeat [OF PingProbe_Probe_spec, where cfg1 = pc and cfg = c and w = w and n = n]
  by simp

theorem C9_witness:
  "Ready None \<in> set (acts (snd (RunManager failing_health_world demo_agones 4 start))) \<and>
   0 < AgonesConfig.HealthInterval demo_agones \<and>
   cancel_at failing_health_world = None \<and>
   fst (RunManager failing_health_world demo_agones 4 start) = None \<and>
   filter is_Health (acts (snd (RunManager failing_health_world demo_agones 4 start)))
     = replicate 4 (Health (Some (NetError ''unavailable''))) \<and>
   select failing_health_world \<lparr>period = 5, next_tick = 5\<rparr> (start\<lparr>step := 3\<rparr>)
     = (TickBranch, \<lparr>period = 5, next_tick = 10\<rparr>, \<lparr>now = 5, step = 4, trace = [(5, RecvTick)]\<rparr>) \<and>
   sdk_Health failing_health_world \<lparr>now = 5, step = 4, trace = [(5, RecvTick)]\<rparr>
     = (Some (NetError ''unavailable''),
        \<lparr>now = 1005, step = 5, trace = [(5, RecvTick), (5, Health (Some (NetError ''unavailable'')))]\<rparr>) \<and>
   RunManager_loop (Suc 0) failing_health_world \<lparr>period = 5, next_tick = 5\<rparr> (start\<lparr>step := 3\<rparr>)
     = (None, \<lparr>now = 1005, step = 5,
               trace = [(5, RecvTick), (5, Health (Some (NetError ''unavailable''))),
                        (1005, Log LevelWarn ''Failed to send health ping'')]\<rparr>)"
proof -
  have r: "Ready None \<in> set (acts (snd (RunManager failing_health_world demo_agones 4 start)))"
    by code_simp
  have h: "0 < AgonesConfig.HealthInterval demo_agones"
    by (simp add: demo_agones_def Second_def)
  have c: "cancel_at failing_health_world = None"
    by (simp add: failing_health_world_def)
  have f: "filter is_Health (acts (snd (RunManager failing_health_world demo_agones 4 start)))
     = replicate 4 (Health (Some (NetError ''unavailable'')))"
    by code_simp
  have g: "fst (RunManager failing_health_world demo_agones 4 start) = None"
    using C9_health_failure_not_fatal [where w = failing_health_world and cfg = demo_agones and n = 4]
      r h c
    by (simp add: heartbeat_until_cancel_def)
  have sl: "select failing_health_world \<lparr>period = 5, next_tick = 5\<rparr> (start\<lparr>step := 3\<rparr>)
     = (TickBranch, \<lparr>period = 5, next_tick = 10\<rparr>, \<lparr>now = 5, step = 4, trace = [(5, RecvTick)]\<rparr>)"
    by code_simp
  have hl: "sdk_Health failing_health_world \<lparr>now = 5, step = 4, trace = [(5, RecvTick)]\<rparr>
     = (Some (NetError ''unavailable''),
        \<lparr>now = 1005, step = 5, trace = [(5, RecvTick), (5, Health (Some (NetError ''unavailable'')))]\<rparr>)"
    by code_simp
  have l: "RunManager_loop (Suc 0) failing_health_world \<lparr>period = 5, next_tick = 5\<rparr> (start\<lparr>step := 3\<rparr>)
     = RunManager_loop 0 failing_health_world \<lparr>period = 5, next_tick = 10\<rparr>
         (slog LevelWarn ''Failed to send health ping''
            \<lparr>now = 1005, step = 5, trace = [(5, RecvTick), (5, Health (Some (NetError ''unavailable'')))]\<rparr>)"
    using C9_health_failure_not_fatal [where w = failing_health_world and k = 0
        and tk = "\<lparr>period = 5, next_tick = 5\<rparr>" and s = "start\<lparr>step := 3\<rparr>"
        and e = "NetError ''unavailable''"] sl hl
    by blast
  have "RunManager_loop (Suc 0) failing_health_world \<lparr>period = 5, next_tick = 5\<rparr> (start\<lparr>step := 3\<rparr>)
     = (None, \<lparr>now = 1005, step = 5,
               trace = [(5, RecvTick), (5, Health (Some (NetError ''unavailable''))),
                        (1005, Log LevelWarn ''Failed to send health ping'')]\<rparr>)"
    using l by (simp add: slog_def emit_def)
  with r h c f g sl hl show ?thesis by blast
qed

lemma lifecycle_Ready_failed:
  assumes "lifecycle T1 HI tr" "Ready (Some e) \<in> set (map snd tr)"
  shows "length (filter is_Ready (map snd tr)) = 1 \<and> (\<forall>a\<in>set (map snd tr). \<not> is_Health a)"
proof -
  have "filter is_Ready (map snd tr) \<noteq> []"
    using assms(2) by (force simp: filter_empty_conv)
  then have "length (filter is_Ready (map snd tr)) \<noteq> 0" by (simp only: length_0_conv not_False_eq_True)
  moreover have "length (filter is_Ready (map snd tr)) \<le> 1"
    using lifecycle_ready [OF assms(1)] by (simp add: ready_once_after_success_def)
  moreover have "\<forall>a\<in>set (map snd tr). \<not> is_Health a"
    using lifecycle_health [OF assms(1)] assms(2) unfolding health_after_ready_def by blast
  ultimately show ?thesis by linarith
qed

lemma RunManager_Ready_failed:
  assumes "all_acts is_setup (trace s0)" "Ready (Some e) \<in> set (acts (snd (RunManager w cfg n s0)))"
  shows "fst (RunManager w cfg n s0) = Some (Returned ())"
proof -
  obtain r s' where run: "RunManager w cfg n s0 = (r, s')"
    by (cases "RunManager w cfg n s0") auto
  have "Ready (Some e) \<in> snd ` set (trace s')"
    using assms(2) run by (simp add: acts_def)
  from run_cases_Ready_failed [OF RunManager_cases [OF assms(1) run] this]
  show ?thesis by (simp add: run)
qed

lemma runMonitor_Ready_failed:
  assumes "probe_spec I p" "all_acts is_setup (trace s0)"
    "Ready (Some e) \<in> set (acts (snd (runMonitor p cfg w n s0)))"
  shows "fst (runMonitor p cfg w n s0)
           = Some (Returned (Some (Wrapped ''failed to send Ready signal: '' e)))"
proof -
  obtain r s' where run: "runMonitor p cfg w n s0 = (r, s')"
    by (cases "runMonitor p cfg w n s0") auto
  obtain e0 s1 where sdk: "sdk_NewSDK w s0 = (e0, s1)"
    by (cases "sdk_NewSDK w s0") auto
  have mem: "Ready (Some e) \<in> snd ` set (trace s')"
    using assms(3) run by (simp add: acts_def)
  show ?thesis
  proof (cases e0)
    case (Some err)
    then have "s' = s1" using NewSDK_failed_trace [of w s0 err s1 p cfg n] sdk run by simp
    then have "trace s' = trace s0 @ [(now s0, NewSDK (Some err))]"
      using NewSDK_facts(1) [OF sdk] Some by simp
    then show ?thesis using mem no_Ready_segment [OF assms(2), of _ "Some e"]
      by (auto simp: setup_free)
  next
    case None
    from run_cases_Ready_failed [OF runMonitor_cases [OF assms(1,2) sdk [unfolded None] run] mem]
    show ?thesis by (simp add: run)
  qed
qed

lemma main_go_run:
  "main_go c w n s0 =
     (case runMonitor (PingProbe_Probe (Ping c)) c w n (slog LevelInfo ''Starting Agnostic Agones Sidecar'' s0) of
        (None, s2) \<Rightarrow> (None, s2)
      | (Some (Panicked m), s2) \<Rightarrow> (Some 2, s2)
      | (Some (Returned (Some e)), s2) \<Rightarrow> (Some 1, slog LevelError ''Monitor failed'' s2)
      | (Some (Returned None), s2) \<Rightarrow> (Some 0, slog LevelInfo ''Monitor finished gracefully.'' s2))"
  by (simp add: main_go_def Let_def)

lemma main_go_Ready_failed:
  assumes "Ready (Some e) \<in> set (acts (snd (main_go c w n start)))"
  shows "fst (main_go c w n start) = Some 1"
proof -
  let ?s1 = "slog LevelInfo ''Starting Agnostic Agones Sidecar'' start"
  obtain r s' where run: "runMonitor (PingProbe_Probe (Ping c)) c w n ?s1 = (r, s')"
    by (cases "runMonitor (PingProbe_Probe (Ping c)) c w n ?s1") auto
  have s1: "all_acts is_setup (trace ?s1)"
    by (simp add: start_def slog_def emit_def all_acts_def)
  have "Ready (Some e) \<in> set (acts s')"
    using assms run
    by (auto simp: main_go_run acts_def slog_def emit_def split: option.splits outcome.splits)
  then have "r = Some (Returned (Some (Wrapped ''failed to send Ready signal: '' e)))"
    using runMonitor_Ready_failed [OF PingProbe_Probe_spec s1, where e = e and cfg = c and w = w and n = n and cfg1 = "Ping c"] run by simp
  then show ?thesis using run by (simp add: main_go_run)
qed

lemma main_part_002_Ready_failed:
  assumes "manager (main_part_002 cfg w n start) = Some m" "Ready (Some e) \<in> set (acts (snd m))"
  shows "fst m = Some (Returned ()) \<and>
         exit_status (main_part_002 cfg w n start) = (case cancel_at w of None \<Rightarrow> None | Some c \<Rightarrow> Some 0)"
proof -
  let ?s1 = "slog LevelInfo ''Starting Unified Agones Sidecar'' start"
  obtain e0 s2 where sdk: "sdk_NewSDK w ?s1 = (e0, s2)"
    by (cases "sdk_NewSDK w ?s1") auto
  let ?s3 = "slog LevelInfo ''Successfully connected to Agones SDK'' s2"
  have e0: "e0 = None" and m: "m = RunManager w cfg n ?s3"
    using assms(1) sdk
    by (auto simp: main_part_002_def Let_def split: option.splits if_splits)
  have "all_acts is_setup (trace ?s1)"
    by (simp add: start_def slog_def emit_def all_acts_def)
  then have "all_acts is_setup (trace ?s3)"
    using NewSDK_facts(3) [OF sdk] by (simp add: slog_def emit_def all_acts_def)
  from RunManager_Ready_failed [OF this, where e = e and w = w and cfg = cfg and n = n] assms(2) m
  have r: "fst m = Some (Returned ())" by simp
  then show ?thesis
    using sdk e0 m by (simp add: main_part_002_def Let_def split: option.splits)
qed

text \<open>
  C3, as the code has it. When the ready signal returns an error, \<open>RunManager\<close> returns
  with exactly one ready signal and no health signal in its trace. The process of main.go
  exits with status 1. The unified process does not exit on it: \<open>RunManager\<close> has no result
  and runs as a goroutine, so the process goes on until the cancellation of the context and
  then exits with status 0.
\<close>

theorem C3_ready_failure_stops_manager:
  "(Ready (Some e) \<in> set (acts (snd (RunManager w cfg n start)))
      \<longrightarrow> fst (RunManager w cfg n start) = Some (Returned ())
        \<and> length (filter is_Ready (acts (snd (RunManager w cfg n start)))) = 1
        \<and> (\<forall>a\<in>set (acts (snd (RunManager w cfg n start))). \<not> is_Health a)) \<and>
   (Ready (Some e) \<in> set (acts (snd (main_go c w n start)))
      \<longrightarrow> fst (main_go c w n start) = Some 1) \<and>
   (manager (main_part_002 cfg w n start) = Some m \<and> Ready (Some e) \<in> set (acts (snd m))
      \<longrightarrow> fst m = Some (Returned ())
        \<and> exit_status (main_part_002 cfg w n start)
            = (case cancel_at w of None \<Rightarrow> None | Some c \<Rightarrow> Some 0))"
  using RunManager_Ready_failed [OF start_setup, where e = e and w = w and cfg = cfg and n = n]
    lifecycle_Ready_failed [OF RunManager_lifecycle [OF start_setup],
      where e = e and w1 = w and cfg1 = cfg and n1 = n]
    main_go_Ready_failed [where e = e and w = w and c = c and n = n]
    main_part_002_Ready_failed [where e = e and w = w and cfg = cfg and n = n and m = m]
  by (simp add: acts_def)

theorem C3_witness:
  "Ready (Some (NetError ''rpc error'')) \<in> set (acts (snd (RunManager ready_refused_world demo_agones 3 start))) \<and>
   fst (RunManager ready_refused_world demo_agones 3 start) = Some (Returned ()) \<and>
   filter is_Ready (acts (snd (RunManager ready_refused_world demo_agones 3 start)))
     = [Ready (Some (NetError ''rpc error''))] \<and>
   Ready (Some (NetError ''rpc error'')) \<in> set (acts (snd (main_go demo_config ready_fails_world 3 start))) \<and>
   fst (main_go demo_config ready_fails_world 3 start) = Some 1"
proof -
  have m: "Ready (Some (NetError ''rpc error'')) \<in> set (acts (snd (RunManager ready_refused_world demo_agones 3 start)))"
    by code_simp
  have f: "filter is_Ready (acts (snd (RunManager ready_refused_world demo_agones 3 start)))
     = [Ready (Some (NetError ''rpc error''))]"
    by code_simp
  have g: "Ready (Some (NetError ''rpc error'')) \<in> set (acts (snd (main_go demo_config ready_fails_world 3 start)))"
    by code_simp
  have "fst (RunManager ready_refused_world demo_agones 3 start) = Some (Returned ())"
    using C3_ready_failure_stops_manager [where e = "NetError ''rpc error''" and cfg = demo_agones
        and w = ready_refused_world and n = 3] m
    by blast
  moreover have "fst (main_go demo_config ready_fails_world 3 start) = Some 1"
    using C3_ready_failure_stops_manager [where e = "NetError ''rpc error''" and c = demo_config
        and w = ready_fails_world and n = 3] g
    by blast
  ultimately show ?thesis using m f g by blast
qed

lemma main_part_002_connected:
  assumes "sdk_NewSDK w (slog LevelInfo ''Starting Unified Agones Sidecar'' s0) = (None, s2)"
    and "cancel_at w = Some c"
    and "fst (RunManager w cfg n (slog LevelInfo ''Successfully connected to Agones SDK'' s2))
           = Some (Returned ())"
  shows "manager (main_part_002 cfg w n s0)
           = Some (RunManager w cfg n (slog LevelInfo ''Successfully connected to Agones SDK'' s2))"
    and "exit_status (main_part_002 cfg w n s0) = Some 0"
  using assms by (simp_all add: main_part_002_def Let_def)

theorem C3_counterexample:
  "map_option (\<lambda>m. Ready (Some (NetError ''rpc error'')) \<in> set (acts (snd m)))
     (manager (main_part_002 demo_agones ready_fails_world 3 start)) = Some True \<and>
   exit_status (main_part_002 demo_agones ready_fails_world 3 start) = Some 0"
proof -
  let ?s2 = "\<lparr>now = 1000, step = 1,
              trace = [(0, Log LevelInfo ''Starting Unified Agones Sidecar''), (0, NewSDK None)]\<rparr>"
  let ?m = "RunManager ready_fails_world demo_agones 3
              (slog LevelInfo ''Successfully connected to Agones SDK'' ?s2)"
  have sdk: "sdk_NewSDK ready_fails_world (slog LevelInfo ''Starting Unified Agones Sidecar'' start)
               = (None, ?s2)"
    by code_simp
  have c: "cancel_at ready_fails_world = Some (20 * Second)"
    by (simp add: ready_fails_world_def)
  have r: "fst ?m = Some (Returned ())"
    by code_simp
  have mem: "Ready (Some (NetError ''rpc error'')) \<in> set (acts (snd ?m))"
    by code_simp
  show ?thesis
    using main_part_002_connected [OF sdk c r] mem by simp
qed

lemma select_cancelled:
  assumes "cancel_at w = Some c" "c \<le> now s" "now s < next_tick tk"
  shows "select w tk s =
     (DoneBranch, tk, s\<lparr>now := now s, step := Suc (step s), trace := trace s @ [(now s, RecvDone)]\<rparr>)"
  using assms by (simp add: select_def wake_time_def done_ready_def Let_def max_def min_def)

lemma RunManager_cancelled_in_delay:
  assumes "cancel_at w = Some c" "c \<le> max 0 (AgonesConfig.InitialDelay cfg)"
  shows "RunManager w cfg (Suc n) start =
     (Some (Returned ()),
      \<lparr>now = max 0 (AgonesConfig.InitialDelay cfg), step = 1,
       trace =
         [(0, Log LevelInfo ''Starting Agones manager...''),
          (0, Log LevelInfo ''Waiting for initial delay before probing''),
          (0, Sleep (AgonesConfig.InitialDelay cfg)),
          (max 0 (AgonesConfig.InitialDelay cfg), Log LevelInfo ''Starting readiness probe...''),
          (max 0 (AgonesConfig.InitialDelay cfg), RecvDone),
          (max 0 (AgonesConfig.InitialDelay cfg),
           Log LevelError ''Readiness probe failed, game server will not be marked as Ready'')]\<rparr>)"
proof -
  let ?D = "max 0 (AgonesConfig.InitialDelay cfg)"
  let ?s4 = "\<lparr>now = ?D, step = 0,
       trace =
         [(0, Log LevelInfo ''Starting Agones manager...''),
          (0, Log LevelInfo ''Waiting for initial delay before probing''),
          (0, Sleep (AgonesConfig.InitialDelay cfg)),
          (?D, Log LevelInfo ''Starting readiness probe...'')]\<rparr>"
  let ?tk = "\<lparr>period = 2 * Second, next_tick = ?D + 2 * Second\<rparr>"
  have s4: "before_probe cfg start = ?s4"
    by (simp add: before_probe_def slog_def emit_def time_Sleep_def start_def)
  have sel: "select w ?tk ?s4 =
     (DoneBranch, ?tk, ?s4\<lparr>now := now ?s4, step := Suc (step ?s4), trace := trace ?s4 @ [(now ?s4, RecvDone)]\<rparr>)"
    by (rule select_cancelled [OF assms(1)]) (use assms(2) Second_pos in simp_all)
  have tk: "NewTicker (2 * Second) ?s4 = Some ?tk"
    using Second_pos by (simp add: NewTicker_def)
  have pr: "probeGameServer w cfg (Suc n) ?s4 =
     (Some (Returned (Some Canceled)),
      ?s4\<lparr>now := now ?s4, step := Suc (step ?s4), trace := trace ?s4 @ [(now ?s4, RecvDone)]\<rparr>)"
    unfolding probeGameServer_def Let_def tk by (simp add: sel)
  show ?thesis
    unfolding RunManager_skeleton s4 run_skeleton_def pr by (simp add: slog_def emit_def)
qed

lemma runMonitor_cancelled_in_delay:
  assumes "cancel_at w = Some c" "reply w 0 = (d0, None)"
    "c \<le> int d0 + max 0 (Config.InitialDelay cfg)"
  shows "runMonitor (PingProbe_Probe pc) cfg w (Suc n) start =
     (Some (Returned (Some (Wrapped ''readiness probe failed: '' Canceled))),
      \<lparr>now = int d0 + max 0 (Config.InitialDelay cfg), step = 2,
       trace =
         [(0, NewSDK None),
          (int d0, Log LevelInfo ''Successfully connected to Agones SDK''),
          (int d0, Log LevelInfo ''Waiting for initial delay''),
          (int d0, Sleep (Config.InitialDelay cfg)),
          (int d0 + max 0 (Config.InitialDelay cfg), Log LevelInfo ''Starting readiness probe...''),
          (int d0 + max 0 (Config.InitialDelay cfg), Log LevelInfo ''Starting ping probe''),
          (int d0 + max 0 (Config.InitialDelay cfg), RecvDone)]\<rparr>)"
proof -
  let ?D = "int d0 + max 0 (Config.InitialDelay cfg)"
  let ?s1 = "\<lparr>now = int d0, step = Suc 0, trace = [(0, NewSDK None)]\<rparr>"
  let ?s5 = "\<lparr>now = ?D, step = Suc 0,
       trace =
         [(0, NewSDK None),
          (int d0, Log LevelInfo ''Successfully connected to Agones SDK''),
          (int d0, Log LevelInfo ''Waiting for initial delay''),
          (int d0, Sleep (Config.InitialDelay cfg)),
          (?D, Log LevelInfo ''Starting readiness probe...'')]\<rparr>"
  let ?s6 = "\<lparr>now = ?D, step = Suc 0,
       trace =
         [(0, NewSDK None),
          (int d0, Log LevelInfo ''Successfully connected to Agones SDK''),
          (int d0, Log LevelInfo ''Waiting for initial delay''),
          (int d0, Sleep (Config.InitialDelay cfg)),
          (?D, Log LevelInfo ''Starting readiness probe...''),
          (?D, Log LevelInfo ''Starting ping probe'')]\<rparr>"
  let ?tk = "\<lparr>period = 5 * Second, next_tick = ?D + 5 * Second\<rparr>"
  have sdk: "sdk_NewSDK w start = (None, ?s1)"
    using assms(2) by (simp add: sdk_NewSDK_def extern_def start_def)
  have s5: "before_probe_monitor cfg ?s1 = ?s5"
    by (simp add: before_probe_monitor_def slog_def emit_def time_Sleep_def)
  have s6: "slog LevelInfo ''Starting ping probe'' ?s5 = ?s6"
    by (simp add: slog_def emit_def)
  have sel: "select w ?tk ?s6 =
     (DoneBranch, ?tk, ?s6\<lparr>now := now ?s6, step := Suc (step ?s6), trace := trace ?s6 @ [(now ?s6, RecvDone)]\<rparr>)"
    by (rule select_cancelled [OF assms(1)]) (use assms(3) Second_pos in simp_all)
  have tk: "NewTicker (5 * Second) ?s6 = Some ?tk"
    using Second_pos by (simp add: NewTicker_def)
  have pr: "PingProbe_Probe pc w (Suc n) ?s5 =
     (Some (Returned (Some Canceled)),
      ?s6\<lparr>now := now ?s6, step := Suc (step ?s6), trace := trace ?s6 @ [(now ?s6, RecvDone)]\<rparr>)"
    unfolding PingProbe_Probe_def Let_def s6 tk by (simp add: sel)
  show ?thesis
    unfolding runMonitor_skeleton sdk by (simp add: s5 run_skeleton_def pr)
qed

lemma select_interrupted:
  assumes "cancel_at w = Some c" "now s \<le> c" "c < next_tick tk"
  shows "select w tk s =
     (DoneBranch, tk, s\<lparr>now := c, step := Suc (step s), trace := trace s @ [(c, RecvDone)]\<rparr>)"
  using assms by (simp add: select_def wake_time_def done_ready_def Let_def max_def min_def)

lemma tick_times_emit: "a \<noteq> RecvTick \<Longrightarrow> tick_times (trace (emit a s)) = tick_times (trace s)"
  by (simp add: emit_def tick_times_def)

lemma tick_times_slog [simp]: "tick_times (trace (slog l m s)) = tick_times (trace s)"
  by (simp add: slog_def tick_times_emit)

lemma tick_times_appends:
  assumes "appends Q t0 s s'" "\<And>a. Q a \<Longrightarrow> a \<noteq> RecvTick"
  shows "tick_times (trace s') = tick_times (trace s)"
proof -
  from assms(1) obtain ev where ev: "trace s' = trace s @ ev" "\<forall>x\<in>set ev. Q (snd x)"
    unfolding appends_def by blast
  have "tick_times ev = []"
    using ev(2) assms(2) by (intro tick_times_free) blast
  then show ?thesis by (simp add: ev(1))
qed

lemma tick_times_only_logs: "only_logs f \<Longrightarrow> tick_times (trace (f s)) = tick_times (trace s)"
  unfolding only_logs_def by (rule tick_times_appends [where Q = is_Log]) auto

lemma tick_times_io:
  "io_ok attempt \<Longrightarrow> attempt w s = (r, s') \<Longrightarrow> tick_times (trace s') = tick_times (trace s)"
  unfolding io_ok_def by (rule tick_times_appends [where Q = is_io]) (auto dest: is_io_not_tick)

lemma tick_times_extern:
  "extern w act s = (r, s') \<Longrightarrow> act r \<noteq> RecvTick \<Longrightarrow> tick_times (trace s') = tick_times (trace s)"
  by (auto simp: extern_def tick_times_def split: prod.splits)

lemma tick_times_Sleep [simp]: "tick_times (trace (time_Sleep d s)) = tick_times (trace s)"
  by (simp add: time_Sleep_def emit_def tick_times_def)

lemma select_ticks_before:
  assumes "cancel_at w = Some c" "\<forall>k. \<not> pick_tick w k" "select w tk s = (b, tk1, s1)"
    "ticks_before c (trace s)"
  shows "ticks_before c (trace s1)"
  using assms
  by (auto simp: select_def Let_def done_ready_def ticks_before_def tick_times_def split: if_splits)

lemma retry_loop_ticks_before:
  assumes "cancel_at w = Some c" "\<forall>k. \<not> pick_tick w k" "io_ok attempt"
    "\<And>s. tick_times (trace (on_ok s)) = tick_times (trace s)"
    "\<And>s. tick_times (trace (on_fail s)) = tick_times (trace s)"
  shows "ticks_before c (trace s) \<Longrightarrow>
     ticks_before c (trace (snd (retry_loop attempt on_ok on_fail n w tk s)))"
proof (induction n arbitrary: tk s)
  case 0
  then show ?case by simp
next
  case (Suc n)
  obtain b tk1 s1 where sel: "select w tk s = (b, tk1, s1)"
    by (cases "select w tk s") auto
  have t1: "ticks_before c (trace s1)"
    by (rule select_ticks_before [OF assms(1,2) sel Suc.prems])
  show ?case
  proof (cases b)
    case DoneBranch
    then show ?thesis using sel t1 by simp
  next
    case TickBranch
    obtain err s2 where att: "attempt w s1 = (err, s2)"
      by (cases "attempt w s1") auto
    have t2: "ticks_before c (trace s2)"
      using t1 tick_times_io [OF assms(3) att] by (simp add: ticks_before_def)
    show ?thesis
    proof (cases err)
      case None
      have "ticks_before c (trace (on_ok (emit (Attempt None) s2)))"
        using t2 by (simp add: ticks_before_def assms(4) tick_times_emit)
      then show ?thesis using sel TickBranch att None by simp
    next
      case (Some e)
      have "ticks_before c (trace (on_fail (emit (Attempt (Some e)) s2)))"
        using t2 by (simp add: ticks_before_def assms(5) tick_times_emit)
      from Suc.IH [OF this] show ?thesis using sel TickBranch att Some by simp
    qed
  qed
qed

lemma beat_loop_ticks_before:
  assumes "cancel_at w = Some c" "\<forall>k. \<not> pick_tick w k" "\<And>e. only_logs (after e)" "only_logs fin"
  shows "ticks_before c (trace s) \<Longrightarrow>
     ticks_before c (trace (snd (beat_loop after fin ret n w tk s)))"
proof (induction n arbitrary: tk s)
  case 0
  then show ?case by simp
next
  case (Suc n)
  obtain b tk1 s1 where sel: "select w tk s = (b, tk1, s1)"
    by (cases "select w tk s") auto
  have t1: "ticks_before c (trace s1)"
    by (rule select_ticks_before [OF assms(1,2) sel Suc.prems])
  show ?case
  proof (cases b)
    case DoneBranch
    have "ticks_before c (trace (fin s1))"
      using t1 by (simp add: ticks_before_def tick_times_only_logs [OF assms(4)])
    then show ?thesis using sel DoneBranch by simp
  next
    case TickBranch
    obtain err s2 where hl: "sdk_Health w s1 = (err, s2)"
      by (cases "sdk_Health w s1") auto
    have "tick_times (trace s2) = tick_times (trace s1)"
      using hl unfolding sdk_Health_def by (rule tick_times_extern) simp
    then have "ticks_before c (trace (after err s2))"
      using t1 by (simp add: ticks_before_def tick_times_only_logs [OF assms(3)])
    from Suc.IH [OF this] show ?thesis using sel TickBranch hl by simp
  qed
qed

lemma run_skeleton_ticks_before:
  assumes "cancel_at w = Some c" "\<forall>k. \<not> pick_tick w k"
    and probe: "\<And>s. ticks_before c (trace s) \<Longrightarrow> ticks_before c (trace (snd (probe w n s)))"
    and "only_logs on_probe" "only_logs on_ready" "\<And>e. only_logs (after e)" "only_logs fin"
    and s: "ticks_before c (trace s)"
  shows "ticks_before c
     (trace (snd (run_skeleton probe ret_probe on_probe ret_ready on_ready after fin ret HI w n s)))"
proof -
  obtain r s5 where p: "probe w n s = (r, s5)"
    by (cases "probe w n s") auto
  have t5: "ticks_before c (trace s5)"
    using probe [OF s] p by simp
  obtain rr s6 where rd: "sdk_Ready w s5 = (rr, s6)"
    by (cases "sdk_Ready w s5") auto
  have "tick_times (trace s6) = tick_times (trace s5)"
    using rd unfolding sdk_Ready_def by (rule tick_times_extern) simp
  then have t6: "ticks_before c (trace s6)"
    using t5 by (simp add: ticks_before_def)
  let ?s7 = "slog LevelInfo ''>>> Server is Ready! Starting health checks. <<<'' s6"
  have t7: "ticks_before c (trace ?s7)"
    using t6 by (simp add: ticks_before_def)
  have beat: "ticks_before c (trace (snd (beat_loop after fin ret n w tk ?s7)))" for tk
    by (rule beat_loop_ticks_before [OF assms(1,2,6,7) t7])
  have op: "ticks_before c (trace (on_probe s5))"
    using t5 by (simp add: ticks_before_def tick_times_only_logs [OF assms(4)])
  have orr: "ticks_before c (trace (on_ready s6))"
    using t6 by (simp add: ticks_before_def tick_times_only_logs [OF assms(5)])
  show ?thesis
    unfolding run_skeleton_def p
    using t5 op orr t7 beat rd
    by (simp add: Let_def split: option.splits outcome.splits)
qed

lemma tick_times_Close [simp]: "tick_times (trace (conn_Close s)) = tick_times (trace s)"
  by (simp add: conn_Close_def tick_times_emit)

lemma probeGameServer_ticks_before:
  assumes "cancel_at w = Some c" "\<forall>k. \<not> pick_tick w k" "ticks_before c (trace s)"
  shows "ticks_before c (trace (snd (probeGameServer w cfg n s)))"
  unfolding probeGameServer_unfold probeGameServer_loop_retry
  by (rule retry_loop_ticks_before [OF assms(1,2) io_ok_Dial _ _ assms(3)]) simp_all

lemma PingProbe_Probe_ticks_before:
  assumes "cancel_at w = Some c" "\<forall>k. \<not> pick_tick w k" "ticks_before c (trace s)"
  shows "ticks_before c (trace (snd (PingProbe_Probe pc w n s)))"
  unfolding PingProbe_Probe_unfold PingProbe_Probe_loop_retry
  by (rule retry_loop_ticks_before [OF assms(1,2) ping_attempt_io])
    (use assms(3) in \<open>simp_all add: ticks_before_def\<close>)

lemma PingProbe_Probe_part_000_ticks_before:
  assumes "cancel_at w = Some c" "\<forall>k. \<not> pick_tick w k" "ticks_before c (trace s)"
  shows "ticks_before c (trace (snd (PingProbe_Probe_part_000 cfg w n s)))"
  unfolding PingProbe_Probe_part_000_unfold PingProbe_Probe_part_000_loop_retry
  by (rule retry_loop_ticks_before [OF assms(1,2) ping_attempt_part_000_io])
    (use assms(3) in \<open>simp_all add: ticks_before_def\<close>)

lemma RunManager_ticks_before:
  assumes "cancel_at w = Some c" "\<forall>k. \<not> pick_tick w k"
  shows "ticks_before c (trace (snd (RunManager w cfg n start)))"
proof -
  have bp: "ticks_before c (trace (before_probe cfg start))"
    by (simp add: before_probe_def ticks_before_def) (simp add: start_def tick_times_def)
  show ?thesis
    unfolding RunManager_skeleton
    by (rule run_skeleton_ticks_before [OF assms _ only_logs_slog only_logs_slog _ only_logs_slog bp])
      (erule probeGameServer_ticks_before [OF assms], rule only_logs_health_RM)
qed

lemma runMonitor_ticks_before:
  assumes "cancel_at w = Some c" "\<forall>k. \<not> pick_tick w k"
  shows "ticks_before c (trace (snd (runMonitor (PingProbe_Probe pc) cfg w n start)))"
proof -
  obtain r s1 where sdk: "sdk_NewSDK w start = (r, s1)"
    by (cases "sdk_NewSDK w start") auto
  have "tick_times (trace s1) = tick_times (trace start)"
    using sdk unfolding sdk_NewSDK_def by (rule tick_times_extern) simp
  then have t1: "ticks_before c (trace s1)"
    by (simp add: ticks_before_def start_def tick_times_def)
  show ?thesis
  proof (cases r)
    case (Some e)
    then show ?thesis using sdk t1 by (simp add: runMonitor_skeleton)
  next
    case None
    have bp: "ticks_before c (trace (before_probe_monitor cfg s1))"
      using t1 by (simp add: before_probe_monitor_def ticks_before_def)
    have "ticks_before c (trace (snd (run_skeleton (PingProbe_Probe pc)
            (\<lambda>e. Some (Wrapped ''readiness probe failed: '' e)) (\<lambda>s. s)
            (\<lambda>e. Some (Wrapped ''failed to send Ready signal: '' e)) (\<lambda>s. s)
            (\<lambda>err s. case err of
                        Some e \<Rightarrow> slog LevelWarn ''Failed to send health ping'' s
                      | None \<Rightarrow> s)
            (slog LevelInfo ''Shutdown signal received. Exiting.'') None
            (Config.HealthInterval cfg) w n (before_probe_monitor cfg s1))))"
      by (rule run_skeleton_ticks_before [OF assms _ only_logs_id only_logs_id _ only_logs_slog bp])
        (erule PingProbe_Probe_ticks_before [OF assms], rule only_logs_health_monitor)
    then show ?thesis
      unfolding runMonitor_skeleton sdk None by simp
  qed
qed


lemma loops_interrupted:
  assumes "cancel_at w = Some c" "now s \<le> c" "c < next_tick tk"
  shows "probeGameServer_loop (Suc k) w cfg pr ad tk s =
           (Some (Returned (Some Canceled)),
            s\<lparr>now := c, step := Suc (step s), trace := trace s @ [(c, RecvDone)]\<rparr>)"
    and "PingProbe_Probe_loop (Suc k) w pc pr ad tk s =
           (Some (Returned (Some Canceled)),
            s\<lparr>now := c, step := Suc (step s), trace := trace s @ [(c, RecvDone)]\<rparr>)"
    and "PingProbe_Probe_part_000_loop (Suc k) w cfg pr ad tk s =
           (Some (Returned (Some Canceled)),
            s\<lparr>now := c, step := Suc (step s), trace := trace s @ [(c, RecvDone)]\<rparr>)"
    and "RunManager_loop (Suc k) w tk s =
           (Some (Returned ()),
            slog LevelInfo ''Shutdown signal received. Stopping Agones manager.''
              (s\<lparr>now := c, step := Suc (step s), trace := trace s @ [(c, RecvDone)]\<rparr>))"
    and "runMonitor_loop (Suc k) w tk s =
           (Some (Returned None),
            slog LevelInfo ''Shutdown signal received. Exiting.''
              (s\<lparr>now := c, step := Suc (step s), trace := trace s @ [(c, RecvDone)]\<rparr>))"
  by (simp_all add: select_interrupted [OF assms])

lemma RunManager_heartbeat_unfold:
  assumes "probeGameServer w cfg n (before_probe cfg s0) = (Some (Returned None), s5)"
    "sdk_Ready w s5 = (None, s6)" "0 < AgonesConfig.HealthInterval cfg"
  shows "RunManager w cfg n s0 =
     RunManager_loop n w
       \<lparr>period = AgonesConfig.HealthInterval cfg,
        next_tick = now s6 + AgonesConfig.HealthInterval cfg\<rparr>
       (slog LevelInfo ''>>> Server is Ready! Starting health checks. <<<'' s6)"
  using assms
  by (simp add: RunManager_skeleton run_skeleton_def NewTicker_def Let_def RunManager_loop_beat)

lemma RunManager_probe_cancelled:
  assumes "probeGameServer w cfg n (before_probe cfg s0) = (Some (Returned (Some e)), s5)"
  shows "RunManager w cfg n s0 =
     (Some (Returned ()),
      slog LevelError ''Readiness probe failed, game server will not be marked as Ready'' s5)"
  using assms by (simp add: RunManager_skeleton run_skeleton_def)

lemma runMonitor_heartbeat_unfold:
  assumes "sdk_NewSDK w s0 = (None, s1)"
    "p w n (before_probe_monitor mc s1) = (Some (Returned None), s6)"
    "sdk_Ready w s6 = (None, s7)" "0 < Config.HealthInterval mc"
  shows "runMonitor p mc w n s0 =
     runMonitor_loop n w
       \<lparr>period = Config.HealthInterval mc, next_tick = now s7 + Config.HealthInterval mc\<rparr>
       (slog LevelInfo ''>>> Server is Ready! Starting health checks. <<<'' s7)"
  using assms
  by (simp add: runMonitor_skeleton run_skeleton_def NewTicker_def Let_def runMonitor_loop_beat)

lemma runMonitor_probe_cancelled:
  assumes "sdk_NewSDK w s0 = (None, s1)"
    "p w n (before_probe_monitor mc s1) = (Some (Returned (Some e)), s6)"
  shows "runMonitor p mc w n s0 =
     (Some (Returned (Some (Wrapped ''readiness probe failed: '' e))), s6)"
  using assms by (simp add: runMonitor_skeleton run_skeleton_def)

text \<open>
  C5, as the code has it. The initial delay is a \<open>time.Sleep\<close>, which no signal
  interrupts: when the context is cancelled during the delay, the manager sleeps the whole
  delay, then takes the cancellation branch at the first wait of the readiness loop and
  returns, with no probe attempt and no signal sent. The waits of the loops themselves are
  interrupted: a \<open>select\<close> that is blocked when the context is cancelled takes the
  cancellation branch at that instant, and so does every iteration of the three readiness
  loops and of the two heartbeat loops, in whatever state and with whatever ticker it
  starts: the readiness loops return \<open>context.Canceled\<close>, the heartbeat loops log the
  shutdown and return. These loops are the ones that \<open>probeGameServer\<close>, \<open>PingProbe.Probe\<close>,
  \<open>RunManager\<close> and \<open>runMonitor\<close> run: a cancellation returned by the probe ends the manager,
  and after a successful ready signal the manager is its heartbeat loop. In a world where
  the runtime takes the cancellation branch whenever it is ready, no run receives a tick
  at the instant of the cancellation or later.
\<close>

theorem C5_cancellation_after_full_delay:
  "(cancel_at w = Some c \<and> c \<le> max 0 (AgonesConfig.InitialDelay cfg) \<longrightarrow>
      RunManager w cfg (Suc n) start =
        (Some (Returned ()),
         \<lparr>now = max 0 (AgonesConfig.InitialDelay cfg), step = 1,
          trace =
            [(0, Log LevelInfo ''Starting Agones manager...''),
             (0, Log LevelInfo ''Waiting for initial delay before probing''),
             (0, Sleep (AgonesConfig.InitialDelay cfg)),
             (max 0 (AgonesConfig.InitialDelay cfg), Log LevelInfo ''Starting readiness probe...''),
             (max 0 (AgonesConfig.InitialDelay cfg), RecvDone),
             (max 0 (AgonesConfig.InitialDelay cfg),
              Log LevelError ''Readiness probe failed, game server will not be marked as Ready'')]\<rparr>)) \<and>
   (cancel_at w = Some c \<and> reply w 0 = (d0, None)
      \<and> c \<le> int d0 + max 0 (Config.InitialDelay mc) \<longrightarrow>
      runMonitor (PingProbe_Probe pc) mc w (Suc n) start =
        (Some (Returned (Some (Wrapped ''readiness probe failed: '' Canceled))),
         \<lparr>now = int d0 + max 0 (Config.InitialDelay mc), step = 2,
          trace =
            [(0, NewSDK None),
             (int d0, Log LevelInfo ''Successfully connected to Agones SDK''),
             (int d0, Log LevelInfo ''Waiting for initial delay''),
             (int d0, Sleep (Config.InitialDelay mc)),
             (int d0 + max 0 (Config.InitialDelay mc), Log LevelInfo ''Starting readiness probe...''),
             (int d0 + max 0 (Config.InitialDelay mc), Log LevelInfo ''Starting ping probe''),
             (int d0 + max 0 (Config.InitialDelay mc), RecvDone)]\<rparr>)) \<and>
   (cancel_at w = Some c \<and> now s \<le> c \<and> c < next_tick tk \<longrightarrow>
      select w tk s =
        (DoneBranch, tk, s\<lparr>now := c, step := Suc (step s), trace := trace s @ [(c, RecvDone)]\<rparr>)) \<and>
   (cancel_at w = Some c \<and> now s \<le> c \<and> c < next_tick tk \<longrightarrow>
      probeGameServer_loop (Suc k) w cfg pr ad tk s =
        (Some (Returned (Some Canceled)),
         s\<lparr>now := c, step := Suc (step s), trace := trace s @ [(c, RecvDone)]\<rparr>) \<and>
      PingProbe_Probe_loop (Suc k) w pc pr ad tk s =
        (Some (Returned (Some Canceled)),
         s\<lparr>now := c, step := Suc (step s), trace := trace s @ [(c, RecvDone)]\<rparr>) \<and>
      PingProbe_Probe_part_000_loop (Suc k) w cfg pr ad tk s =
        (Some (Returned (Some Canceled)),
         s\<lparr>now := c, step := Suc (step s), trace := trace s @ [(c, RecvDone)]\<rparr>) \<and>
      RunManager_loop (Suc k) w tk s =
        (Some (Returned ()),
         slog LevelInfo ''Shutdown signal received. Stopping Agones manager.''
           (s\<lparr>now := c, step := Suc (step s), trace := trace s @ [(c, RecvDone)]\<rparr>)) \<and>
      runMonitor_loop (Suc k) w tk s =
        (Some (Returned None),
         slog LevelInfo ''Shutdown signal received. Exiting.''
           (s\<lparr>now := c, step := Suc (step s), trace := trace s @ [(c, RecvDone)]\<rparr>))) \<and>
   probeGameServer w cfg n s =
     probeGameServer_loop n w cfg (ToLower w (PingProtocol cfg))
       (JoinHostPort (PingHost cfg) (PingPort cfg))
       \<lparr>period = 2 * Second, next_tick = now s + 2 * Second\<rparr> s \<and>
   PingProbe_Probe pc w n s =
     PingProbe_Probe_loop n w pc (ToLower w (Protocol pc)) (JoinHostPort (Host pc) (Port pc))
       \<lparr>period = 5 * Second, next_tick = now s + 5 * Second\<rparr>
       (slog LevelInfo ''Starting ping probe'' s) \<and>
   PingProbe_Probe_part_000 cfg w n s =
     PingProbe_Probe_part_000_loop n w cfg (ToLower w (PingProtocol cfg))
       (JoinHostPort (PingHost cfg) (PingPort cfg))
       \<lparr>period = 5 * Second, next_tick = now s + 5 * Second\<rparr>
       (slog LevelInfo ''Starting ping probe'' s) \<and>
   (probeGameServer w cfg n (before_probe cfg s0) = (Some (Returned (Some e)), s5) \<longrightarrow>
      RunManager w cfg n s0 =
        (Some (Returned ()),
         slog LevelError ''Readiness probe failed, game server will not be marked as Ready'' s5)) \<and>
   (probeGameServer w cfg n (before_probe cfg s0) = (Some (Returned None), s5)
      \<and> sdk_Ready w s5 = (None, s6) \<and> 0 < AgonesConfig.HealthInterval cfg \<longrightarrow>
      RunManager w cfg n s0 =
        RunManager_loop n w
          \<lparr>period = AgonesConfig.HealthInterval cfg,
           next_tick = now s6 + AgonesConfig.HealthInterval cfg\<rparr>
          (slog LevelInfo ''>>> Server is Ready! Starting health checks. <<<'' s6)) \<and>
   (sdk_NewSDK w s0 = (None, s1)
      \<and> p w n (before_probe_monitor mc s1) = (Some (Returned (Some e)), s5) \<longrightarrow>
      runMonitor p mc w n s0 =
        (Some (Returned (Some (Wrapped ''readiness probe failed: '' e))), s5)) \<and>
   (sdk_NewSDK w s0 = (None, s1)
      \<and> p w n (before_probe_monitor mc s1) = (Some (Returned None), s5)
      \<and> sdk_Ready w s5 = (None, s6) \<and> 0 < Config.HealthInterval mc \<longrightarrow>
      runMonitor p mc w n s0 =
        runMonitor_loop n w
          \<lparr>period = Config.HealthInterval mc, next_tick = now s6 + Config.HealthInterval mc\<rparr>
          (slog LevelInfo ''>>> Server is Ready! Starting health checks. <<<'' s6)) \<and>
   (cancel_at w = Some c \<and> (\<forall>j. \<not> pick_tick w j) \<longrightarrow>
      ticks_before c (trace (snd (RunManager w cfg n start))) \<and>
      ticks_before c (trace (snd (runMonitor (PingProbe_Probe pc) mc w n start))) \<and>
      ticks_before c (trace (snd (probeGameServer w cfg n start))) \<and>
      ticks_before c (trace (snd (PingProbe_Probe pc w n start))) \<and>
      ticks_before c (trace (snd (PingProbe_Probe_part_000 cfg w n start))))"
proof -
  have st: "ticks_before c (trace start)"
    by (simp add: ticks_before_def tick_times_def start_def)
  show ?thesis
    apply (intro conjI)
    subgoal using RunManager_cancelled_in_delay [of w c cfg n] by blast
    subgoal using runMonitor_cancelled_in_delay [of w c d0 mc pc n] by blast
    subgoal using select_interrupted [of w c s tk] by blast
    subgoal using loops_interrupted [of w c s tk] by blast
    subgoal by (rule probeGameServer_unfold)
    subgoal by (rule PingProbe_Probe_unfold)
    subgoal by (rule PingProbe_Probe_part_000_unfold)
    subgoal using RunManager_probe_cancelled [of w cfg n s0 e s5] by blast
    subgoal using RunManager_heartbeat_unfold [of w cfg n s0 s5 s6] by blast
    subgoal using runMonitor_probe_cancelled [of w s0 s1 p n mc e s5] by blast
    subgoal using runMonitor_heartbeat_unfold [of w s0 s1 p n mc s5 s6] by blast
    subgoal
      using RunManager_ticks_before [of w c cfg n] runMonitor_ticks_before [of w c pc mc n]
        probeGameServer_ticks_before [of w c start cfg n]
        PingProbe_Probe_ticks_before [of w c start pc n]
        PingProbe_Probe_part_000_ticks_before [of w c start cfg n] st
      by blast
    done
qed

theorem C5_witness:
  "cancel_at early_cancel_world = Some 1000000000 \<and>
   1000000000 \<le> max 0 (AgonesConfig.InitialDelay demo_agones) \<and>
   fst (RunManager early_cancel_world demo_agones (Suc 0) start) = Some (Returned ()) \<and>
   acts (snd (RunManager early_cancel_world demo_agones (Suc 0) start)) =
     [Log LevelInfo ''Starting Agones manager...'',
      Log LevelInfo ''Waiting for initial delay before probing'',
      Sleep 3000000000,
      Log LevelInfo ''Starting readiness probe...'',
      RecvDone,
      Log LevelError ''Readiness probe failed, game server will not be marked as Ready''] \<and>
   reply early_cancel_world 0 = (1000, None) \<and>
   1000000000 \<le> int 1000 + max 0 (Config.InitialDelay demo_config) \<and>
   fst (runMonitor (PingProbe_Probe (Ping demo_config)) demo_config early_cancel_world (Suc 0) start)
     = Some (Returned (Some (Wrapped ''readiness probe failed: '' Canceled))) \<and>
   now (snd (runMonitor (PingProbe_Probe (Ping demo_config)) demo_config early_cancel_world (Suc 0) start))
     = 3000001000 \<and>
   now start \<le> 1000000000 \<and>
   1000000000 < next_tick \<lparr>period = 2000000000, next_tick = 2000000000\<rparr> \<and>
   select early_cancel_world \<lparr>period = 2000000000, next_tick = 2000000000\<rparr> start =
     (DoneBranch, \<lparr>period = 2000000000, next_tick = 2000000000\<rparr>,
      \<lparr>now = 1000000000, step = 1, trace = [(1000000000, RecvDone)]\<rparr>) \<and>
   cancel_at demo_world = Some 20000000000 \<and>
   now \<lparr>now = 17000003000, step = 7, trace = []\<rparr> \<le> 20000000000 \<and>
   20000000000 < next_tick \<lparr>period = 5000000000, next_tick = 22000002000\<rparr> \<and>
   RunManager_loop (Suc 0) demo_world \<lparr>period = 5000000000, next_tick = 22000002000\<rparr>
       \<lparr>now = 17000003000, step = 7, trace = []\<rparr> =
     (Some (Returned ()),
      \<lparr>now = 20000000000, step = 8,
       trace = [(20000000000, RecvDone),
                (20000000000, Log LevelInfo ''Shutdown signal received. Stopping Agones manager.'')]\<rparr>) \<and>
   probeGameServer_loop (Suc 0) demo_world demo_agones ''tcp'' ''127.0.0.1:25565''
       \<lparr>period = 5000000000, next_tick = 22000002000\<rparr> \<lparr>now = 17000003000, step = 7, trace = []\<rparr> =
     (Some (Returned (Some Canceled)),
      \<lparr>now = 20000000000, step = 8, trace = [(20000000000, RecvDone)]\<rparr>) \<and>
   (\<forall>j. \<not> pick_tick demo_world j) \<and>
   ticks_before 20000000000 (trace (snd (RunManager demo_world demo_agones 5 start))) \<and>
   tick_times (trace (snd (RunManager demo_world demo_agones 5 start))) =
     [5000000000, 7000000000, 12000002000, 17000002000] \<and>
   filter (\<lambda>x. snd x = RecvDone) (trace (snd (RunManager demo_world demo_agones 5 start))) =
     [(20000000000, RecvDone)] \<and>
   fst (RunManager demo_world demo_agones 5 start) = Some (Returned ())"
proof -
  let ?tk = "\<lparr>period = 5000000000, next_tick = 22000002000\<rparr>"
  let ?s = "\<lparr>now = 17000003000, step = 7, trace = []\<rparr>"
  have h: "cancel_at early_cancel_world = Some 1000000000"
    "1000000000 \<le> max 0 (AgonesConfig.InitialDelay demo_agones)"
    "AgonesConfig.InitialDelay demo_agones = 3000000000"
    "reply early_cancel_world 0 = (1000, None)"
    "1000000000 \<le> int 1000 + max 0 (Config.InitialDelay demo_config)"
    "Config.InitialDelay demo_config = 3000000000"
    "now start \<le> 1000000000"
    "step start = 0" "trace start = []"
    by (simp_all add: early_cancel_world_def demo_agones_def demo_config_def Second_def start_def)
  have d: "cancel_at demo_world = Some 20000000000" "\<forall>j. \<not> pick_tick demo_world j"
    "now ?s \<le> 20000000000" "20000000000 < next_tick ?tk"
    by (simp_all add: demo_world_def Second_def)
  note delay = C5_cancellation_after_full_delay [where w = early_cancel_world and c = 1000000000 and cfg = demo_agones
      and n = 0, THEN conjunct1]
  note delay_monitor = C5_cancellation_after_full_delay [where w = early_cancel_world and c = 1000000000
      and mc = demo_config and pc = "Ping demo_config" and ?d0.0 = 1000 and n = 0,
      THEN conjunct2, THEN conjunct1]
  note sel = C5_cancellation_after_full_delay [where w = early_cancel_world and c = 1000000000
      and s = start and tk = "\<lparr>period = 2000000000, next_tick = 2000000000\<rparr>",
      THEN conjunct2, THEN conjunct2, THEN conjunct1]
  note loops = C5_cancellation_after_full_delay [where w = demo_world and c = 20000000000 and s = ?s and tk = ?tk
      and k = 0 and cfg = demo_agones and pr = "''tcp''" and ad = "''127.0.0.1:25565''",
      THEN conjunct2, THEN conjunct2, THEN conjunct2, THEN conjunct1]
  note whole = C5_cancellation_after_full_delay [where w = demo_world and c = 20000000000 and cfg = demo_agones and n = 5]
  have a: "fst (RunManager early_cancel_world demo_agones (Suc 0) start) = Some (Returned ()) \<and>
   acts (snd (RunManager early_cancel_world demo_agones (Suc 0) start)) =
     [Log LevelInfo ''Starting Agones manager...'',
      Log LevelInfo ''Waiting for initial delay before probing'',
      Sleep 3000000000,
      Log LevelInfo ''Starting readiness probe...'',
      RecvDone,
      Log LevelError ''Readiness probe failed, game server will not be marked as Ready'']"
    using delay h by (simp add: acts_def)
  have b: "fst (runMonitor (PingProbe_Probe (Ping demo_config)) demo_config early_cancel_world (Suc 0) start)
     = Some (Returned (Some (Wrapped ''readiness probe failed: '' Canceled))) \<and>
   now (snd (runMonitor (PingProbe_Probe (Ping demo_config)) demo_config early_cancel_world (Suc 0) start))
     = 3000001000"
    using delay_monitor h by simp
  have c: "select early_cancel_world \<lparr>period = 2000000000, next_tick = 2000000000\<rparr> start =
     (DoneBranch, \<lparr>period = 2000000000, next_tick = 2000000000\<rparr>,
      \<lparr>now = 1000000000, step = 1, trace = [(1000000000, RecvDone)]\<rparr>)"
    using sel h by (simp add: start_def)
  have l: "RunManager_loop (Suc 0) demo_world ?tk ?s =
     (Some (Returned ()),
      \<lparr>now = 20000000000, step = 8,
       trace = [(20000000000, RecvDone),
                (20000000000, Log LevelInfo ''Shutdown signal received. Stopping Agones manager.'')]\<rparr>)"
    "probeGameServer_loop (Suc 0) demo_world demo_agones ''tcp'' ''127.0.0.1:25565'' ?tk ?s =
     (Some (Returned (Some Canceled)),
      \<lparr>now = 20000000000, step = 8, trace = [(20000000000, RecvDone)]\<rparr>)"
    using loops d by (simp_all add: slog_def emit_def)
  have e: "1000000000 < next_tick \<lparr>period = 2000000000, next_tick = 2000000000\<rparr>"
    by simp
  have tb: "ticks_before 20000000000 (trace (snd (RunManager demo_world demo_agones 5 start)))"
    using whole d(1,2) by blast
  have tt: "tick_times (trace (snd (RunManager demo_world demo_agones 5 start))) =
     [5000000000, 7000000000, 12000002000, 17000002000]"
    by code_simp
  have rd: "filter (\<lambda>x. snd x = RecvDone) (trace (snd (RunManager demo_world demo_agones 5 start))) =
     [(20000000000, RecvDone)]"
    by code_simp
  have fr: "fst (RunManager demo_world demo_agones 5 start) = Some (Returned ())"
    by code_simp
  show ?thesis
    using h(1,2,4,5,7) a b c d l tb tt rd fr e by blast
qed

theorem C5_counterexample:
  "cancel_at early_cancel_world = Some 1000000000 \<and>
   AgonesConfig.InitialDelay demo_agones = 3000000000 \<and>
   fst (RunManager early_cancel_world demo_agones 1 start) = Some (Returned ()) \<and>
   now (snd (RunManager early_cancel_world demo_agones 1 start)) = 3000000000 \<and>
   filter (\<lambda>x. snd x = RecvDone) (trace (snd (RunManager early_cancel_world demo_agones 1 start)))
     = [(3000000000, RecvDone)]"
  by code_simp

lemma probe_spec_lifecycle:
  assumes "probe_spec I p" "all_acts is_setup (trace s)"
  shows "lifecycle (now s + I) HI (trace (snd (p w n s)))"
proof -
  obtain r s' where run: "p w n s = (r, s')"
    by (cases "p w n s") auto
  from assms(1) run obtain si where
    si: "appends is_Log (now s) s si"
    and go: "r \<noteq> Some (Returned (Some Canceled)) \<Longrightarrow> appends is_probe_act (now s + I) si s'"
    and ca: "r = Some (Returned (Some Canceled)) \<Longrightarrow>
              \<exists>sm c. appends is_probe_act (now s + I) si sm \<and> now sm \<le> now s'
                 \<and> trace s' = trace sm @ [(now s', RecvDone)] \<and> cancel_at w = Some c \<and> c \<le> now s'"
    unfolding probe_spec_def by blast
  from si obtain Lg where Lg: "trace si = trace s @ Lg" "all_acts is_Log Lg"
    by (rule appendsE)
  have S: "all_acts is_setup (trace s @ Lg)"
    using assms(2) all_acts_mono [OF Lg(2) is_Log_setup] by simp
  show ?thesis
  proof (cases "r = Some (Returned (Some Canceled))")
    case True
    from ca [OF True] obtain sm :: state where
      sm: "appends is_probe_act (now s + I) si sm" "trace s' = trace sm @ [(now s', RecvDone)]"
      by blast
    from sm(1) obtain F where F: "trace sm = trace si @ F" "all_acts is_probe_act F"
      "not_before (now s + I) F"
      by (rule appendsE)
    have "lifecycle (now s + I) HI ((trace s @ Lg) @ F @ [(now s', RecvDone)])"
      by (rule lifecycle_no_ready [OF S F(2,3)]) (simp add: done_tail_def)
    then show ?thesis using run sm(2) F(1) Lg(1) by simp
  next
    case False
    from go [OF False] obtain F where F: "trace s' = trace si @ F" "all_acts is_probe_act F"
      "not_before (now s + I) F"
      by (rule appendsE)
    have "lifecycle (now s + I) HI ((trace s @ Lg) @ F @ [])"
      by (rule lifecycle_no_ready [OF S F(2,3)]) simp
    then show ?thesis using run F(1) Lg(1) by simp
  qed
qed

lemma select_only_done:
  "done_ready w (wake_time w tk s) \<Longrightarrow> wake_time w tk s < next_tick tk
     \<Longrightarrow> fst (select w tk s) = DoneBranch"
  by (simp add: select_def Let_def)

lemma select_both_ready:
  "done_ready w (wake_time w tk s) \<Longrightarrow> next_tick tk \<le> wake_time w tk s
     \<Longrightarrow> fst (select w tk s) = (if pick_tick w (step s) then TickBranch else DoneBranch)"
  by (simp add: select_def Let_def)

text \<open>
  C4, as the code has it. Once a run has taken the cancellation branch of a \<open>select\<close>, it
  makes no network call any more: nothing after a \<open>RecvDone\<close> in a trace is a dial, a
  write, a read or a call of the SDK. A \<open>select\<close> at which the cancellation is ready and
  no tick is pending takes the cancellation branch. When the cancellation and a tick are
  both ready, the branch is the one the Go runtime picks, which may be either.
\<close>

theorem C4_no_network_call_after_cancellation_branch:
  "quiet_after_done (acts (snd (RunManager w cfg n start))) \<and>
   quiet_after_done (acts (snd (runMonitor (PingProbe_Probe pc) mc w n start))) \<and>
   quiet_after_done (acts (snd (probeGameServer w cfg n start))) \<and>
   quiet_after_done (acts (snd (PingProbe_Probe pc w n start))) \<and>
   quiet_after_done (acts (snd (PingProbe_Probe_part_000 cfg w n start))) \<and>
   (done_ready w (wake_time w tk s) \<and> wake_time w tk s < next_tick tk
      \<longrightarrow> fst (select w tk s) = DoneBranch) \<and>
   (done_ready w (wake_time w tk s) \<and> next_tick tk \<le> wake_time w tk s
      \<longrightarrow> fst (select w tk s) = (if pick_tick w (step s) then TickBranch else DoneBranch))"
  using lifecycle_quiet [OF RunManager_lifecycle [OF start_setup, where w = w and cfg = cfg and n = n]]
    lifecycle_quiet [OF runMonitor_lifecycle [OF PingProbe_Probe_spec start_setup,
      where cfg1 = pc and cfg = mc and w = w and n = n]]
    lifecycle_quiet [OF probe_spec_lifecycle [OF probeGameServer_spec start_setup,
      where cfg1 = cfg and w = w and n = n and HI = 0]]
    lifecycle_quiet [OF probe_spec_lifecycle [OF PingProbe_Probe_spec start_setup,
      where cfg1 = pc and w = w and n = n and HI = 0]]
    lifecycle_quiet [OF probe_spec_lifecycle [OF PingProbe_Probe_part_000_spec start_setup,
      where cfg1 = cfg and w = w and n = n and HI = 0]]
    select_only_done [of w tk s] select_both_ready [of w tk s]
  by (simp add: acts_def)

theorem C4_witness:
  "RecvDone \<in> set (acts (snd (RunManager demo_world demo_agones 5 start))) \<and>
   filter is_network
     (tl (dropWhile (\<lambda>a. a \<noteq> RecvDone) (acts (snd (RunManager demo_world demo_agones 5 start))))) = [] \<and>
   done_ready demo_world (wake_time demo_world \<lparr>period = 5000000000, next_tick = 30000000000\<rparr> start) \<and>
   wake_time demo_world \<lparr>period = 5000000000, next_tick = 30000000000\<rparr> start
     < next_tick \<lparr>period = 5000000000, next_tick = 30000000000\<rparr> \<and>
   fst (select demo_world \<lparr>period = 5000000000, next_tick = 30000000000\<rparr> start) = DoneBranch \<and>
   done_ready racing_world
     (wake_time racing_world \<lparr>period = 5, next_tick = 10\<rparr> \<lparr>now = 2000003000, step = 0, trace = []\<rparr>) \<and>
   next_tick \<lparr>period = 5, next_tick = 10\<rparr>
     \<le> wake_time racing_world \<lparr>period = 5, next_tick = 10\<rparr> \<lparr>now = 2000003000, step = 0, trace = []\<rparr> \<and>
   pick_tick racing_world 0 \<and>
   fst (select racing_world \<lparr>period = 5, next_tick = 10\<rparr> \<lparr>now = 2000003000, step = 0, trace = []\<rparr>)
     = TickBranch"
proof -
  let ?tr = "acts (snd (RunManager demo_world demo_agones 5 start))"
  let ?P = "\<lambda>a. a \<noteq> RecvDone"
  have ex: "RecvDone \<in> set ?tr"
    by code_simp
  then have ne: "dropWhile ?P ?tr \<noteq> []"
    by simp
  then have "hd (dropWhile ?P ?tr) = RecvDone"
    using hd_dropWhile [of ?P ?tr] by blast
  then have "?tr = takeWhile ?P ?tr @ RecvDone # tl (dropWhile ?P ?tr)"
    using ne by (metis list.collapse takeWhile_dropWhile_id)
  then have "\<forall>a\<in>set (tl (dropWhile ?P ?tr)). \<not> is_network a"
    using C4_no_network_call_after_cancellation_branch [where w = demo_world and cfg = demo_agones
        and n = 5]
    unfolding quiet_after_done_def by blast
  then have q: "filter is_network (tl (dropWhile ?P ?tr)) = []"
    by (simp only: filter_empty_conv)
  let ?tk = "\<lparr>period = 5000000000, next_tick = 30000000000\<rparr>"
  let ?tk' = "\<lparr>period = 5, next_tick = 10\<rparr>"
  let ?s' = "\<lparr>now = 2000003000, step = 0, trace = []\<rparr>"
  have h: "done_ready demo_world (wake_time demo_world ?tk start)"
    "wake_time demo_world ?tk start < next_tick ?tk"
    "done_ready racing_world (wake_time racing_world ?tk' ?s')"
    "next_tick ?tk' \<le> wake_time racing_world ?tk' ?s'"
    "pick_tick racing_world 0"
    by (simp_all add: done_ready_def wake_time_def demo_world_def racing_world_def start_def Second_def)
  have a: "fst (select demo_world ?tk start) = DoneBranch"
    using C4_no_network_call_after_cancellation_branch [where w = demo_world and s = start
        and tk = ?tk] h(1,2)
    by blast
  have b: "fst (select racing_world ?tk' ?s') = TickBranch"
    using C4_no_network_call_after_cancellation_branch [where w = racing_world and s = ?s'
        and tk = ?tk'] h(3,4,5)
    by simp
  show ?thesis using ex q h a b by blast
qed

theorem C4_counterexample:
  "cancel_at cancel_during_dial_world = Some 5000000500 \<and>
   (5000001000, Ready None) \<in> set (trace (snd (RunManager cancel_during_dial_world demo_agones 1 start))) \<and>
   cancel_at racing_world = Some 2000002500 \<and>
   (2000003005, Health None) \<in> set (trace (snd (RunManager racing_world racing_agones 3 start)))"
  by code_simp

text \<open>
  What the sibling loops do where \<open>probeGameServer\<close> and the earlier probe differ from
  the later probe. In \<open>probeGameServer\<close> a successful dial ends the loop, whatever the
  protocol, and no run of it writes on a connection. In both ping probes the outcome of a UDP attempt whose dial succeeded is the
  result of the write. The later probe refuses a protocol that is neither \<open>tcp\<close> nor \<open>udp\<close>
  without dialling.
\<close>

lemma probeGameServer_loop_dial_ok:
  "select w tk s = (TickBranch, tk1, s1) \<Longrightarrow>
   net_DialTimeout w pr ad (PingTimeout cfg) s1 = (None, s2) \<Longrightarrow>
   probeGameServer_loop (Suc n) w cfg pr ad tk s =
     (Some (Returned None),
      slog LevelInfo ''Readiness probe successful!'' (conn_Close (emit (Attempt None) s2)))"
  by simp

lemma probeGameServer_loop_never_writes:
  "filter is_Write (acts (snd (probeGameServer_loop n w cfg pr ad tk s))) = filter is_Write (acts s)"
proof (induction n arbitrary: tk s)
  case 0
  show ?case by simp
next
  case (Suc n)
  obtain b tk1 s1 where sel: "select w tk s = (b, tk1, s1)"
    by (cases "select w tk s") auto
  obtain err s2 where dial: "net_DialTimeout w pr ad (PingTimeout cfg) s1 = (err, s2)"
    by (cases "net_DialTimeout w pr ad (PingTimeout cfg) s1") auto
  have a1: "acts s1 = acts s @ [RecvTick] \<or> acts s1 = acts s @ [RecvDone]"
    using sel by (auto simp: select_def Let_def acts_def split: if_splits)
  have a2: "acts s2 = acts s1 @ [DialTimeout pr ad (PingTimeout cfg) err]"
    using dial by (auto simp: net_DialTimeout_def extern_def Let_def acts_def emit_def split: prod.splits)
  show ?case
    using sel dial a1 a2 Suc.IH [of tk1]
    by (cases b; cases err) (auto simp: acts_def slog_def emit_def conn_Close_def)
qed

lemma probeGameServer_never_writes:
  "filter is_Write (acts (snd (probeGameServer w cfg n start))) = []"
  using Second_pos
  by (simp add: probeGameServer_def NewTicker_def Let_def probeGameServer_loop_never_writes)
    (simp add: start_def acts_def)

lemma ping_attempt_udp_outcome:
  "pr \<noteq> ''tcp'' \<Longrightarrow> net_DialTimeout w pr ad (Timeout cfg) s = (None, s1) \<Longrightarrow>
   conn_Write w ''ping'' s1 = (e, s2) \<Longrightarrow>
   ping_attempt w cfg pr ad s = (e, conn_Close s2)"
  by (simp add: ping_attempt_def)

lemma ping_attempt_part_000_udp_outcome:
  "net_DialTimeout w ''udp'' ad (PingTimeout cfg) s = (None, s1) \<Longrightarrow>
   conn_Write w ''ping'' s1 = (e, s2) \<Longrightarrow>
   fst (ping_attempt_part_000 w cfg ''udp'' ad s) = e"
  by (simp add: ping_attempt_part_000_def split: option.splits prod.splits)

lemma ping_attempt_part_000_unsupported:
  "pr \<noteq> ''tcp'' \<Longrightarrow> pr \<noteq> ''udp'' \<Longrightarrow>
   ping_attempt_part_000 w cfg pr ad s = (Some (Unsupported pr), s)"
  by (simp add: ping_attempt_part_000_def)

end
